(* ===== verification/Bt_Prelude.thy ===== *)
theory Bt_Prelude
  imports Main "HOL-Library.Word"
begin

text \<open>
  Shared vocabulary of the development: the machine integer types of the source, the
  outcome of a Rust computation that performs system calls, the combinators that mirror
  the control flow of the source (the question mark operator, \<open>match\<close> on a result,
  drop of an owned handle, local variables a closure captures), and a weakest
  precondition calculus over them whose rules are simplification rules.

  A computation takes the state of the world and gives either nothing (it does not
  return: a retry loop that never leaves) or an outcome together with the state it leaves.
\<close>

section \<open>Integer types\<close>

type_synonym u8 = "8 word"
type_synonym u16 = "16 word"
type_synonym u32 = "32 word"
type_synonym u64 = "64 word"
type_synonym usize = "64 word"
type_synonym ssize_t = "64 word"
type_synonym c_short = "16 word"
type_synonym c_int = "32 word"
type_synonym c_ulong = "64 word"

section \<open>Errors and outcomes\<close>

text \<open>\<open>std::io::ErrorKind\<close>.\<close>

datatype error_kind =
    NotFound | PermissionDenied | ConnectionRefused | ConnectionReset | ConnectionAborted
  | NotConnected | AddrInUse | AddrNotAvailable | BrokenPipe | AlreadyExists | WouldBlock
  | InvalidInput | InvalidData | TimedOut | WriteZero | Interrupted | Other | UnexpectedEof

text \<open>
  \<open>std::io::Error\<close>: an operating system code, or a kind with a message
  (\<open>io::Error::new\<close>).
\<close>

datatype io_error = Os c_int | Custom error_kind string

fun raw_os_error :: "io_error \<Rightarrow> c_int option" where
  "raw_os_error (Os c) = Some c"
| "raw_os_error (Custom k msg) = None"

text \<open>
  \<open>io::Error::kind\<close>: the kind of a code is decided by the platform's table
  \<open>decode\<close>.
\<close>

fun io_kind :: "(c_int \<Rightarrow> error_kind) \<Rightarrow> io_error \<Rightarrow> error_kind" where
  "io_kind decode (Os c) = decode c"
| "io_kind decode (Custom k msg) = k"

datatype 'a outcome = Ok 'a | Err io_error | Panic

type_synonym ('s, 'a) io = "'s \<Rightarrow> ('a outcome \<times> 's) option"

text \<open>A system call takes the world and gives its results and the world it leaves.\<close>

type_synonym ('s, 'a) call = "'s \<Rightarrow> 'a \<times> 's"

section \<open>Control flow\<close>

definition io_ret :: "'a \<Rightarrow> ('s, 'a) io" where
  "io_ret a = (\<lambda>s. Some (Ok a, s))"

definition io_err :: "io_error \<Rightarrow> ('s, 'a) io" where
  "io_err e = (\<lambda>s. Some (Err e, s))"

definition io_panic :: "('s, 'a) io" where
  "io_panic = (\<lambda>s. Some (Panic, s))"

text \<open>A call whose raw result the code inspects itself.\<close>

definition io_call :: "('s, 'a) call \<Rightarrow> ('s, 'a) io" where
  "io_call c = (\<lambda>s. Some (Ok (fst (c s)), snd (c s)))"

text \<open>Reading a value off the state, such as the thread's last error code.\<close>

definition io_get :: "('s \<Rightarrow> 'a) \<Rightarrow> ('s, 'a) io" where
  "io_get f = (\<lambda>s. Some (Ok (f s), s))"

text \<open>\<open>match r { Ok(a) => k a, Err(e) => h e }\<close>.\<close>

definition io_match ::
    "('s, 'a) io \<Rightarrow> ('a \<Rightarrow> ('s, 'b) io) \<Rightarrow> (io_error \<Rightarrow> ('s, 'b) io) \<Rightarrow> ('s, 'b) io" where
  "io_match m k h = (\<lambda>s. case m s of
       None \<Rightarrow> None
     | Some (Ok a, s') \<Rightarrow> k a s'
     | Some (Err e, s') \<Rightarrow> h e s'
     | Some (Panic, s') \<Rightarrow> Some (Panic, s'))"

text \<open>\<open>let a = m?; k a\<close>.\<close>

definition io_bind :: "('s, 'a) io \<Rightarrow> ('a \<Rightarrow> ('s, 'b) io) \<Rightarrow> ('s, 'b) io" where
  "io_bind m k = io_match m k io_err"

definition io_map :: "('a \<Rightarrow> 'b) \<Rightarrow> ('s, 'a) io \<Rightarrow> ('s, 'b) io" where
  "io_map f m = io_bind m (\<lambda>a. io_ret (f a))"

text \<open>
  A block that owns a handle: when it leaves by an error or a panic the handle is
  dropped, when it succeeds the handle has moved into the result.
\<close>

definition with_drop :: "('s \<Rightarrow> 's) \<Rightarrow> ('s, 'a) io \<Rightarrow> ('s, 'a) io" where
  "with_drop d m = (\<lambda>s. case m s of
       None \<Rightarrow> None
     | Some (Ok a, s') \<Rightarrow> Some (Ok a, s')
     | Some (r, s') \<Rightarrow> Some (r, d s'))"

text \<open>
  \<open>io_locals l m\<close> runs \<open>m\<close> on the world extended by local variables that a
  closure captures or a call writes through a pointer; \<open>on_world m\<close> runs a
  computation that does not see them.
\<close>

definition io_locals :: "'l \<Rightarrow> ('s \<times> 'l, 'a) io \<Rightarrow> ('s, 'a) io" where
  "io_locals l m = (\<lambda>s. case m (s, l) of
       None \<Rightarrow> None
     | Some (r, s') \<Rightarrow> Some (r, fst s'))"

definition on_world :: "('s, 'a) io \<Rightarrow> ('s \<times> 'l, 'a) io" where
  "on_world m = (\<lambda>s. case m (fst s) of
       None \<Rightarrow> None
     | Some (r, s') \<Rightarrow> Some (r, (s', snd s)))"

text \<open>
  A call that writes to a local variable through a pointer: the variable is passed in and
  its new value comes out beside the result.
\<close>

definition out_call :: "('l \<Rightarrow> ('s, 'a \<times> 'l) call) \<Rightarrow> ('s \<times> 'l, 'a) call" where
  "out_call c = (\<lambda>s. let r = c (snd s) (fst s) in (fst (fst r), (snd r, snd (fst r))))"

text \<open>Writing to the state, as a store to a static variable does.\<close>

definition io_modify :: "('s \<Rightarrow> 's) \<Rightarrow> ('s, unit) io" where
  "io_modify f = (\<lambda>s. Some (Ok (), f s))"

text \<open>
  \<open>let r = m;\<close>, where the result is inspected later: a failure becomes a value.
\<close>

definition io_result :: "('s, 'a) io \<Rightarrow> ('s, io_error + 'a) io" where
  "io_result m = io_match m (\<lambda>a. io_ret (Inr a)) (\<lambda>e. io_ret (Inl e))"

lemma out_call_simps [simp]:
  "fst (out_call c s) = fst (fst (c (snd s) (fst s)))"
  "snd (out_call c s) = (snd (c (snd s) (fst s)), snd (fst (c (snd s) (fst s))))"
  by (simp_all add: out_call_def Let_def)

lemmas io_defs = io_ret_def io_err_def io_panic_def io_call_def io_get_def io_match_def
  io_bind_def io_map_def with_drop_def io_locals_def on_world_def
  io_modify_def io_result_def

section \<open>Weakest preconditions\<close>

text \<open>
  \<open>wp t m Q s\<close>: started in \<open>s\<close>, every outcome of \<open>m\<close> satisfies \<open>Q\<close>;
  \<open>t\<close> says what holds when \<open>m\<close> does not return, so \<open>wp True\<close> is partial and
  \<open>wp False\<close> total correctness.
\<close>

definition wp :: "bool \<Rightarrow> ('s, 'a) io \<Rightarrow> ('a outcome \<Rightarrow> 's \<Rightarrow> bool) \<Rightarrow> 's \<Rightarrow> bool" where
  "wp t m Q s = (case m s of None \<Rightarrow> t | Some (r, s') \<Rightarrow> Q r s')"

abbreviation returns :: "('s, 'a) io \<Rightarrow> 's \<Rightarrow> bool" where
  "returns m s \<equiv> wp False m (\<lambda>_ _. True) s"

named_theorems io_wp \<open>weakest preconditions of the combinators and of the model's operations\<close>

lemma wp_ret [io_wp]: "wp t (io_ret a) Q s = Q (Ok a) s"
  by (simp add: wp_def io_ret_def)

lemma wp_err [io_wp]: "wp t (io_err e) Q s = Q (Err e) s"
  by (simp add: wp_def io_err_def)

lemma wp_panic [io_wp]: "wp t io_panic Q s = Q Panic s"
  by (simp add: wp_def io_panic_def)

lemma wp_call [io_wp]: "wp t (io_call c) Q s = Q (Ok (fst (c s))) (snd (c s))"
  by (simp add: wp_def io_call_def)

lemma wp_get [io_wp]: "wp t (io_get f) Q s = Q (Ok (f s)) s"
  by (simp add: wp_def io_get_def)

lemma wp_modify [io_wp]: "wp t (io_modify f) Q s = Q (Ok ()) (f s)"
  by (simp add: wp_def io_modify_def)

lemma wp_match [io_wp]:
  "wp t (io_match m k h) Q s =
     wp t m (\<lambda>r s'. case r of Ok a \<Rightarrow> wp t (k a) Q s' | Err e \<Rightarrow> wp t (h e) Q s'
                     | Panic \<Rightarrow> Q Panic s') s"
  by (simp add: wp_def io_match_def split: option.splits prod.splits outcome.splits)

lemma wp_bind [io_wp]:
  "wp t (io_bind m k) Q s =
     wp t m (\<lambda>r s'. case r of Ok a \<Rightarrow> wp t (k a) Q s' | Err e \<Rightarrow> Q (Err e) s'
                     | Panic \<Rightarrow> Q Panic s') s"
  by (simp add: io_bind_def io_wp cong: outcome.case_cong)

lemma wp_map [io_wp]:
  "wp t (io_map f m) Q s =
     wp t m (\<lambda>r s'. case r of Ok a \<Rightarrow> Q (Ok (f a)) s' | Err e \<Rightarrow> Q (Err e) s'
                     | Panic \<Rightarrow> Q Panic s') s"
  by (simp add: io_map_def io_wp cong: outcome.case_cong)

lemma wp_result [io_wp]:
  "wp t (io_result m) Q s =
     wp t m (\<lambda>r s'. case r of Ok a \<Rightarrow> Q (Ok (Inr a)) s' | Err e \<Rightarrow> Q (Ok (Inl e)) s'
                     | Panic \<Rightarrow> Q Panic s') s"
  by (simp add: io_result_def io_wp cong: outcome.case_cong)

lemma wp_with_drop [io_wp]:
  "wp t (with_drop d m) Q s =
     wp t m (\<lambda>r s'. case r of Ok a \<Rightarrow> Q (Ok a) s' | Err e \<Rightarrow> Q (Err e) (d s')
                     | Panic \<Rightarrow> Q Panic (d s')) s"
  by (simp add: wp_def with_drop_def split: option.splits prod.splits outcome.splits)

lemma wp_locals [io_wp]: "wp t (io_locals l m) Q s = wp t m (\<lambda>r s'. Q r (fst s')) (s, l)"
  by (simp add: wp_def io_locals_def split: option.splits prod.splits)

lemma wp_on_world [io_wp]:
  "wp t (on_world m) Q s = wp t m (\<lambda>r s'. Q r (s', snd s)) (fst s)"
  by (simp add: wp_def on_world_def split: option.splits prod.splits)

lemma wp_if [io_wp]:
  "wp t (if c then m else n) Q s = (if c then wp t m Q s else wp t n Q s)"
  by simp

lemma wp_let [io_wp]: "wp t (Let x f) Q s = wp t (f x) Q s"
  by simp

lemma wp_mono:
  assumes "wp t m Q s" and "\<And>r s'. Q r s' \<Longrightarrow> R r s'"
  shows "wp t m R s"
  using assms by (auto simp: wp_def split: option.splits)

lemma wp_conj: "wp t m (\<lambda>r s'. Q r s' \<and> R r s') s \<longleftrightarrow> wp t m Q s \<and> wp t m R s"
  by (auto simp: wp_def split: option.splits)

lemma wp_total_partial: "wp False m Q s \<longleftrightarrow> returns m s \<and> wp True m Q s"
  by (auto simp: wp_def split: option.splits)

text \<open>From the calculus back to runs, and the other way round.\<close>

lemma wpD: "wp t m Q s \<Longrightarrow> m s = Some (r, s') \<Longrightarrow> Q r s'"
  by (simp add: wp_def)

lemma wpI: "(\<And>r s'. m s = Some (r, s') \<Longrightarrow> Q r s') \<Longrightarrow> wp True m Q s"
  by (auto simp: wp_def split: option.splits)

lemma returnsD: "returns m s \<Longrightarrow> \<exists>r s'. m s = Some (r, s')"
  by (auto simp: wp_def split: option.splits)

lemma wp_SomeI: "wp False m Q s \<Longrightarrow> \<exists>r s'. m s = Some (r, s') \<and> Q r s'"
  by (auto simp: wp_def split: option.splits)

lemma wp_FalseI: "m s = Some (r, s') \<Longrightarrow> Q r s' \<Longrightarrow> wp t m Q s"
  by (simp add: wp_def)

lemma wp_eq: "wp False m (\<lambda>r s'. r = r0 \<and> s' = s0) s \<longleftrightarrow> m s = Some (r0, s0)"
  by (auto simp: wp_def split: option.splits)

section \<open>Success triples\<close>

text \<open>
  \<open>triple R m P\<close>: started where \<open>R\<close> holds, whenever \<open>m\<close> succeeds with \<open>a\<close> the state it
  leaves satisfies \<open>P a\<close>. Nothing is said about errors, so a sequence is checked along
  its successful path only.
\<close>

definition triple :: "('s \<Rightarrow> bool) \<Rightarrow> ('s, 'a) io \<Rightarrow> ('a \<Rightarrow> 's \<Rightarrow> bool) \<Rightarrow> bool" where
  "triple R m P \<longleftrightarrow> (\<forall>s. R s \<longrightarrow> wp True m (\<lambda>r s'. case r of Ok a \<Rightarrow> P a s' | _ \<Rightarrow> True) s)"

lemma tripleI:
  "(\<And>s. R s \<Longrightarrow> wp True m (\<lambda>r s'. case r of Ok a \<Rightarrow> P a s' | _ \<Rightarrow> True) s) \<Longrightarrow> triple R m P"
  by (simp add: triple_def)

lemma tripleD:
  "triple R m P \<Longrightarrow> R s \<Longrightarrow> wp True m (\<lambda>r s'. case r of Ok a \<Rightarrow> P a s' | _ \<Rightarrow> True) s"
  by (simp add: triple_def)

lemma triple_ret: "(\<And>s. R s \<Longrightarrow> P a s) \<Longrightarrow> triple R (io_ret a) P"
  by (simp add: triple_def io_wp)

lemma triple_err: "triple R (io_err e) P"
  by (simp add: triple_def io_wp)

lemma triple_panic: "triple R io_panic P"
  by (simp add: triple_def io_wp)

lemma triple_top: "triple R m (\<lambda>_ _. True)"
  by (auto simp: triple_def wp_def split: option.splits outcome.splits)

lemma triple_match:
  assumes "triple R m R'" and "\<And>a. triple (R' a) (k a) P" and "\<And>e. triple (\<lambda>_. True) (h e) P"
  shows "triple R (io_match m k h) P"
proof (rule tripleI, simp only: wp_match, rule wp_mono [OF tripleD [OF assms(1)]])
  fix r s'
  assume "case r of Ok a \<Rightarrow> R' a s' | _ \<Rightarrow> True"
  then show "case r of
      Ok a \<Rightarrow> wp True (k a) (\<lambda>r s'. case r of Ok a \<Rightarrow> P a s' | _ \<Rightarrow> True) s'
    | Err e \<Rightarrow> wp True (h e) (\<lambda>r s'. case r of Ok a \<Rightarrow> P a s' | _ \<Rightarrow> True) s'
    | Panic \<Rightarrow> (case Panic of Ok a \<Rightarrow> P a s' | _ \<Rightarrow> True)"
    using tripleD [OF assms(2)] tripleD [OF assms(3)] by (cases r) simp_all
qed

lemma triple_bind:
  "triple R m R' \<Longrightarrow> (\<And>a. triple (R' a) (k a) P) \<Longrightarrow> triple R (io_bind m k) P"
  unfolding io_bind_def by (rule triple_match) (auto intro: triple_err)

lemma triple_if: "triple R m P \<Longrightarrow> triple R n P \<Longrightarrow> triple R (if c then m else n) P"
  by simp

lemma triple_map: "triple R m (\<lambda>a. P (f a)) \<Longrightarrow> triple R (io_map f m) P"
  unfolding io_map_def by (rule triple_bind) (auto intro: triple_ret)

lemma triple_with_drop: "triple R m P \<Longrightarrow> triple R (with_drop d m) P"
  by (simp add: triple_def io_wp cong: outcome.case_cong)

lemma triple_locals:
  "triple (\<lambda>s. R (fst s)) m (\<lambda>a s. P a (fst s)) \<Longrightarrow> triple R (io_locals l m) P"
  by (simp add: triple_def io_wp cong: outcome.case_cong)

lemma triple_on_world:
  "triple R m P \<Longrightarrow> triple (\<lambda>s. R (fst s)) (on_world m) (\<lambda>a s. P a (fst s))"
  by (simp add: triple_def io_wp cong: outcome.case_cong)

lemma triple_weaken:
  assumes "triple R' m P'" and "\<And>s. R s \<Longrightarrow> R' s" and "\<And>a s. P' a s \<Longrightarrow> P a s"
  shows "triple R m P"
  by (rule tripleI, rule wp_mono [OF tripleD [OF assms(1) assms(2)]])
    (auto split: outcome.splits intro: assms(3))

section \<open>The monad laws\<close>

lemma io_bind_ret [simp]: "io_bind (io_ret a) k = k a"
  by (rule ext) (simp add: io_defs)

lemma io_bind_ret_right [simp]: "io_bind m io_ret = m"
  by (rule ext) (simp add: io_defs split: option.splits prod.splits outcome.splits)

lemma io_bind_assoc: "io_bind (io_bind m k) h = io_bind m (\<lambda>a. io_bind (k a) h)"
  by (rule ext) (simp add: io_defs split: option.splits prod.splits outcome.splits)

lemma io_bind_err [simp]: "io_bind (io_err e) k = io_err e"
  by (rule ext) (simp add: io_defs)

lemma io_map_id [simp]: "io_map (\<lambda>a. a) m = m"
  by (simp add: io_map_def)

lemma io_map_map: "io_map f (io_map g m) = io_map (\<lambda>a. f (g a)) m"
  by (simp add: io_map_def io_bind_assoc)

end
