(* ===== verification/Rust_Std.thy ===== *)
theory Rust_Std
  imports Bt_Prelude
begin

text \<open>
  The parts of Rust's standard library the source computes with: checked and saturating
  arithmetic on \<open>u64\<close>, the little endian byte representation of integers, and
  \<open>std::time::Duration\<close> with its ordering, constructor and subtraction, each related
  to the number of nanoseconds it stands for.
\<close>

unbundle bit_operations_syntax

section \<open>Checked and saturating arithmetic\<close>

definition checked_add :: "'a::len word \<Rightarrow> 'a word \<Rightarrow> 'a word option" where
  "checked_add a b = (if unat a + unat b < 2 ^ LENGTH('a) then Some (a + b) else None)"

definition checked_mul :: "'a::len word \<Rightarrow> 'a word \<Rightarrow> 'a word option" where
  "checked_mul a b = (if unat a * unat b < 2 ^ LENGTH('a) then Some (a * b) else None)"

definition checked_sub :: "'a::len word \<Rightarrow> 'a word \<Rightarrow> 'a word option" where
  "checked_sub a b = (if b \<le> a then Some (a - b) else None)"

definition saturating_add :: "'a::len word \<Rightarrow> 'a word \<Rightarrow> 'a word" where
  "saturating_add a b = (case checked_add a b of Some c \<Rightarrow> c | None \<Rightarrow> - 1)"

definition saturating_mul :: "'a::len word \<Rightarrow> 'a word \<Rightarrow> 'a word" where
  "saturating_mul a b = (case checked_mul a b of Some c \<Rightarrow> c | None \<Rightarrow> - 1)"

lemma unat_minus_one_max: "unat (- 1 :: 'a::len word) = 2 ^ LENGTH('a) - 1"
  by (simp add: unsigned_minus_1_eq_mask mask_eq_exp_minus_1)

lemma unat_add_small:
  "unat a + unat b < 2 ^ LENGTH('a) \<Longrightarrow> unat (a + b) = unat a + unat (b :: 'a::len word)"
  by (simp add: unat_word_ariths)

lemma unat_mult_small:
  "unat a * unat b < 2 ^ LENGTH('a) \<Longrightarrow> unat (a * b) = unat a * unat (b :: 'a::len word)"
  by (simp add: unat_word_ariths)

lemma unat_of_nat_small: "n < 2 ^ LENGTH('a) \<Longrightarrow> unat (of_nat n :: 'a::len word) = n"
  by (simp add: unsigned_of_nat take_bit_nat_eq_self_iff)

lemma checked_add_Some: "checked_add a b = Some c \<Longrightarrow> unat c = unat a + unat b"
  by (auto simp: checked_add_def unat_add_small split: if_splits)

lemma checked_mul_Some: "checked_mul a b = Some c \<Longrightarrow> unat c = unat a * unat b"
  by (auto simp: checked_mul_def unat_mult_small split: if_splits)

lemma checked_sub_Some: "checked_sub a b = Some c \<Longrightarrow> unat c = unat a - unat b"
  by (auto simp: checked_sub_def unat_sub split: if_splits)

lemma unat_saturating_add:
  "unat (saturating_add a b) = min (unat a + unat b) (2 ^ LENGTH('a) - 1)"
  for a b :: "'a::len word"
  by (auto simp: saturating_add_def checked_add_def unat_minus_one_max unat_add_small)

lemma unat_saturating_mul:
  "unat (saturating_mul a b) = min (unat a * unat b) (2 ^ LENGTH('a) - 1)"
  for a b :: "'a::len word"
  by (auto simp: saturating_mul_def checked_mul_def unat_minus_one_max unat_mult_small)

section \<open>Little endian bytes\<close>

definition u16_to_le_bytes :: "u16 \<Rightarrow> u8 \<times> u8" where
  "u16_to_le_bytes n = (ucast n, ucast (drop_bit 8 n))"

definition u32_to_le_bytes :: "u32 \<Rightarrow> u8 \<times> u8 \<times> u8 \<times> u8" where
  "u32_to_le_bytes n = (ucast n, ucast (drop_bit 8 n), ucast (drop_bit 16 n), ucast (drop_bit 24 n))"

definition u16_from_le_bytes :: "u8 \<times> u8 \<Rightarrow> u16" where
  "u16_from_le_bytes = (\<lambda>(a, b). ucast a OR push_bit 8 (ucast b))"

definition u32_from_le_bytes :: "u8 \<times> u8 \<times> u8 \<times> u8 \<Rightarrow> u32" where
  "u32_from_le_bytes = (\<lambda>(a, b, c, d). ucast a OR push_bit 8 (ucast b)
      OR push_bit 16 (ucast c) OR push_bit 24 (ucast d))"

lemma bit_past_u8: "8 \<le> n \<Longrightarrow> \<not> bit (a :: u8) n"
  by (auto dest: bit_imp_le_length)

lemma u16_from_to_le_bytes [simp]: "u16_from_le_bytes (u16_to_le_bytes n) = n"
  by (rule bit_word_eqI)
    (auto simp: u16_from_le_bytes_def u16_to_le_bytes_def bit_simps not_less not_le)

lemma u16_to_from_le_bytes [simp]: "u16_to_le_bytes (u16_from_le_bytes p) = p"
  by (cases p)
    (auto simp: u16_from_le_bytes_def u16_to_le_bytes_def bit_simps bit_past_u8
      intro!: bit_word_eqI)

lemma u32_from_to_le_bytes [simp]: "u32_from_le_bytes (u32_to_le_bytes n) = n"
proof (rule bit_word_eqI)
  fix i
  assume "i < LENGTH(32)"
  then consider "i < 8" | "8 \<le> i \<and> i < 16" | "16 \<le> i \<and> i < 24" | "24 \<le> i \<and> i < 32"
    by fastforce
  then show "bit (u32_from_le_bytes (u32_to_le_bytes n)) i = bit n i"
    by cases (auto simp: u32_from_le_bytes_def u32_to_le_bytes_def bit_simps bit_past_u8)
qed

lemma u32_to_from_le_bytes [simp]: "u32_to_le_bytes (u32_from_le_bytes p) = p"
  by (cases p)
    (auto simp: u32_from_le_bytes_def u32_to_le_bytes_def bit_simps bit_past_u8
      intro!: bit_word_eqI)

section \<open>Durations\<close>

text \<open>
  \<open>std::time::Duration\<close>: seconds and nanoseconds, the latter always below one
  thousand million (\<open>dur_ok\<close>); every constructor of the standard library keeps that.
\<close>

datatype duration = Duration (as_secs: u64) (subsec_nanos: u32)

definition nanos_per_sec :: nat where
  "nanos_per_sec = 1000000000"

definition dur_ok :: "duration \<Rightarrow> bool" where
  "dur_ok d \<longleftrightarrow> unat (subsec_nanos d) < nanos_per_sec"

text \<open>The length a duration stands for, in nanoseconds.\<close>

definition dur_ns :: "duration \<Rightarrow> nat" where
  "dur_ns d = unat (as_secs d) * nanos_per_sec + unat (subsec_nanos d)"

text \<open>\<open>Duration::new\<close>, with the panic on overflow of the seconds as \<open>None\<close>.\<close>

definition dur_new :: "u64 \<Rightarrow> u32 \<Rightarrow> duration option" where
  "dur_new secs nanos =
     map_option (\<lambda>s. Duration s (nanos mod 1000000000))
       (checked_add secs (ucast (nanos div 1000000000)))"

definition subsec_micros :: "duration \<Rightarrow> u32" where
  "subsec_micros d = subsec_nanos d div 1000"

text \<open>\<open>Duration::checked_sub\<close>, which the subtraction operator unwraps.\<close>

definition dur_sub :: "duration \<Rightarrow> duration \<Rightarrow> duration option" where
  "dur_sub d e =
     (case checked_sub (as_secs d) (as_secs e) of
        None \<Rightarrow> None
      | Some secs \<Rightarrow>
          if subsec_nanos e \<le> subsec_nanos d
          then Some (Duration secs (subsec_nanos d - subsec_nanos e))
          else (case checked_sub secs 1 of
                  None \<Rightarrow> None
                | Some secs' \<Rightarrow>
                    Some (Duration secs' (subsec_nanos d + 1000000000 - subsec_nanos e))))"

text \<open>The derived ordering: seconds first, then nanoseconds.\<close>

instantiation duration :: linorder
begin

definition less_eq_duration :: "duration \<Rightarrow> duration \<Rightarrow> bool" where
  "d \<le> e \<longleftrightarrow> as_secs d < as_secs e
     \<or> as_secs d = as_secs e \<and> subsec_nanos d \<le> subsec_nanos e"

definition less_duration :: "duration \<Rightarrow> duration \<Rightarrow> bool" where
  "d < e \<longleftrightarrow> as_secs d < as_secs e
     \<or> as_secs d = as_secs e \<and> subsec_nanos d < subsec_nanos e"

instance
proof
  fix x y z :: duration
  show "(x < y) = (x \<le> y \<and> \<not> y \<le> x)"
    by (auto simp: less_duration_def less_eq_duration_def)
  show "x \<le> x"
    by (simp add: less_eq_duration_def)
  show "x \<le> y \<Longrightarrow> y \<le> z \<Longrightarrow> x \<le> z"
    by (auto simp: less_eq_duration_def)
  show "x \<le> y \<Longrightarrow> y \<le> x \<Longrightarrow> x = y"
    by (cases x; cases y) (auto simp: less_eq_duration_def)
  show "x \<le> y \<or> y \<le> x"
    by (auto simp: less_eq_duration_def)
qed

end

lemma dur_le_ns: "dur_ok d \<Longrightarrow> dur_ok e \<Longrightarrow> d \<le> e \<longleftrightarrow> dur_ns d \<le> dur_ns e"
  by (auto simp: less_eq_duration_def dur_ns_def dur_ok_def nanos_per_sec_def
      word_le_nat_alt word_less_nat_alt word_unat_eq_iff)

lemma dur_less_ns: "dur_ok d \<Longrightarrow> dur_ok e \<Longrightarrow> d < e \<longleftrightarrow> dur_ns d < dur_ns e"
  by (simp add: dur_le_ns not_le [symmetric])

lemma dur_ns_zero: "dur_ns d = 0 \<longleftrightarrow> as_secs d = 0 \<and> subsec_nanos d = 0"
  by (simp add: dur_ns_def nanos_per_sec_def unat_eq_0)

lemma dur_ns_inj: "dur_ok d \<Longrightarrow> dur_ok e \<Longrightarrow> dur_ns d = dur_ns e \<Longrightarrow> d = e"
  by (rule order.antisym) (simp_all add: dur_le_ns)

lemma dur_sub_ns:
  assumes "dur_ok d" and "dur_ok e" and "e \<le> d"
  obtains r where "dur_sub d e = Some r" and "dur_ok r" and "dur_ns r = dur_ns d - dur_ns e"
proof (cases "subsec_nanos e \<le> subsec_nanos d")
  case True
  with assms(3) have "as_secs e \<le> as_secs d"
    by (auto simp: less_eq_duration_def)
  with True assms that show thesis
    by (simp add: dur_sub_def checked_sub_def dur_ok_def dur_ns_def nanos_per_sec_def
        unat_sub word_le_nat_alt diff_mult_distrib)
next
  case False
  with assms(3) have s: "as_secs e < as_secs d"
    by (auto simp: less_eq_duration_def)
  then have one: "1 \<le> as_secs d - as_secs e" and u: "unat (as_secs e) < unat (as_secs d)"
    by (auto simp: word_le_nat_alt word_less_nat_alt unat_sub)
  have n: "unat (subsec_nanos d + 1000000000 - subsec_nanos e)
      = unat (subsec_nanos d) + 1000000000 - unat (subsec_nanos e)"
    using assms(1,2)
    by (simp add: dur_ok_def nanos_per_sec_def unat_sub word_le_nat_alt unat_add_small)
  have "unat (as_secs d - as_secs e - 1) = unat (as_secs d) - unat (as_secs e) - 1"
    using one s by (simp add: unat_sub order.strict_implies_order)
  moreover obtain k where "unat (as_secs d) = Suc (unat (as_secs e) + k)"
    using u by (auto dest: less_imp_Suc_add)
  ultimately show thesis
    using that False s one n assms(1,2)
    by (simp add: dur_sub_def checked_sub_def dur_ok_def dur_ns_def nanos_per_sec_def
        word_le_nat_alt algebra_simps)
qed

lemma dur_new_ok: "dur_new s n = Some d \<Longrightarrow> dur_ok d"
  by (auto simp: dur_new_def dur_ok_def nanos_per_sec_def unat_mod)

lemma dur_new_small: "unat n < nanos_per_sec \<Longrightarrow> dur_new s n = Some (Duration s n)"
proof -
  assume "unat n < nanos_per_sec"
  then have "n < 1000000000"
    by (simp add: word_less_nat_alt nanos_per_sec_def)
  then have "n div 1000000000 = 0" and "n mod 1000000000 = n"
    by (simp_all add: word_div_no word_arith_nat_div word_arith_nat_mod word_less_nat_alt)
  then show ?thesis
    using unsigned_less [of s] by (simp add: dur_new_def checked_add_def)
qed

text \<open>\<open>std::net::Shutdown\<close>.\<close>

datatype shutdown_how = Shutdown_Read | Shutdown_Write | Shutdown_Both

section \<open>Slices\<close>

text \<open>\<open>len\<close> of a slice of bytes, a \<open>usize\<close>.\<close>

definition buf_len :: "u8 list \<Rightarrow> usize" where
  "buf_len buf = of_nat (length buf)"

end
