(* ===== verification/Bt_Addr.thy ===== *)
theory Bt_Addr
  imports Rust_Std "HOL-Library.List_Lexorder"
begin

text \<open>
  Bluetooth addresses and protocols (\<open>src/bt/mod.rs\<close>): the address type with its
  derived ordering, the constructor from the two halves \<open>nap\<close> and \<open>sap\<close> of a device
  address, and the two textual forms. A parser for the textual form, which the program
  does not have, is the specification the printer is checked against.
\<close>

section \<open>Addresses\<close>

text \<open>The array type \<open>[u8; 6]\<close>.\<close>

datatype bytes6 = Bytes6 u8 u8 u8 u8 u8 u8

datatype bt_addr = BtAddr bytes6

datatype bt_protocol = L2CAP | RFCOMM

fun array_list :: "bytes6 \<Rightarrow> u8 list" where
  "array_list (Bytes6 a b c d e f) = [a, b, c, d, e, f]"

fun octets :: "bt_addr \<Rightarrow> u8 list" where
  "octets (BtAddr x) = array_list x"

definition nap_sap :: "u16 \<Rightarrow> u32 \<Rightarrow> bt_addr" where
  "nap_sap nap sap =
     (let (n0, n1) = u16_to_le_bytes nap;
          (s0, s1, s2, s3) = u32_to_le_bytes sap
      in BtAddr (Bytes6 s0 s1 s2 s3 n0 n1))"

lemma array_list_inj [simp]: "array_list x = array_list y \<longleftrightarrow> x = y"
  by (cases x; cases y) simp

lemma octets_inj [simp]: "octets a = octets b \<longleftrightarrow> a = b"
  by (cases a; cases b) simp

lemma length_array_list [simp]: "length (array_list x) = 6"
  by (cases x) simp

lemma length_octets [simp]: "length (octets a) = 6"
  by (cases a) simp

text \<open>
  The derived ordering compares the arrays lexicographically, from the first byte on: the
  first byte is the least significant one of the device address, so this is neither the order
  of the addresses as numbers nor that of their texts. \<open>Ord::cmp\<close> of the slices is
  \<open>bytes_cmp\<close>.
\<close>

datatype ordering = Less | Equal | Greater

fun bytes_cmp :: "u8 list \<Rightarrow> u8 list \<Rightarrow> ordering" where
  "bytes_cmp [] [] = Equal"
| "bytes_cmp [] (y # ys) = Less"
| "bytes_cmp (x # xs) [] = Greater"
| "bytes_cmp (x # xs) (y # ys) =
     (if x < y then Less else if y < x then Greater else bytes_cmp xs ys)"

definition addr_cmp :: "bt_addr \<Rightarrow> bt_addr \<Rightarrow> ordering" where
  "addr_cmp a b = bytes_cmp (octets a) (octets b)"

lemma bytes_cmp_list_order:
  "bytes_cmp xs ys = (if xs < ys then Less else if ys < xs then Greater else Equal)"
  by (induction xs ys rule: bytes_cmp.induct) auto

lemma addr_cmp_list_order:
  "addr_cmp a b = Less \<longleftrightarrow> octets a < octets b"
  "addr_cmp a b = Greater \<longleftrightarrow> octets b < octets a"
  "addr_cmp a b = Equal \<longleftrightarrow> a = b"
  by (auto simp: addr_cmp_def bytes_cmp_list_order)

lemma addr_cmp_not_greater: "addr_cmp a b \<noteq> Greater \<longleftrightarrow> octets a \<le> octets b"
  by (simp add: addr_cmp_list_order not_less)

instantiation bt_addr :: linorder
begin

definition less_eq_bt_addr :: "bt_addr \<Rightarrow> bt_addr \<Rightarrow> bool" where
  "a \<le> b \<longleftrightarrow> addr_cmp a b \<noteq> Greater"

definition less_bt_addr :: "bt_addr \<Rightarrow> bt_addr \<Rightarrow> bool" where
  "a < b \<longleftrightarrow> addr_cmp a b = Less"

instance
  by standard (auto simp: less_eq_bt_addr_def less_bt_addr_def addr_cmp_not_greater addr_cmp_list_order(1)
      not_le)

end

text \<open>
  The other derived traits, as the compiler derives them for a wrapped array: \<open>==\<close> compares the
  elements, \<open>partial_cmp\<close> goes through the partial order of the elements and stops at the first
  pair that is not equal, and \<open>hash\<close> feeds the length and then the bytes to the hasher, whose
  calls are the result here.
\<close>

definition addr_eq :: "bt_addr \<Rightarrow> bt_addr \<Rightarrow> bool" where
  "addr_eq a b \<longleftrightarrow> list_all2 (=) (octets a) (octets b)"

definition byte_partial_cmp :: "u8 \<Rightarrow> u8 \<Rightarrow> ordering option" where
  "byte_partial_cmp x y = Some (if x < y then Less else if x = y then Equal else Greater)"

fun bytes_partial_cmp :: "u8 list \<Rightarrow> u8 list \<Rightarrow> ordering option" where
  "bytes_partial_cmp [] [] = Some Equal"
| "bytes_partial_cmp [] (y # ys) = Some Less"
| "bytes_partial_cmp (x # xs) [] = Some Greater"
| "bytes_partial_cmp (x # xs) (y # ys) =
     (case byte_partial_cmp x y of
        Some Equal \<Rightarrow> bytes_partial_cmp xs ys
      | non_eq \<Rightarrow> non_eq)"

definition addr_partial_cmp :: "bt_addr \<Rightarrow> bt_addr \<Rightarrow> ordering option" where
  "addr_partial_cmp a b = bytes_partial_cmp (octets a) (octets b)"

datatype hasher_call = Write_Length nat | Write_Bytes "u8 list"

definition addr_hash :: "bt_addr \<Rightarrow> hasher_call list" where
  "addr_hash a = [Write_Length (length (octets a)), Write_Bytes (octets a)]"

fun reverse_ordering :: "ordering \<Rightarrow> ordering" where
  "reverse_ordering Less = Greater"
| "reverse_ordering Equal = Equal"
| "reverse_ordering Greater = Less"

lemma bytes_partial_cmp_total: "bytes_partial_cmp xs ys = Some (bytes_cmp xs ys)"
  by (induction xs ys rule: bytes_partial_cmp.induct) (auto simp: byte_partial_cmp_def)

lemma bytes_cmp_reverse: "bytes_cmp ys xs = reverse_ordering (bytes_cmp xs ys)"
  by (auto simp: bytes_cmp_list_order)

lemma bytes_cmp_trans: "bytes_cmp xs ys = r \<Longrightarrow> bytes_cmp ys zs = r \<Longrightarrow> bytes_cmp xs zs = r"
  by (auto simp: bytes_cmp_list_order split: if_splits)

text \<open>
  The derived traits of an address agree, as the traits' documentation demands: \<open>cmp\<close> is a
  total order (antisymmetric and transitive, for each of its answers), \<open>partial_cmp\<close> always
  gives its answer, \<open>Equal\<close> is \<open>==\<close>, and equal addresses, and only those, feed the same bytes to
  a hasher.
\<close>

theorem addr_traits:
  "addr_partial_cmp a b = Some (addr_cmp a b)
   \<and> (addr_eq a b \<longleftrightarrow> addr_cmp a b = Equal)
   \<and> addr_cmp b a = reverse_ordering (addr_cmp a b)
   \<and> (addr_cmp a b = r \<and> addr_cmp b c = r \<longrightarrow> addr_cmp a c = r)
   \<and> (addr_hash a = addr_hash b \<longleftrightarrow> addr_eq a b)"
proof -
  have eq: "addr_eq a b \<longleftrightarrow> a = b"
    by (simp add: addr_eq_def list.rel_eq)
  moreover have "addr_cmp b a = reverse_ordering (addr_cmp a b)"
    unfolding addr_cmp_def by (rule bytes_cmp_reverse)
  moreover have "addr_cmp a b = r \<and> addr_cmp b c = r \<longrightarrow> addr_cmp a c = r"
    unfolding addr_cmp_def by (blast intro: bytes_cmp_trans)
  ultimately show ?thesis
    using addr_cmp_list_order(3) [of a b]
    by (simp add: addr_partial_cmp_def bytes_partial_cmp_total addr_hash_def) (simp add: addr_cmp_def)
qed

text \<open>Two addresses and a third between them, in the order of the first bytes.\<close>

theorem addr_traits_witness:
  "addr_cmp (BtAddr (Bytes6 1 9 0 0 0 0)) (BtAddr (Bytes6 3 0 0 0 0 0)) = Less"
  using addr_traits [of "BtAddr (Bytes6 1 9 0 0 0 0)" "BtAddr (Bytes6 2 0 0 0 0 7)" Less
      "BtAddr (Bytes6 3 0 0 0 0 0)"]
  by (simp add: addr_cmp_def)

section \<open>The two halves of an address\<close>

text \<open>
  The upper and the lower part of an address as the little endian integers at bytes
  4, 5 and 0 to 3.
\<close>

fun addr_nap :: "bt_addr \<Rightarrow> u16" where
  "addr_nap (BtAddr (Bytes6 s0 s1 s2 s3 n0 n1)) = u16_from_le_bytes (n0, n1)"

fun addr_sap :: "bt_addr \<Rightarrow> u32" where
  "addr_sap (BtAddr (Bytes6 s0 s1 s2 s3 n0 n1)) = u32_from_le_bytes (s0, s1, s2, s3)"

lemma addr_nap_nap_sap [simp]: "addr_nap (nap_sap n s) = n"
  using u16_from_to_le_bytes [of n]
  by (auto simp: nap_sap_def u16_to_le_bytes_def u32_to_le_bytes_def)

lemma addr_sap_nap_sap [simp]: "addr_sap (nap_sap n s) = s"
  using u32_from_to_le_bytes [of s]
  by (auto simp: nap_sap_def u16_to_le_bytes_def u32_to_le_bytes_def)

lemma nap_sap_parts [simp]: "nap_sap (addr_nap a) (addr_sap a) = a"
  by (cases a rule: addr_nap.cases) (simp add: nap_sap_def)

section \<open>Text\<close>

text \<open>The digits of the format \<open>{:02x}\<close>.\<close>

definition hex_digit :: "nat \<Rightarrow> char" where
  "hex_digit n = ''0123456789abcdef'' ! n"

definition hex2 :: "u8 \<Rightarrow> string" where
  "hex2 b = [hex_digit (unat b div 16), hex_digit (unat b mod 16)]"

fun display_fmt :: "bt_addr \<Rightarrow> string" where
  "display_fmt (BtAddr (Bytes6 b0 b1 b2 b3 b4 b5)) =
     hex2 b5 @ '':'' @ hex2 b4 @ '':'' @ hex2 b3 @ '':'' @ hex2 b2 @ '':'' @ hex2 b1
       @ '':'' @ hex2 b0"

fun debug_fmt :: "bt_addr \<Rightarrow> string" where
  "debug_fmt (BtAddr (Bytes6 b0 b1 b2 b3 b4 b5)) =
     ''BtAddr('' @ hex2 b5 @ '':'' @ hex2 b4 @ '':'' @ hex2 b3 @ '':'' @ hex2 b2 @ '':''
       @ hex2 b1 @ '':'' @ hex2 b0 @ '')''"

text \<open>
  The specification: reading the text back. \<open>hex_value\<close> reads every hexadecimal digit
  of a text as one number and skips the rest.
\<close>

definition unhex :: "char \<Rightarrow> nat option" where
  "unhex c = (let k = of_char c :: nat in
     if 48 \<le> k \<and> k \<le> 57 then Some (k - 48)
     else if 97 \<le> k \<and> k \<le> 102 then Some (k - 87) else None)"

fun hex_value_from :: "nat \<Rightarrow> string \<Rightarrow> nat" where
  "hex_value_from acc [] = acc"
| "hex_value_from acc (c # cs) =
     (case unhex c of None \<Rightarrow> hex_value_from acc cs
      | Some d \<Rightarrow> hex_value_from (16 * acc + d) cs)"

definition hex_value :: "string \<Rightarrow> nat" where
  "hex_value cs = hex_value_from 0 cs"

fun parse_octet :: "string \<Rightarrow> u8 option" where
  "parse_octet [c, d] =
     (case (unhex c, unhex d) of
        (Some x, Some y) \<Rightarrow> Some (of_nat (16 * x + y))
      | _ \<Rightarrow> None)"
| "parse_octet _ = None"

fun parse_octets :: "string \<Rightarrow> u8 list option" where
  "parse_octets [c, d] = map_option (\<lambda>b. [b]) (parse_octet [c, d])"
| "parse_octets (c # d # s # cs) =
     (if s = CHR '':'' then
        case (parse_octet [c, d], parse_octets cs) of
          (Some b, Some bs) \<Rightarrow> Some (b # bs)
        | _ \<Rightarrow> None
      else None)"
| "parse_octets _ = None"

definition parse_addr :: "string \<Rightarrow> bt_addr option" where
  "parse_addr cs =
     (case parse_octets cs of
        Some [b5, b4, b3, b2, b1, b0] \<Rightarrow> Some (BtAddr (Bytes6 b0 b1 b2 b3 b4 b5))
      | _ \<Rightarrow> None)"

lemma unhex_hex_digit [simp]: "n < 16 \<Longrightarrow> unhex (hex_digit n) = Some n"
proof -
  assume "n < 16"
  moreover have "\<forall>k\<in>set [0..<16]. unhex (hex_digit k) = Some k"
    by code_simp
  ultimately show ?thesis by simp
qed

lemma unhex_colon [simp]: "unhex CHR '':'' = None"
  by (simp add: unhex_def)

lemma unat_u8_less: "unat (b :: u8) < 256"
  using unsigned_less [of b] by simp

lemma unat_u16_less: "unat (w :: u16) < 65536"
  using unsigned_less [of w] by simp

lemma unat_u32_less: "unat (w :: u32) < 4294967296"
  using unsigned_less [of w] by simp

lemma octet_split [simp]: "unat (b :: u8) div 16 < 16"
  using unat_u8_less [of b] by simp

lemma octet_join [simp]: "16 * (n div 16) + n mod 16 = (n :: nat)"
  by simp

lemma parse_octet_hex2 [simp]: "parse_octet [hex_digit (unat b div 16), hex_digit (unat b mod 16)] = Some b"
  by simp

lemma hex_value_from_hex2 [simp]:
  "hex_value_from acc (hex2 b @ cs) = hex_value_from (256 * acc + unat b) cs"
proof -
  have "16 * (16 * acc + unat b div 16) + unat b mod 16 = 256 * acc + unat b"
    by (simp only: add_mult_distrib2 add.assoc octet_join)
  then show ?thesis
    by (simp add: hex2_def add.commute)
qed

lemma hex_value_from_colon [simp]: "hex_value_from acc (CHR '':'' # cs) = hex_value_from acc cs"
  by simp

lemma hex_value_from_hex2_last [simp]: "hex_value_from acc (hex2 b) = 256 * acc + unat b"
  using hex_value_from_hex2 [of acc b "[]"] by simp

lemma unat_octet:
  "unat (ucast w :: u8) = unat w mod 256"
  "unat (drop_bit k w) = unat w div 2 ^ k" for w :: "'a::len word"
  by (simp_all add: unsigned_ucast_eq take_bit_eq_mod unat_drop_bit_eq
      drop_bit_eq_div [of k "unat w"])

lemma join_octets: "256 * (n div 256 mod 256) + n mod 256 = n mod 65536" for n :: nat
  using mod_mult2_eq [of n 256 256] by simp

lemma join_u16: "n < 65536 \<Longrightarrow> 256 * (n div 256 mod 256) + n mod 256 = n" for n :: nat
  by (subst join_octets) simp

lemma join_u32:
  assumes "n < 4294967296"
  shows "256 * (256 * (256 * (n div 16777216 mod 256) + n div 65536 mod 256)
     + n div 256 mod 256) + n mod 256 = (n :: nat)"
proof -
  have "n div 65536 < 65536" and "n div 16777216 = n div 65536 div 256"
    using assms by (simp_all flip: div_mult2_eq)
  then have "256 * (n div 16777216 mod 256) + n div 65536 mod 256 = n div 65536"
    by (simp only: join_u16)
  then have "256 * (256 * (256 * (n div 16777216 mod 256) + n div 65536 mod 256)
     + n div 256 mod 256) + n mod 256 = 65536 * (n div 65536)
     + (256 * (n div 256 mod 256) + n mod 256)"
    by (simp only: add_mult_distrib2 mult.assoc [symmetric])
  then show ?thesis
    by (simp only: join_octets mult_div_mod_eq)
qed

lemma length_display_fmt: "length (display_fmt a) = 17"
  by (cases a rule: display_fmt.cases) (simp add: hex2_def)

lemma debug_display: "debug_fmt a = ''BtAddr('' @ display_fmt a @ '')''"
  by (cases a rule: display_fmt.cases) simp

text \<open>
  C33. Printing is faithful: the text of an address, six octets in hexadecimal from the
  most significant (the last of the array) to the least, read back gives exactly the
  address that was printed.
\<close>

theorem display_parse_roundtrip: "parse_addr (display_fmt a) = Some a"
  by (cases a rule: display_fmt.cases) (simp add: parse_addr_def hex2_def)

text \<open>
  The text is the device address as a number: the digits printed for the address
  built from \<open>nap\<close> and \<open>sap\<close>, read in order, are the number with \<open>nap\<close> in the upper
  sixteen and \<open>sap\<close> in the lower thirty-two bits.
\<close>

theorem display_nap_sap_value:
  "hex_value (display_fmt (nap_sap nap sap)) = unat nap * 2 ^ 32 + unat sap"
proof -
  have "hex_value (display_fmt (nap_sap nap sap)) =
      4294967296 * (256 * (unat nap div 256 mod 256) + unat nap mod 256)
      + (256 * (256 * (256 * (unat sap div 16777216 mod 256) + unat sap div 65536 mod 256)
          + unat sap div 256 mod 256) + unat sap mod 256)"
    by (simp add: nap_sap_def hex_value_def u16_to_le_bytes_def u32_to_le_bytes_def unat_octet)
  also have "\<dots> = 4294967296 * unat nap + unat sap"
    by (simp only: join_u16 [OF unat_u16_less] join_u32 [OF unat_u32_less])
  finally show ?thesis by simp
qed

end
