(* ===== verification/Unix_Sys.thy ===== *)
theory Unix_Sys
  imports Bt_Addr
begin

text \<open>
  The ground the Unix backend stands on (\<open>src/sys/unix/mod.rs\<close>): the compilation target
  the \<open>cfg!\<close> tests ask for, the C library as a parameter (a record of its constants
  and calls over an abstract world), and \<open>cvt\<close> and \<open>cvt_r\<close>, which turn the C
  convention of a result of minus one into a result of \<open>std::io\<close>.

  Nothing is assumed here about the C library: what a property relies on is a hypothesis
  of that property.
\<close>

section \<open>The compilation target\<close>

datatype target_os =
    Linux | Android | DragonFly | FreeBSD | OpenBSD | NetBSD | Haiku | Bitrig | MacOS | IOS
  | Emscripten | Solaris | Fuchsia | L4re | WindowsOS

text \<open>
  Beside the operating system: whether the environment is newlib, and whether the build
  checks integer arithmetic for overflow (a debug build panics, a release build wraps).
\<close>

record target =
  os :: target_os
  newlib :: bool
  overflow_checks :: bool

definition is_windows :: "target \<Rightarrow> bool" where
  "is_windows tgt \<longleftrightarrow> os tgt = WindowsOS"

definition is_apple :: "target \<Rightarrow> bool" where
  "is_apple tgt \<longleftrightarrow> os tgt \<in> {MacOS, IOS}"

section \<open>The C library\<close>

text \<open>The error codes named by the source and by the table of error kinds.\<close>

record errno_codes =
  EINTR :: c_int
  EINVAL :: c_int
  ENOSYS :: c_int
  EINPROGRESS :: c_int
  ECONNREFUSED :: c_int
  ECONNRESET :: c_int
  EPERM :: c_int
  EACCES :: c_int
  EPIPE :: c_int
  ENOTCONN :: c_int
  ECONNABORTED :: c_int
  EADDRNOTAVAIL :: c_int
  EADDRINUSE :: c_int
  ENOENT :: c_int
  ETIMEDOUT :: c_int
  EEXIST :: c_int
  EAGAIN :: c_int
  EWOULDBLOCK :: c_int

text \<open>
  The table \<open>decode_error_kind\<close> of the standard library for Unix. The codes are
  distinct, so the order of the tests does not matter.
\<close>

definition decode_error_kind :: "errno_codes \<Rightarrow> c_int \<Rightarrow> error_kind" where
  "decode_error_kind E c =
     (if c = EINTR E then Interrupted
      else if c = ECONNREFUSED E then ConnectionRefused
      else if c = ECONNRESET E then ConnectionReset
      else if c = EPERM E \<or> c = EACCES E then PermissionDenied
      else if c = EPIPE E then BrokenPipe
      else if c = ENOTCONN E then NotConnected
      else if c = ECONNABORTED E then ConnectionAborted
      else if c = EADDRNOTAVAIL E then AddrNotAvailable
      else if c = EADDRINUSE E then AddrInUse
      else if c = ENOENT E then NotFound
      else if c = EINVAL E then InvalidInput
      else if c = ETIMEDOUT E then TimedOut
      else if c = EEXIST E then AlreadyExists
      else if c = EAGAIN E \<or> c = EWOULDBLOCK E then WouldBlock
      else Other)"

record libc_consts =
  codes :: errno_codes
  AF_BLUETOOTH :: c_int
  SOCK_STREAM :: c_int
  SOCK_CLOEXEC :: c_int
  BTPROTO_L2CAP :: c_int
  BTPROTO_RFCOMM :: c_int
  SOL_SOCKET :: c_int
  SO_NOSIGPIPE :: c_int
  SO_REUSEADDR :: c_int
  SO_ERROR :: c_int
  SO_RCVTIMEO :: c_int
  SO_SNDTIMEO :: c_int
  FIOCLEX :: c_ulong
  FIONBIO :: c_ulong
  F_GETFD :: c_int
  F_SETFD :: c_int
  F_GETFL :: c_int
  F_SETFL :: c_int
  F_DUPFD :: c_int
  F_DUPFD_CLOEXEC :: c_int
  FD_CLOEXEC :: c_int
  O_NONBLOCK :: c_int
  POLLOUT :: c_short
  POLLHUP :: c_short
  MSG_PEEK :: c_int
  MSG_NOSIGNAL :: c_int
  SHUT_RD :: c_int
  SHUT_WR :: c_int
  SHUT_RDWR :: c_int
  IREQ_CACHE_FLUSH :: "64 word"

text \<open>The structures passed to the C library, with the fields the source uses.\<close>

record sockaddr_rc =
  rc_family :: u16
  rc_bdaddr :: bytes6
  rc_channel :: u8

record pollfd =
  pfd :: c_int
  events :: c_short
  revents :: c_short

datatype timeval = Timeval (tv_sec: "64 word") (tv_usec: "64 word")

record inquiry_info =
  bdaddr :: bytes6

text \<open>
  The calls. A call takes its arguments and the world, and gives its return value, what
  it wrote through the pointers it was given, and the new world. Memory passed as a
  socket address is a list of bytes; \<open>rc_bytes\<close> and \<open>rc_of_bytes\<close> are the memory
  layout of \<open>sockaddr_rc\<close>, the two sizes those of \<open>sockaddr_rc\<close> and of
  \<open>sockaddr_storage\<close>.
\<close>

record 'w libc =
  K :: libc_consts
  size_rc :: "32 word"
  size_storage :: "32 word"
  rc_bytes :: "sockaddr_rc \<Rightarrow> u8 list"
  rc_of_bytes :: "u8 list \<Rightarrow> sockaddr_rc"
  errno :: "'w \<Rightarrow> c_int"
  c_socket :: "c_int \<Rightarrow> c_int \<Rightarrow> c_int \<Rightarrow> ('w, c_int) call"
  c_close :: "c_int \<Rightarrow> ('w, c_int) call"
  c_accept4 :: "c_int \<Rightarrow> u8 list \<Rightarrow> 32 word \<Rightarrow> c_int \<Rightarrow> ('w, c_int \<times> u8 list \<times> 32 word) call"
  c_accept :: "c_int \<Rightarrow> u8 list \<Rightarrow> 32 word \<Rightarrow> ('w, c_int \<times> u8 list \<times> 32 word) call"
  c_connect :: "c_int \<Rightarrow> u8 list \<Rightarrow> 32 word \<Rightarrow> ('w, c_int) call"
  c_bind :: "c_int \<Rightarrow> u8 list \<Rightarrow> 32 word \<Rightarrow> ('w, c_int) call"
  c_listen :: "c_int \<Rightarrow> c_int \<Rightarrow> ('w, c_int) call"
  c_poll :: "pollfd \<Rightarrow> c_ulong \<Rightarrow> c_int \<Rightarrow> ('w, c_int \<times> pollfd) call"
  c_recv :: "c_int \<Rightarrow> u8 list \<Rightarrow> usize \<Rightarrow> c_int \<Rightarrow> ('w, ssize_t \<times> u8 list) call"
  c_recvfrom :: "c_int \<Rightarrow> u8 list \<Rightarrow> usize \<Rightarrow> c_int \<Rightarrow> u8 list \<Rightarrow> 32 word \<Rightarrow>
    ('w, ssize_t \<times> u8 list \<times> u8 list \<times> 32 word) call"
  c_send :: "c_int \<Rightarrow> u8 list \<Rightarrow> usize \<Rightarrow> c_int \<Rightarrow> ('w, ssize_t) call"
  c_sendto :: "c_int \<Rightarrow> u8 list \<Rightarrow> usize \<Rightarrow> c_int \<Rightarrow> u8 list \<Rightarrow> 32 word \<Rightarrow> ('w, ssize_t) call"
  c_shutdown :: "c_int \<Rightarrow> c_int \<Rightarrow> ('w, c_int) call"
  c_ioctl :: "c_int \<Rightarrow> c_ulong \<Rightarrow> ('w, c_int) call"
  c_ioctl_int :: "c_int \<Rightarrow> c_ulong \<Rightarrow> c_int \<Rightarrow> ('w, c_int) call"
  c_fcntl :: "c_int \<Rightarrow> c_int \<Rightarrow> ('w, c_int) call"
  c_fcntl_int :: "c_int \<Rightarrow> c_int \<Rightarrow> c_int \<Rightarrow> ('w, c_int) call"
  c_read :: "c_int \<Rightarrow> u8 list \<Rightarrow> usize \<Rightarrow> ('w, ssize_t \<times> u8 list) call"
  c_write :: "c_int \<Rightarrow> u8 list \<Rightarrow> usize \<Rightarrow> ('w, ssize_t) call"
  c_pread64 :: "c_int \<Rightarrow> u8 list \<Rightarrow> usize \<Rightarrow> 64 word \<Rightarrow> ('w, ssize_t \<times> u8 list) call"
  c_pwrite64 :: "c_int \<Rightarrow> u8 list \<Rightarrow> usize \<Rightarrow> 64 word \<Rightarrow> ('w, ssize_t) call"
  c_setsockopt_int :: "c_int \<Rightarrow> c_int \<Rightarrow> c_int \<Rightarrow> c_int \<Rightarrow> 32 word \<Rightarrow> ('w, c_int) call"
  c_setsockopt_timeval :: "c_int \<Rightarrow> c_int \<Rightarrow> c_int \<Rightarrow> timeval \<Rightarrow> 32 word \<Rightarrow> ('w, c_int) call"
  c_getsockopt_int :: "c_int \<Rightarrow> c_int \<Rightarrow> c_int \<Rightarrow> c_int \<Rightarrow> 32 word \<Rightarrow>
    ('w, c_int \<times> c_int \<times> 32 word) call"
  c_getsockopt_timeval :: "c_int \<Rightarrow> c_int \<Rightarrow> c_int \<Rightarrow> timeval \<Rightarrow> 32 word \<Rightarrow>
    ('w, c_int \<times> timeval \<times> 32 word) call"
  c_getsockname :: "c_int \<Rightarrow> u8 list \<Rightarrow> 32 word \<Rightarrow> ('w, c_int \<times> u8 list \<times> 32 word) call"
  c_getpeername :: "c_int \<Rightarrow> u8 list \<Rightarrow> 32 word \<Rightarrow> ('w, c_int \<times> u8 list \<times> 32 word) call"
  clock_now :: "('w, duration) call"
  hci_get_route :: "('w, c_int) call"
  hci_open_dev :: "c_int \<Rightarrow> ('w, c_int) call"
  hci_inquiry :: "c_int \<Rightarrow> c_int \<Rightarrow> c_int \<Rightarrow> inquiry_info list \<Rightarrow> 64 word \<Rightarrow>
    ('w, c_int \<times> inquiry_info list) call"
  hci_close_dev :: "c_int \<Rightarrow> ('w, c_int) call"

text \<open>\<open>io::Error::last_os_error()\<close>.\<close>

definition last_os_error :: "'w libc \<Rightarrow> 'w \<Rightarrow> io_error" where
  "last_os_error lc w = Os (errno lc w)"

abbreviation kind_of :: "'w libc \<Rightarrow> io_error \<Rightarrow> error_kind" where
  "kind_of lc \<equiv> io_kind (decode_error_kind (codes (K lc)))"

section \<open>The result convention\<close>

definition is_minus_one :: "'i::len word \<Rightarrow> bool" where
  "is_minus_one t \<longleftrightarrow> t = - 1"

text \<open>
  \<open>cvt\<close> reads the error code off the state it is called in; \<open>le\<close> is
  \<open>last_os_error\<close>, possibly on a world extended by local variables.
\<close>

definition cvt :: "('s \<Rightarrow> io_error) \<Rightarrow> 'i::len word \<Rightarrow> ('s, 'i word) io" where
  "cvt le t = (if is_minus_one t then io_bind (io_get le) io_err else io_ret t)"

text \<open>\<open>cvt_r\<close>: the call is repeated while it is interrupted by a signal.\<close>

partial_function (option) cvt_r ::
    "(io_error \<Rightarrow> error_kind) \<Rightarrow> ('s \<Rightarrow> io_error) \<Rightarrow> ('s, 'i::len word) call \<Rightarrow> ('s, 'i word) io" where
  "cvt_r kind le f s =
     (case cvt le (fst (f s)) (snd (f s)) of
        None \<Rightarrow> None
      | Some (r, s') \<Rightarrow>
          (case r of
             Err e \<Rightarrow> if kind e = Interrupted then cvt_r kind le f s' else Some (Err e, s')
           | _ \<Rightarrow> Some (r, s')))"

declare cvt_r.simps [code]

text \<open>A call wrapped in \<open>cvt\<close>, the form almost every call of the backend has.\<close>

definition cvt_call :: "'w libc \<Rightarrow> ('w, 'i::len word) call \<Rightarrow> ('w, 'i word) io" where
  "cvt_call lc c = io_bind (io_call c) (cvt (last_os_error lc))"

lemma wp_cvt [io_wp]:
  "wp t (cvt le x) Q s = (if x = - 1 then Q (Err (le s)) s else Q (Ok x) s)"
  by (simp add: cvt_def is_minus_one_def io_wp)

lemma wp_cvt_call [io_wp]:
  "wp t (cvt_call lc c) Q s =
     (if fst (c s) = - 1 then Q (Err (last_os_error lc (snd (c s)))) (snd (c s))
      else Q (Ok (fst (c s))) (snd (c s)))"
  by (simp add: cvt_call_def io_wp)

section \<open>Retrying\<close>

text \<open>
  The attempt made in state \<open>s\<close> is interrupted; \<open>after f n s\<close> is the state before the
  attempt number \<open>n\<close> (counted from 0).
\<close>

definition interrupted :: "(io_error \<Rightarrow> error_kind) \<Rightarrow> ('s \<Rightarrow> io_error) \<Rightarrow>
    ('s, 'i::len word) call \<Rightarrow> 's \<Rightarrow> bool" where
  "interrupted kind le f s \<longleftrightarrow> fst (f s) = - 1 \<and> kind (le (snd (f s))) = Interrupted"

primrec after :: "('s, 'a) call \<Rightarrow> nat \<Rightarrow> 's \<Rightarrow> 's" where
  "after f 0 s = s"
| "after f (Suc n) s = after f n (snd (f s))"

lemma after_step: "after f (Suc n) s = snd (f (after f n s))"
  by (induction n arbitrary: s) simp_all

lemma cvt_r_unfold:
  "cvt_r kind le f s =
     (if interrupted kind le f s then cvt_r kind le f (snd (f s))
      else cvt le (fst (f s)) (snd (f s)))"
  by (subst cvt_r.simps)
    (simp add: cvt_def is_minus_one_def interrupted_def io_defs)

lemma cvt_r_after:
  "(\<And>i. i < n \<Longrightarrow> interrupted kind le f (after f i s)) \<Longrightarrow>
     cvt_r kind le f s = cvt_r kind le f (after f n s)"
proof (induction n arbitrary: s)
  case 0
  then show ?case by simp
next
  case (Suc n)
  from Suc.prems [of 0] have "cvt_r kind le f s = cvt_r kind le f (snd (f s))"
    by (subst cvt_r_unfold) simp
  also have "\<dots> = cvt_r kind le f (after f n (snd (f s)))"
  proof (rule Suc.IH)
    fix i assume "i < n"
    with Suc.prems [of "Suc i"] show "interrupted kind le f (after f i (snd (f s)))"
      by simp
  qed
  finally show ?case by simp
qed

lemma cvt_r_reaches:
  assumes "cvt_r kind le f s = Some (r, s')"
  shows "\<exists>n. (\<forall>i<n. interrupted kind le f (after f i s))
    \<and> \<not> interrupted kind le f (after f n s)"
proof (rule cvt_r.raw_induct [where P = "\<lambda>kind le f s r. \<exists>n.
    (\<forall>i<n. interrupted kind le f (after f i s)) \<and> \<not> interrupted kind le f (after f n s)",
    OF _ assms], goal_cases)
  case (1 rec kind le f s r)
  show ?case
  proof (cases "interrupted kind le f s")
    case True
    with 1(2) have "rec kind le f (snd (f s)) = Some r"
      by (simp add: cvt_def is_minus_one_def interrupted_def io_defs)
    then obtain n where n: "\<forall>i<n. interrupted kind le f (after f i (snd (f s)))"
      "\<not> interrupted kind le f (after f n (snd (f s)))"
      using 1(1) by blast
    with True have "\<forall>i<Suc n. interrupted kind le f (after f i s)"
      by (auto simp: less_Suc_eq_0_disj)
    with n(2) show ?thesis
      by (intro exI [of _ "Suc n"]) simp
  next
    case False
    then show ?thesis
      by (intro exI [of _ 0]) simp
  qed
qed

text \<open>An invariant of the attempts carries through the loop.\<close>

lemma wp_cvt_r:
  assumes "I s"
    and "\<And>s. I s \<Longrightarrow> interrupted kind le f s \<Longrightarrow> I (snd (f s))"
    and "\<And>s. I s \<Longrightarrow> \<not> interrupted kind le f s \<Longrightarrow> wp True (cvt le (fst (f s))) Q (snd (f s))"
  shows "wp True (cvt_r kind le f) Q s"
proof (rule wpI)
  fix r s'
  assume ret: "cvt_r kind le f s = Some (r, s')"
  from cvt_r_reaches [OF ret] obtain n where n: "\<forall>i<n. interrupted kind le f (after f i s)"
    "\<not> interrupted kind le f (after f n s)"
    by blast
  have "I (after f i s)" if "\<forall>j<i. interrupted kind le f (after f j s)" for i
    using that
  proof (induction i)
    case 0
    show ?case using assms(1) by simp
  next
    case (Suc i)
    then have "I (after f i s)" and "interrupted kind le f (after f i s)"
      by simp_all
    then show ?case
      unfolding after_step by (rule assms(2))
  qed
  then have "wp True (cvt le (fst (f (after f n s)))) Q (snd (f (after f n s)))"
    using n assms(3) by blast
  moreover
  have "cvt_r kind le f s = cvt_r kind le f (after f n s)"
    using n(1) by (intro cvt_r_after) blast
  then have "cvt le (fst (f (after f n s))) (snd (f (after f n s))) = Some (r, s')"
    using n(2) ret by (simp add: cvt_r_unfold [of kind le f "after f n s"])
  ultimately show "Q r s'"
    by (rule wpD)
qed

text \<open>
  C23. The retry loop, in full: if some attempt is not interrupted, the loop returns what
  \<open>cvt\<close> makes of the first such attempt, having made exactly the attempts before it;
  if every attempt is interrupted it does not return.
\<close>

theorem cvt_r_spec:
  "cvt_r kind le f s =
     (if \<exists>n. \<not> interrupted kind le f (after f n s)
      then let n = (LEAST n. \<not> interrupted kind le f (after f n s))
           in cvt le (fst (f (after f n s))) (snd (f (after f n s)))
      else None)"
proof (cases "\<exists>n. \<not> interrupted kind le f (after f n s)")
  case True
  define n where "n = (LEAST n. \<not> interrupted kind le f (after f n s))"
  have "\<not> interrupted kind le f (after f n s)"
    unfolding n_def using True by (rule LeastI_ex)
  moreover have "interrupted kind le f (after f i s)" if "i < n" for i
    using not_less_Least that unfolding n_def by blast
  ultimately have "cvt_r kind le f s = cvt le (fst (f (after f n s))) (snd (f (after f n s)))"
    using cvt_r_after [of n kind le f s] by (simp add: cvt_r_unfold [of kind le f "after f n s"])
  with True show ?thesis by (simp add: n_def Let_def)
next
  case False
  then have "cvt_r kind le f s = None"
    using cvt_r_reaches [of kind le f s] by (cases "cvt_r kind le f s") auto
  with False show ?thesis by simp
qed

text \<open>No interruption is ever reported to the caller of the retry loop.\<close>

lemma wp_cvt_r_not_interrupted:
  "wp True (cvt_r kind le f)
     (\<lambda>r s'. case r of Err e \<Rightarrow> kind e \<noteq> Interrupted | _ \<Rightarrow> True) s"
  by (rule wp_cvt_r [where I = "\<lambda>_. True"]) (auto simp: io_wp interrupted_def)

end
