(* ===== verification/Ownership.thy ===== *)
theory Ownership
  imports Bt_Prelude
begin

text \<open>
  Ownership of operating system handles. Rust closes a handle when its owner goes out of
  scope; a function that creates handles must hand each of them to its caller inside a
  successful result or close it. \<open>acquires\<close> states that for one computation, and the
  lemmas say how it composes along the control flow of the source.
\<close>

text \<open>
  \<open>acquires op m own\<close>: where \<open>op\<close> gives the handles open in a state and \<open>own\<close> the
  handles a result owns, \<open>m\<close> opens exactly the handles its result owns (none of which
  was open before) when it succeeds, and leaves the open handles as they were when it
  fails or panics.
\<close>

definition acquires :: "('s \<Rightarrow> 'h set) \<Rightarrow> ('s, 'a) io \<Rightarrow> ('a \<Rightarrow> 'h set) \<Rightarrow> bool" where
  "acquires op m own \<longleftrightarrow> (\<forall>s. wp True m (\<lambda>r s'.
     case r of Ok a \<Rightarrow> own a \<inter> op s = {} \<and> op s' = own a \<union> op s | _ \<Rightarrow> op s' = op s) s)"

text \<open>A computation that neither opens nor closes a handle.\<close>

abbreviation leaves :: "('s \<Rightarrow> 'h set) \<Rightarrow> ('s, 'a) io \<Rightarrow> bool" where
  "leaves op m \<equiv> acquires op m (\<lambda>_. {})"

lemma acquiresI:
  "(\<And>s. wp True m (\<lambda>r s'. case r of Ok a \<Rightarrow> own a \<inter> op s = {} \<and> op s' = own a \<union> op s
      | _ \<Rightarrow> op s' = op s) s) \<Longrightarrow> acquires op m own"
  by (simp add: acquires_def)

lemma acquiresD:
  "acquires op m own \<Longrightarrow> wp True m (\<lambda>r s'. case r of Ok a \<Rightarrow> own a \<inter> op s = {}
      \<and> op s' = own a \<union> op s | _ \<Rightarrow> op s' = op s) s"
  by (simp add: acquires_def)

lemma acquires_run:
  assumes "acquires op m own" and "m s = Some (r, s')"
  shows "case r of Ok a \<Rightarrow> own a \<inter> op s = {} \<and> op s' = own a \<union> op s | _ \<Rightarrow> op s' = op s"
  using acquiresD [OF assms(1)] assms(2) by (rule wpD)

text \<open>What a computation leaves alone may be weakened to any property of the open set.\<close>

lemma wp_leaves:
  assumes "leaves op m" and "\<And>r s'. op s' = op s \<Longrightarrow> Q r s'"
  shows "wp True m Q s"
  by (rule wp_mono [OF acquiresD [OF assms(1)]]) (auto split: outcome.splits intro: assms(2))

lemma acquires_ret [intro]: "own a = {} \<Longrightarrow> acquires op (io_ret a) own"
  by (rule acquiresI) (simp add: io_wp)

lemma acquires_err [intro]: "acquires op (io_err e) own"
  by (rule acquiresI) (simp add: io_wp)

lemma acquires_panic [intro]: "acquires op io_panic own"
  by (rule acquiresI) (simp add: io_wp)

lemma leaves_get [intro]: "leaves op (io_get f)"
  by (rule acquiresI) (simp add: io_wp)

lemma leaves_call [intro]: "(\<And>s. op (snd (c s)) = op s) \<Longrightarrow> leaves op (io_call c)"
  by (rule acquiresI) (simp add: io_wp)

lemma leaves_modify [intro]: "(\<And>s. op (f s) = op s) \<Longrightarrow> leaves op (io_modify f)"
  by (rule acquiresI) (simp add: io_wp)

lemma acquires_match [intro]:
  assumes "leaves op m" and "\<And>a. acquires op (k a) own" and "\<And>e. acquires op (h e) own"
  shows "acquires op (io_match m k h) own"
proof (rule acquiresI, simp only: wp_match, rule wp_leaves [OF assms(1)])
  fix s s' r
  assume "op s' = op s"
  then show "case r of
      Ok a \<Rightarrow> wp True (k a) (\<lambda>r s'. case r of Ok a \<Rightarrow> own a \<inter> op s = {} \<and> op s' = own a \<union> op s
        | _ \<Rightarrow> op s' = op s) s'
    | Err e \<Rightarrow> wp True (h e) (\<lambda>r s'. case r of Ok a \<Rightarrow> own a \<inter> op s = {} \<and> op s' = own a \<union> op s
        | _ \<Rightarrow> op s' = op s) s'
    | Panic \<Rightarrow> (case Panic of Ok a \<Rightarrow> own a \<inter> op s = {} \<and> op s' = own a \<union> op s
        | _ \<Rightarrow> op s' = op s)"
    using acquiresD [OF assms(2), of _ s'] acquiresD [OF assms(3), of _ s']
    by (cases r) (simp_all cong: outcome.case_cong)
qed

lemma acquires_bind [intro]:
  assumes "leaves op m" and "\<And>a. acquires op (k a) own"
  shows "acquires op (io_bind m k) own"
  unfolding io_bind_def using assms by blast

text \<open>The same when the first computation acquires and the rest hands on what it got.\<close>

lemma acquires_map:
  assumes "acquires op m own'" and "\<And>a. own (f a) = own' a"
  shows "acquires op (io_map f m) own"
  using assms(1) by (simp add: acquires_def io_wp assms(2) cong: outcome.case_cong)

text \<open>
  \<open>transfers op m own S\<close>: the computation leaves the open handles alone and a result it
  succeeds with owns exactly the handles \<open>S\<close> the caller already holds.
\<close>

definition transfers :: "('s \<Rightarrow> 'h set) \<Rightarrow> ('s, 'a) io \<Rightarrow> ('a \<Rightarrow> 'h set) \<Rightarrow> 'h set \<Rightarrow> bool" where
  "transfers op m own S \<longleftrightarrow> (\<forall>s. wp True m (\<lambda>r s'.
     op s' = op s \<and> (case r of Ok a \<Rightarrow> own a = S | _ \<Rightarrow> True)) s)"

lemma transfers_ret [intro]: "own a = S \<Longrightarrow> transfers op (io_ret a) own S"
  by (simp add: transfers_def io_wp)

lemma transfers_err [intro]: "transfers op (io_err e) own S"
  by (simp add: transfers_def io_wp)

lemma transfers_bind [intro]:
  assumes "leaves op m" and "\<And>a. transfers op (k a) own S"
  shows "transfers op (io_bind m k) own S"
  unfolding transfers_def wp_bind
proof (intro allI, rule wp_leaves [OF assms(1)])
  fix s s' r
  assume "op s' = op s"
  moreover have "wp True (k a) (\<lambda>r s''. op s'' = op s' \<and> (case r of Ok a \<Rightarrow> own a = S | _ \<Rightarrow> True)) s'"
    for a using assms(2) by (simp add: transfers_def)
  ultimately show "case r of
      Ok a \<Rightarrow> wp True (k a) (\<lambda>r s'. op s' = op s \<and> (case r of Ok a \<Rightarrow> own a = S | _ \<Rightarrow> True)) s'
    | Err e \<Rightarrow> op s' = op s \<and> (case Err e of Ok a \<Rightarrow> own a = S | _ \<Rightarrow> True)
    | Panic \<Rightarrow> op s' = op s \<and> (case Panic of Ok a \<Rightarrow> own a = S | _ \<Rightarrow> True)"
    by (cases r) (simp_all cong: outcome.case_cong)
qed

lemma transfers_map:
  assumes "leaves op m" and "\<And>a. own (f a) = S"
  shows "transfers op (io_map f m) own S"
  unfolding io_map_def using assms by blast

text \<open>
  \<open>completes op m own S\<close>: the computation takes over the open handles \<open>S\<close>; it hands
  them on inside its result, or closes them when it fails or panics.
\<close>

definition completes :: "('s \<Rightarrow> 'h set) \<Rightarrow> ('s, 'a) io \<Rightarrow> ('a \<Rightarrow> 'h set) \<Rightarrow> 'h set \<Rightarrow> bool" where
  "completes op m own S \<longleftrightarrow> (\<forall>s. wp True m (\<lambda>r s'.
     case r of Ok a \<Rightarrow> own a = S \<and> op s' = op s | _ \<Rightarrow> op s' = op s - S) s)"

lemma completes_ret [intro]: "own a = S \<Longrightarrow> completes op (io_ret a) own S"
  by (simp add: completes_def io_wp)

lemma completes_with_drop [intro]:
  assumes "transfers op m own S" and "\<And>s. op (d s) = op s - S"
  shows "completes op (with_drop d m) own S"
  unfolding completes_def wp_with_drop
proof
  fix s
  have "wp True m (\<lambda>r s'. op s' = op s \<and> (case r of Ok a \<Rightarrow> own a = S | _ \<Rightarrow> True)) s"
    using assms(1) by (simp add: transfers_def)
  then show "wp True m (\<lambda>r s'. case r of
      Ok a \<Rightarrow> (case Ok a of Ok a \<Rightarrow> own a = S \<and> op s' = op s | _ \<Rightarrow> op s' = op s - S)
    | Err e \<Rightarrow> (case Err e of Ok a \<Rightarrow> own a = S \<and> op (d s') = op s | _ \<Rightarrow> op (d s') = op s - S)
    | Panic \<Rightarrow> (case Panic of Ok a \<Rightarrow> own a = S \<and> op (d s') = op s | _ \<Rightarrow> op (d s') = op s - S)) s"
    by (rule wp_mono) (auto simp: assms(2) split: outcome.splits)
qed

lemma completes_map:
  assumes "completes op m own' S" and "\<And>a. own (f a) = own' a"
  shows "completes op (io_map f m) own S"
  using assms(1) by (simp add: completes_def io_wp assms(2) cong: outcome.case_cong)

lemma acquires_match_owned:
  assumes "acquires op m (\<lambda>a. {h a})"
    and "\<And>a. completes op (k a) own {h a}"
    and "\<And>e. acquires op (g e) own"
  shows "acquires op (io_match m k g) own"
proof (rule acquiresI, simp only: wp_match, rule wp_mono [OF acquiresD [OF assms(1)]])
  fix s r s'
  assume r: "case r of Ok a \<Rightarrow> {h a} \<inter> op s = {} \<and> op s' = {h a} \<union> op s | _ \<Rightarrow> op s' = op s"
  let ?Q = "\<lambda>r s'. case r of Ok b \<Rightarrow> own b \<inter> op s = {} \<and> op s' = own b \<union> op s | _ \<Rightarrow> op s' = op s"
  show "case r of Ok a \<Rightarrow> wp True (k a) ?Q s' | Err e \<Rightarrow> wp True (g e) ?Q s' | Panic \<Rightarrow> ?Q Panic s'"
  proof (cases r)
    case (Ok a)
    have "wp True (k a) (\<lambda>r s''. case r of Ok b \<Rightarrow> own b = {h a} \<and> op s'' = op s'
        | _ \<Rightarrow> op s'' = op s' - {h a}) s'"
      using assms(2) by (simp add: completes_def)
    then have "wp True (k a) ?Q s'"
      by (rule wp_mono) (use r Ok in \<open>auto split: outcome.splits\<close>)
    with Ok show ?thesis by simp
  next
    case (Err e)
    with r acquiresD [OF assms(3), of e s'] show ?thesis
      by (simp cong: outcome.case_cong)
  qed (use r in simp)
qed

text \<open>
  The pattern of every constructor of the source: create a handle, run the rest with the
  handle owned by a local variable, return it inside the result.
\<close>

lemma acquires_bind_owned:
  assumes "acquires op m (\<lambda>a. {h a})" and "\<And>a. completes op (k a) own {h a}"
  shows "acquires op (io_bind m k) own"
  unfolding io_bind_def by (rule acquires_match_owned [OF assms]) (rule acquires_err)

lemma acquires_owned:
  assumes "acquires op m (\<lambda>a. {h a})"
    and "\<And>a. transfers op (k a) own {h a}"
    and "\<And>a s. op (d a s) = op s - {h a}"
  shows "acquires op (io_bind m (\<lambda>a. with_drop (d a) (k a))) own"
  by (rule acquires_bind_owned [OF assms(1)]) (rule completes_with_drop [OF assms(2,3)])

text \<open>Local variables and lifted computations.\<close>

lemma acquires_locals:
  assumes "acquires (\<lambda>s. op (fst s)) m own"
  shows "acquires op (io_locals l m) own"
proof (rule acquiresI)
  fix s
  show "wp True (io_locals l m) (\<lambda>r s'. case r of Ok a \<Rightarrow> own a \<inter> op s = {}
      \<and> op s' = own a \<union> op s | _ \<Rightarrow> op s' = op s) s"
    using acquiresD [OF assms, of "(s, l)"] by (simp add: wp_locals cong: outcome.case_cong)
qed

lemma acquires_on_world:
  assumes "acquires op m own"
  shows "acquires (\<lambda>s. op (fst s)) (on_world m) own"
  using assms by (simp add: acquires_def wp_on_world cong: outcome.case_cong)

lemma completes_on_world:
  assumes "completes op m own S"
  shows "completes (\<lambda>s. op (fst s)) (on_world m) own S"
  using assms by (simp add: completes_def wp_on_world cong: outcome.case_cong)

lemma transfers_on_world:
  assumes "transfers op m own S"
  shows "transfers (\<lambda>s. op (fst s)) (on_world m) own S"
  using assms by (simp add: transfers_def wp_on_world)

end
