(* ===== verification/Unix_Kernel.thy ===== *)
theory Unix_Kernel
  imports Unix_Sys Ownership
begin

text \<open>
  What POSIX and the Linux manual pages document about the calls of \<open>Unix_Sys\<close>, as
  predicates over a view of the kernel: the descriptors open in the process, those with
  the close-on-exec flag, and the sockets in non-blocking mode. They are the hypotheses
  of the resource properties of the Unix backend; nothing else is assumed about the
  kernel.
\<close>

section \<open>A view of the kernel\<close>

record 'w kview =
  opened :: "'w \<Rightarrow> c_int set"
  cloexec :: "'w \<Rightarrow> c_int set"
  nonblock :: "'w \<Rightarrow> c_int set"

text \<open>A call that opens, closes and flags nothing.\<close>

definition neutral :: "'w kview \<Rightarrow> ('w, 'a) call \<Rightarrow> bool" where
  "neutral V c \<longleftrightarrow> (\<forall>w. opened V (snd (c w)) = opened V w
     \<and> cloexec V (snd (c w)) = cloexec V w \<and> nonblock V (snd (c w)) = nonblock V w)"

text \<open>
  A call that opens the descriptor it returns, unless it fails with minus one. The new
  descriptor was not open, it has the close-on-exec flag if that was asked for, and the
  flags of the other descriptors stay.
\<close>

definition opened_by :: "'w kview \<Rightarrow> bool \<Rightarrow> c_int \<Rightarrow> 'w \<Rightarrow> 'w \<Rightarrow> bool" where
  "opened_by V ce fd w w' \<longleftrightarrow>
     (if fd = - 1
      then opened V w' = opened V w \<and> cloexec V w' = cloexec V w \<and> nonblock V w' = nonblock V w
      else fd \<notin> opened V w \<and> opened V w' = insert fd (opened V w)
        \<and> cloexec V w' = (if ce then insert fd (cloexec V w) else cloexec V w - {fd})
        \<and> nonblock V w' = nonblock V w - {fd})"

definition opens :: "'w kview \<Rightarrow> bool \<Rightarrow> ('w, 'a) call \<Rightarrow> ('a \<Rightarrow> c_int) \<Rightarrow> bool" where
  "opens V ce c ret \<longleftrightarrow> (\<forall>w. opened_by V ce (ret (fst (c w))) w (snd (c w)))"

text \<open>A call that sets or clears one flag of a descriptor, unless it fails.\<close>

definition flags :: "('w \<Rightarrow> c_int set) \<Rightarrow> bool \<Rightarrow> c_int \<Rightarrow> ('w, c_int) call \<Rightarrow> bool" where
  "flags view on fd c \<longleftrightarrow> (\<forall>w.
     view (snd (c w)) =
       (if fst (c w) = - 1 then view w
        else if on then insert fd (view w) else view w - {fd}))"

definition keeps :: "('w \<Rightarrow> 'b) \<Rightarrow> ('w, 'a) call \<Rightarrow> bool" where
  "keeps view c \<longleftrightarrow> (\<forall>w. view (snd (c w)) = view w)"

section \<open>The documented behaviour\<close>

text \<open>
  \<open>socket(2)\<close>, \<open>accept(2)\<close>, \<open>accept4(2)\<close>: a new descriptor with the lowest number not
  open, close-on-exec exactly if \<open>SOCK_CLOEXEC\<close> is among the flags.
\<close>

definition socket_laws :: "'w libc \<Rightarrow> 'w kview \<Rightarrow> bool" where
  "socket_laws lc V \<longleftrightarrow>
     (\<forall>af ty p. opens V (ty AND SOCK_CLOEXEC (K lc) \<noteq> 0) (c_socket lc af ty p) id)
   \<and> (\<forall>fd b n fl. opens V (fl AND SOCK_CLOEXEC (K lc) \<noteq> 0) (c_accept4 lc fd b n fl) fst)
   \<and> (\<forall>fd b n. opens V False (c_accept lc fd b n) fst)
   \<and> SOCK_STREAM (K lc) AND SOCK_CLOEXEC (K lc) = 0
   \<and> SOCK_CLOEXEC (K lc) \<noteq> 0"

text \<open>\<open>close(2)\<close>: the descriptor is not open afterwards, whatever is returned.\<close>

definition close_laws :: "'w libc \<Rightarrow> 'w kview \<Rightarrow> bool" where
  "close_laws lc V \<longleftrightarrow> (\<forall>fd w.
     opened V (snd (c_close lc fd w)) = opened V w - {fd}
   \<and> cloexec V (snd (c_close lc fd w)) - {fd} = cloexec V w - {fd}
   \<and> nonblock V (snd (c_close lc fd w)) - {fd} = nonblock V w - {fd})"

text \<open>
  \<open>fcntl(2)\<close>, \<open>ioctl(2)\<close>: duplication opens a descriptor, \<open>FIOCLEX\<close> and
  \<open>F_SETFD\<close> change the close-on-exec flag, \<open>FIONBIO\<close> and \<open>F_SETFL\<close> the blocking
  mode, the two queries return the flags.
\<close>

definition fcntl_laws :: "'w libc \<Rightarrow> 'w kview \<Rightarrow> bool" where
  "fcntl_laws lc V \<longleftrightarrow>
     (\<forall>fd a. opens V False (c_fcntl_int lc fd (F_DUPFD (K lc)) a) id)
   \<and> (\<forall>fd a. opens V True (c_fcntl_int lc fd (F_DUPFD_CLOEXEC (K lc)) a) id)
   \<and> (\<forall>fd. keeps (opened V) (c_ioctl lc fd (FIOCLEX (K lc)))
        \<and> flags (cloexec V) True fd (c_ioctl lc fd (FIOCLEX (K lc)))
        \<and> keeps (nonblock V) (c_ioctl lc fd (FIOCLEX (K lc))))
   \<and> (\<forall>fd v. keeps (opened V) (c_ioctl_int lc fd (FIONBIO (K lc)) v)
        \<and> flags (nonblock V) (v \<noteq> 0) fd (c_ioctl_int lc fd (FIONBIO (K lc)) v)
        \<and> keeps (cloexec V) (c_ioctl_int lc fd (FIONBIO (K lc)) v))
   \<and> (\<forall>fd v. keeps (opened V) (c_fcntl_int lc fd (F_SETFD (K lc)) v)
        \<and> flags (cloexec V) (v AND FD_CLOEXEC (K lc) \<noteq> 0) fd (c_fcntl_int lc fd (F_SETFD (K lc)) v)
        \<and> keeps (nonblock V) (c_fcntl_int lc fd (F_SETFD (K lc)) v))
   \<and> (\<forall>fd v. keeps (opened V) (c_fcntl_int lc fd (F_SETFL (K lc)) v)
        \<and> flags (nonblock V) (v AND O_NONBLOCK (K lc) \<noteq> 0) fd (c_fcntl_int lc fd (F_SETFL (K lc)) v)
        \<and> keeps (cloexec V) (c_fcntl_int lc fd (F_SETFL (K lc)) v))
   \<and> (\<forall>fd. neutral V (c_fcntl lc fd (F_GETFD (K lc))))
   \<and> (\<forall>fd. neutral V (c_fcntl lc fd (F_GETFL (K lc))))
   \<and> (\<forall>fd w. let r = fst (c_fcntl lc fd (F_GETFD (K lc)) w) in
        r = - 1 \<or> (r AND FD_CLOEXEC (K lc) \<noteq> 0 \<longleftrightarrow> fd \<in> cloexec V w))
   \<and> (\<forall>fd w. let r = fst (c_fcntl lc fd (F_GETFL (K lc)) w) in
        r = - 1 \<or> (r AND O_NONBLOCK (K lc) \<noteq> 0 \<longleftrightarrow> fd \<in> nonblock V w))
   \<and> FD_CLOEXEC (K lc) \<noteq> 0 \<and> O_NONBLOCK (K lc) \<noteq> 0"

text \<open>The other calls leave the descriptor table alone.\<close>

definition neutral_laws :: "'w libc \<Rightarrow> 'w kview \<Rightarrow> bool" where
  "neutral_laws lc V \<longleftrightarrow>
     (\<forall>fd a n. neutral V (c_connect lc fd a n)) \<and> (\<forall>fd a n. neutral V (c_bind lc fd a n))
   \<and> (\<forall>fd n. neutral V (c_listen lc fd n)) \<and> (\<forall>p n ms. neutral V (c_poll lc p n ms))
   \<and> (\<forall>fd l o' v n. neutral V (c_setsockopt_int lc fd l o' v n))
   \<and> (\<forall>fd l o' v n. neutral V (c_setsockopt_timeval lc fd l o' v n))
   \<and> (\<forall>fd l o' v n. neutral V (c_getsockopt_int lc fd l o' v n))
   \<and> (\<forall>fd l o' v n. neutral V (c_getsockopt_timeval lc fd l o' v n))
   \<and> neutral V (clock_now lc) \<and> neutral V (hci_get_route lc)
   \<and> (\<forall>d t n l fl. neutral V (hci_inquiry lc d t n l fl))"

definition data_laws :: "'w libc \<Rightarrow> 'w kview \<Rightarrow> bool" where
  "data_laws lc V \<longleftrightarrow>
     (\<forall>fd b n fl. neutral V (c_recv lc fd b n fl))
   \<and> (\<forall>fd b n fl a an. neutral V (c_recvfrom lc fd b n fl a an))
   \<and> (\<forall>fd b n fl. neutral V (c_send lc fd b n fl))
   \<and> (\<forall>fd b n fl a an. neutral V (c_sendto lc fd b n fl a an))
   \<and> (\<forall>fd how. neutral V (c_shutdown lc fd how))
   \<and> (\<forall>fd b n. neutral V (c_read lc fd b n)) \<and> (\<forall>fd b n. neutral V (c_write lc fd b n))
   \<and> (\<forall>fd a n. neutral V (c_getsockname lc fd a n)) \<and> (\<forall>fd a n. neutral V (c_getpeername lc fd a n))"

text \<open>
  \<open>hci_open_dev\<close> opens a raw socket to the adapter, with \<open>SOCK_CLOEXEC\<close>;
  \<open>hci_close_dev\<close> closes it.
\<close>

definition hci_laws :: "'w libc \<Rightarrow> 'w kview \<Rightarrow> bool" where
  "hci_laws lc V \<longleftrightarrow>
     (\<forall>d. opens V True (hci_open_dev lc d) id)
   \<and> (\<forall>fd w. opened V (snd (hci_close_dev lc fd w)) = opened V w - {fd})"

definition kernel_ok :: "'w libc \<Rightarrow> 'w kview \<Rightarrow> bool" where
  "kernel_ok lc V \<longleftrightarrow> socket_laws lc V \<and> close_laws lc V \<and> fcntl_laws lc V
     \<and> neutral_laws lc V \<and> hci_laws lc V \<and> data_laws lc V"

section \<open>The laws as rewrite rules\<close>

named_theorems kernel \<open>the documented behaviour of each call, under kernel_ok\<close>

lemma neutral_views:
  assumes "neutral V c"
  shows "opened V (snd (c w)) = opened V w" and "cloexec V (snd (c w)) = cloexec V w"
    and "nonblock V (snd (c w)) = nonblock V w"
  using assms by (simp_all add: neutral_def)

lemma keeps_view: "keeps view c \<Longrightarrow> view (snd (c w)) = view w"
  by (simp add: keeps_def)

lemma flags_view:
  "flags view on fd c \<Longrightarrow> view (snd (c w)) =
     (if fst (c w) = - 1 then view w else if on then insert fd (view w) else view w - {fd})"
  by (simp add: flags_def)

lemma opens_views:
  assumes "opens V ce c ret"
  shows "opened V (snd (c w)) =
      (if ret (fst (c w)) = - 1 then opened V w else insert (ret (fst (c w))) (opened V w))"
    and "cloexec V (snd (c w)) =
      (if ret (fst (c w)) = - 1 then cloexec V w
       else if ce then insert (ret (fst (c w))) (cloexec V w)
       else cloexec V w - {ret (fst (c w))})"
    and "nonblock V (snd (c w)) =
      (if ret (fst (c w)) = - 1 then nonblock V w else nonblock V w - {ret (fst (c w))})"
  using assms [unfolded opens_def, rule_format, of w]
  by (simp_all add: opened_by_def split: if_splits)

lemma opens_fresh: "opens V ce c ret \<Longrightarrow> ret (fst (c w)) \<noteq> - 1 \<Longrightarrow> ret (fst (c w)) \<notin> opened V w"
  by (auto simp: opens_def opened_by_def split: if_splits)

lemma kernel_okD:
  assumes "kernel_ok lc V"
  shows "socket_laws lc V" and "close_laws lc V" and "fcntl_laws lc V" and "neutral_laws lc V"
    and "hci_laws lc V" and "data_laws lc V"
  using assms by (simp_all add: kernel_ok_def)

lemma kernel_opens:
  assumes "kernel_ok lc V"
  shows "opens V (ty AND SOCK_CLOEXEC (K lc) \<noteq> 0) (c_socket lc af ty p) id"
    and "opens V (fl AND SOCK_CLOEXEC (K lc) \<noteq> 0) (c_accept4 lc fd b n fl) fst"
    and "opens V False (c_accept lc fd b n) fst"
    and "opens V False (c_fcntl_int lc fd (F_DUPFD (K lc)) a) id"
    and "opens V True (c_fcntl_int lc fd (F_DUPFD_CLOEXEC (K lc)) a) id"
    and "opens V True (hci_open_dev lc d) id"
  using kernel_okD [OF assms] by (simp_all add: socket_laws_def fcntl_laws_def hci_laws_def)

lemmas kernel_views [kernel] =
  opens_views [OF kernel_opens(1), simplified id_apply]
  opens_views [OF kernel_opens(2)]
  opens_views [OF kernel_opens(3)]
  opens_views [OF kernel_opens(4), simplified id_apply]
  opens_views [OF kernel_opens(5), simplified id_apply]
  opens_views [OF kernel_opens(6), simplified id_apply]

lemmas kernel_fresh [kernel] =
  opens_fresh [OF kernel_opens(1), simplified id_apply]
  opens_fresh [OF kernel_opens(2)]
  opens_fresh [OF kernel_opens(3)]
  opens_fresh [OF kernel_opens(4), simplified id_apply]
  opens_fresh [OF kernel_opens(5), simplified id_apply]
  opens_fresh [OF kernel_opens(6), simplified id_apply]

lemma kernel_close [kernel]:
  assumes "kernel_ok lc V"
  shows "opened V (snd (c_close lc fd w)) = opened V w - {fd}"
    and "opened V (snd (hci_close_dev lc fd w)) = opened V w - {fd}"
  using kernel_okD [OF assms] by (simp_all add: close_laws_def hci_laws_def)

lemma kernel_close_flags:
  assumes "kernel_ok lc V" and "x \<noteq> fd"
  shows "x \<in> cloexec V (snd (c_close lc fd w)) \<longleftrightarrow> x \<in> cloexec V w"
    and "x \<in> nonblock V (snd (c_close lc fd w)) \<longleftrightarrow> x \<in> nonblock V w"
  using kernel_okD(2) [OF assms(1)] assms(2) unfolding close_laws_def by blast+

lemma kernel_flags:
  assumes "kernel_ok lc V"
  shows "flags (cloexec V) True fd (c_ioctl lc fd (FIOCLEX (K lc)))"
    and "flags (nonblock V) (v \<noteq> 0) fd (c_ioctl_int lc fd (FIONBIO (K lc)) v)"
    and "flags (cloexec V) (v AND FD_CLOEXEC (K lc) \<noteq> 0) fd (c_fcntl_int lc fd (F_SETFD (K lc)) v)"
    and "flags (nonblock V) (v AND O_NONBLOCK (K lc) \<noteq> 0) fd (c_fcntl_int lc fd (F_SETFL (K lc)) v)"
  using kernel_okD(3) [OF assms] by (simp_all add: fcntl_laws_def)

lemma kernel_keeps:
  assumes "kernel_ok lc V"
  shows "keeps (opened V) (c_ioctl lc fd (FIOCLEX (K lc)))"
    and "keeps (nonblock V) (c_ioctl lc fd (FIOCLEX (K lc)))"
    and "keeps (opened V) (c_ioctl_int lc fd (FIONBIO (K lc)) v)"
    and "keeps (cloexec V) (c_ioctl_int lc fd (FIONBIO (K lc)) v)"
    and "keeps (opened V) (c_fcntl_int lc fd (F_SETFD (K lc)) v)"
    and "keeps (nonblock V) (c_fcntl_int lc fd (F_SETFD (K lc)) v)"
    and "keeps (opened V) (c_fcntl_int lc fd (F_SETFL (K lc)) v)"
    and "keeps (cloexec V) (c_fcntl_int lc fd (F_SETFL (K lc)) v)"
  using kernel_okD(3) [OF assms] by (simp_all add: fcntl_laws_def)

lemma kernel_neutral:
  assumes "kernel_ok lc V"
  shows "neutral V (c_fcntl lc fd (F_GETFD (K lc)))" "neutral V (c_fcntl lc fd (F_GETFL (K lc)))"
    "neutral V (c_connect lc fd b n)" "neutral V (c_bind lc fd b n)"
    "neutral V (c_listen lc fd i)" "neutral V (c_poll lc q m ms)"
    "neutral V (c_setsockopt_int lc fd l x i n)" "neutral V (c_setsockopt_timeval lc fd l x tv n)"
    "neutral V (c_getsockopt_int lc fd l x i n)" "neutral V (c_getsockopt_timeval lc fd l x tv n)"
    "neutral V (clock_now lc)" "neutral V (hci_get_route lc)"
    "neutral V (hci_inquiry lc d t' z il fl')"
  using kernel_okD(3,4) [OF assms] by (simp_all add: fcntl_laws_def neutral_laws_def)

lemma data_neutral:
  assumes "kernel_ok lc V"
  shows "neutral V (c_recv lc fd b m fl)" "neutral V (c_recvfrom lc fd b m fl a n)"
    "neutral V (c_send lc fd b m fl)" "neutral V (c_sendto lc fd b m fl a n)"
    "neutral V (c_shutdown lc fd fl)" "neutral V (c_read lc fd b m)" "neutral V (c_write lc fd b m)"
    "neutral V (c_getsockname lc fd b n)" "neutral V (c_getpeername lc fd b n)"
  using kernel_okD(6) [OF assms] by (simp_all add: data_laws_def)

lemmas data_neutral_views = data_neutral [THEN neutral_views(1)]

lemmas kernel_neutral_views [kernel] = kernel_neutral [THEN neutral_views(1)]
  kernel_neutral [THEN neutral_views(2)] kernel_neutral [THEN neutral_views(3)]

lemmas kernel_keeps_views [kernel] = kernel_keeps [THEN keeps_view]
lemmas kernel_flags_views [kernel] = kernel_flags [THEN flags_view]

section \<open>Ownership of single calls\<close>

lemma acquires_opens:
  "opens V ce c id \<Longrightarrow> acquires (opened V) (cvt_call lc c) (\<lambda>r. {r})"
  using opens_views(1) [of V ce c id] opens_fresh [of V ce c id]
  by (intro acquiresI) (simp add: io_wp)

lemma leaves_neutral: "neutral V c \<Longrightarrow> leaves (opened V) (cvt_call lc c)"
  by (rule acquiresI) (simp add: io_wp neutral_views)

lemma leaves_keeps: "keeps (opened V) c \<Longrightarrow> leaves (opened V) (cvt_call lc c)"
  using keeps_view [of "opened V" c] by (intro acquiresI) (simp add: io_wp)

end
