(* ===== verification/Connection.thy ===== *)
theory Connection
  imports Bt_Prelude
begin

text \<open>
  The progress of a connection attempt, as the documentation of the socket calls describes
  it, and what it means for a call to leave the attempt to proceed. Both backends state the
  documented behaviour of \<open>connect\<close> and of the waiting calls in these terms.
\<close>

text \<open>
  A socket has not been asked to connect, is connecting, is connected, or could not be
  connected.
\<close>

datatype connection = Idle | Underway | Established | Refused

text \<open>
  While a call runs, an attempt under way may come to its end; apart from that the call
  changes nothing.
\<close>

definition proceeds :: "('w \<Rightarrow> 'h \<Rightarrow> connection) \<Rightarrow> ('w, 'a) call \<Rightarrow> bool" where
  "proceeds conn c \<longleftrightarrow>
     (\<forall>w h. conn (snd (c w)) h \<noteq> conn w h \<longrightarrow> conn w h = Underway \<and> conn (snd (c w)) h \<noteq> Idle)"

lemma proceeds_established: "proceeds conn c \<Longrightarrow> conn w h = Established \<Longrightarrow> conn (snd (c w)) h = Established"
  unfolding proceeds_def by (metis connection.distinct(7))

lemma proceeds_started: "proceeds conn c \<Longrightarrow> conn w h \<noteq> Idle \<Longrightarrow> conn (snd (c w)) h \<noteq> Idle"
  unfolding proceeds_def by metis

lemma proceedsI: "(\<And>w. conn (snd (c w)) = conn w) \<Longrightarrow> proceeds conn c"
  by (simp add: proceeds_def)

end
