(* ===== verification/Unix_Sim.thy ===== *)
theory Unix_Sim
  imports Unix_Kernel Connection
begin

text \<open>
  A small executable kernel with the constants and the structure layout of 64-bit Linux.
  It models no part of the program: it is the concrete instance of the C library at which
  the hypotheses of the properties of the Unix backend are shown to hold, and the model is
  evaluated.

  Calls fail on demand: each call that may fail takes the next code of \<open>s_script\<close>, and
  fails with it unless the code is zero or the script is empty. The clock and the replies
  of \<open>poll\<close> are scripted the same way.
\<close>

section \<open>The state of the kernel\<close>

record sim =
  s_open :: "c_int list"
  s_ce :: "c_int list"
  s_nb :: "c_int list"
  s_errno :: c_int
  s_script :: "c_int list"
  s_clock :: "duration list"
  s_poll :: "(c_int \<times> c_short) list"
  s_sockerr :: c_int
  s_rcvtimeo :: timeval
  s_sndtimeo :: timeval
  s_local :: "u8 list"
  s_peer :: "u8 list"
  s_inbox :: "u8 list"
  s_sent :: "u8 list list"
  s_infos :: "inquiry_info list"
  s_conn :: connection
  s_caller :: sockaddr_rc

definition sim_init :: sim where
  "sim_init = \<lparr>s_open = [0, 1, 2], s_ce = [], s_nb = [], s_errno = 0, s_script = [], s_clock = [],
     s_poll = [], s_sockerr = 0, s_rcvtimeo = Timeval 0 0, s_sndtimeo = Timeval 0 0,
     s_local = [], s_peer = [], s_inbox = [], s_sent = [], s_infos = [], s_conn = Idle,
     s_caller = \<lparr>rc_family = 31, rc_bdaddr = Bytes6 1 2 3 4 5 6, rc_channel = 7\<rparr>\<rparr>"

definition sim_fails :: "'a \<Rightarrow> (sim, 'a) call \<Rightarrow> (sim, 'a) call" where
  "sim_fails bad c w =
     (case s_script w of
        [] \<Rightarrow> c w
      | e # es \<Rightarrow>
          if e = 0 then c (w\<lparr>s_script := es\<rparr>) else (bad, w\<lparr>s_script := es, s_errno := e\<rparr>))"

definition sim_fds :: "c_int list" where
  "sim_fds = map of_nat [3..<32]"

definition sim_alloc :: "bool \<Rightarrow> (sim, c_int) call" where
  "sim_alloc ce w =
     (case find (\<lambda>fd. fd \<notin> set (s_open w)) sim_fds of
        None \<Rightarrow> (- 1, w\<lparr>s_errno := 24\<rparr>)
      | Some fd \<Rightarrow> (fd, w\<lparr>s_open := fd # s_open w,
            s_ce := (if ce then List.insert fd (s_ce w) else removeAll fd (s_ce w)),
            s_nb := removeAll fd (s_nb w)\<rparr>))"

definition sim_flag :: "bool \<Rightarrow> c_int \<Rightarrow> c_int list \<Rightarrow> c_int list" where
  "sim_flag on fd xs = (if on then List.insert fd xs else removeAll fd xs)"

definition sim_ok :: "(sim \<Rightarrow> sim) \<Rightarrow> (sim, c_int) call" where
  "sim_ok f = sim_fails (- 1) (\<lambda>w. (0, f w))"

definition sim_rc_bytes :: "sockaddr_rc \<Rightarrow> u8 list" where
  "sim_rc_bytes r =
     (let (f0, f1) = u16_to_le_bytes (rc_family r)
      in [f0, f1] @ array_list (rc_bdaddr r) @ [rc_channel r, 0])"

definition sim_rc_of_bytes :: "u8 list \<Rightarrow> sockaddr_rc" where
  "sim_rc_of_bytes bs =
     (case bs of
        f0 # f1 # a # b # c # d # e # f # ch # _ \<Rightarrow>
          \<lparr>rc_family = u16_from_le_bytes (f0, f1), rc_bdaddr = Bytes6 a b c d e f, rc_channel = ch\<rparr>
      | _ \<Rightarrow> \<lparr>rc_family = 0, rc_bdaddr = Bytes6 0 0 0 0 0 0, rc_channel = 0\<rparr>)"

definition sim_name :: "u8 list \<Rightarrow> u8 list \<Rightarrow> u8 list" where
  "sim_name name buf = take (length buf) name @ drop (length name) buf"

definition sim_ioctl_int :: "c_int \<Rightarrow> c_ulong \<Rightarrow> c_int \<Rightarrow> (sim, c_int) call" where
  "sim_ioctl_int fd req v = sim_ok (\<lambda>w. w\<lparr>s_nb := sim_flag (v \<noteq> 0) fd (s_nb w)\<rparr>)"

definition sim_fcntl :: "c_int \<Rightarrow> c_int \<Rightarrow> (sim, c_int) call" where
  "sim_fcntl fd cmd = sim_fails (- 1) (\<lambda>w.
     (if cmd = 1 then of_bool (fd \<in> set (s_ce w)) else 2048 * of_bool (fd \<in> set (s_nb w)), w))"

definition sim_fcntl_int :: "c_int \<Rightarrow> c_int \<Rightarrow> c_int \<Rightarrow> (sim, c_int) call" where
  "sim_fcntl_int fd cmd v = sim_fails (- 1) (\<lambda>w.
     if cmd = 0 then sim_alloc False w
     else if cmd = 1030 then sim_alloc True w
     else if cmd = 2 then (0, w\<lparr>s_ce := sim_flag (v AND 1 \<noteq> 0) fd (s_ce w)\<rparr>)
     else (0, w\<lparr>s_nb := sim_flag (v AND 2048 \<noteq> 0) fd (s_nb w)\<rparr>))"

definition sim_clock :: "(sim, duration) call" where
  "sim_clock w =
     (case s_clock w of
        [] \<Rightarrow> (Duration 0 0, w)
      | [d] \<Rightarrow> (d, w)
      | d # ds \<Rightarrow> (d, w\<lparr>s_clock := ds\<rparr>))"

text \<open>
  A connection is made at once, or is under way when the script says \<open>EINPROGRESS\<close>; the
  first reply of \<open>poll\<close> with an event decides it.
\<close>

definition sim_connect :: "u8 list \<Rightarrow> (sim, c_int) call" where
  "sim_connect a w =
     (case sim_ok (\<lambda>w. w\<lparr>s_peer := a\<rparr>) w of
        (r, w') \<Rightarrow> (r, w'\<lparr>s_conn := (if r \<noteq> - 1 then Established
           else if s_errno w' = 115 then Underway else s_conn w')\<rparr>))"

definition sim_decides :: "c_short \<Rightarrow> connection \<Rightarrow> connection" where
  "sim_decides ev c = (if c = Underway then if ev AND 16 = 0 then Established else Refused else c)"

definition sim_do_poll :: "pollfd \<Rightarrow> (sim, c_int \<times> pollfd) call" where
  "sim_do_poll p w =
     (case s_poll w of
        [] \<Rightarrow> ((0, p), w)
      | (r, ev) # rs \<Rightarrow> ((r, p\<lparr>revents := (if s_conn w = Refused then ev OR 16 else ev)\<rparr>),
            w\<lparr>s_poll := rs, s_errno := (if r = - 1 then 4 else s_errno w),
              s_conn := (if r = 0 \<or> r = - 1 then s_conn w else sim_decides ev (s_conn w))\<rparr>))"

text \<open>Accepting takes the call of \<open>s_caller\<close>.\<close>

definition sim_accept :: "bool \<Rightarrow> u8 list \<Rightarrow> 32 word \<Rightarrow> (sim, c_int \<times> u8 list \<times> 32 word) call" where
  "sim_accept ce b n w =
     (let caller = sim_rc_bytes (s_caller w) in
      case sim_alloc ce w of (r, w') \<Rightarrow> ((r, sim_name caller b, n), w'\<lparr>s_peer := caller\<rparr>))"

definition sim_recv :: "u8 list \<Rightarrow> usize \<Rightarrow> bool \<Rightarrow> (sim, ssize_t \<times> u8 list) call" where
  "sim_recv buf n peek = sim_fails (- 1, buf) (\<lambda>w.
     let d = take (unat n) (s_inbox w) in
     ((of_nat (length d), d @ drop (length d) buf),
      if peek then w else w\<lparr>s_inbox := drop (length d) (s_inbox w)\<rparr>))"

definition sim_send :: "u8 list \<Rightarrow> usize \<Rightarrow> (sim, ssize_t) call" where
  "sim_send buf n = sim_fails (- 1) (\<lambda>w. (n, w\<lparr>s_sent := take (unat n) buf # s_sent w\<rparr>))"

section \<open>The instance of the C library\<close>

definition linux_codes :: errno_codes where
  "linux_codes = \<lparr>EINTR = 4, EINVAL = 22, ENOSYS = 38, EINPROGRESS = 115, ECONNREFUSED = 111,
     ECONNRESET = 104, EPERM = 1, EACCES = 13, EPIPE = 32, ENOTCONN = 107, ECONNABORTED = 103,
     EADDRNOTAVAIL = 99, EADDRINUSE = 98, ENOENT = 2, ETIMEDOUT = 110, EEXIST = 17, EAGAIN = 11,
     EWOULDBLOCK = 11\<rparr>"

definition linux_consts :: libc_consts where
  "linux_consts = \<lparr>codes = linux_codes, AF_BLUETOOTH = 31, SOCK_STREAM = 1, SOCK_CLOEXEC = 524288,
     BTPROTO_L2CAP = 0, BTPROTO_RFCOMM = 3, SOL_SOCKET = 1, SO_NOSIGPIPE = 0, SO_REUSEADDR = 2,
     SO_ERROR = 4, SO_RCVTIMEO = 20, SO_SNDTIMEO = 21, FIOCLEX = 21585, FIONBIO = 21537,
     F_GETFD = 1, F_SETFD = 2, F_GETFL = 3, F_SETFL = 4, F_DUPFD = 0, F_DUPFD_CLOEXEC = 1030,
     FD_CLOEXEC = 1, O_NONBLOCK = 2048, POLLOUT = 4, POLLHUP = 16, MSG_PEEK = 2,
     MSG_NOSIGNAL = 16384, SHUT_RD = 0, SHUT_WR = 1, SHUT_RDWR = 2, IREQ_CACHE_FLUSH = 1\<rparr>"

definition linux_target :: target where
  "linux_target = \<lparr>os = Linux, newlib = False, overflow_checks = True\<rparr>"

definition sim_libc :: "sim libc" where
  "sim_libc = \<lparr>K = linux_consts, size_rc = 10, size_storage = 128,
     rc_bytes = sim_rc_bytes, rc_of_bytes = sim_rc_of_bytes, errno = s_errno,
     c_socket = (\<lambda>dm ty p. sim_fails (- 1) (sim_alloc (ty AND 524288 \<noteq> 0))),
     c_close = (\<lambda>fd w. (0, w\<lparr>s_open := removeAll fd (s_open w)\<rparr>)),
     c_accept4 = (\<lambda>fd b n fl. sim_fails (- 1, b, n) (sim_accept (fl AND 524288 \<noteq> 0) b n)),
     c_accept = (\<lambda>fd b n. sim_fails (- 1, b, n) (sim_accept False b n)),
     c_connect = (\<lambda>fd a n. sim_connect (take (unat n) a)),
     c_bind = (\<lambda>fd a n. sim_ok (\<lambda>w. w\<lparr>s_local := take (unat n) a\<rparr>)),
     c_listen = (\<lambda>fd n. sim_ok id),
     c_poll = (\<lambda>p n ms. sim_do_poll p),
     c_recv = (\<lambda>fd b n fl. sim_recv b n (fl AND 2 \<noteq> 0)),
     c_recvfrom = (\<lambda>fd b n fl a an w.
        case sim_recv b n (fl AND 2 \<noteq> 0) w of ((r, b'), w') \<Rightarrow> ((r, b', sim_name (s_peer w) a, an), w')),
     c_send = (\<lambda>fd b n fl. sim_send b n),
     c_sendto = (\<lambda>fd b n fl a an. sim_send b n),
     c_shutdown = (\<lambda>fd how. sim_ok id),
     c_ioctl = (\<lambda>fd req. sim_ok (\<lambda>w. w\<lparr>s_ce := sim_flag True fd (s_ce w)\<rparr>)),
     c_ioctl_int = sim_ioctl_int,
     c_fcntl = sim_fcntl,
     c_fcntl_int = sim_fcntl_int,
     c_read = (\<lambda>fd b n. sim_recv b n False),
     c_write = (\<lambda>fd b n. sim_send b n),
     c_pread64 = (\<lambda>fd b n off. sim_recv b n True),
     c_pwrite64 = (\<lambda>fd b n off. sim_send b n),
     c_setsockopt_int = (\<lambda>fd l x v n. sim_ok id),
     c_setsockopt_timeval = (\<lambda>fd l x v n. sim_ok (\<lambda>w.
        if x = 20 then w\<lparr>s_rcvtimeo := v\<rparr> else w\<lparr>s_sndtimeo := v\<rparr>)),
     c_getsockopt_int = (\<lambda>fd l x v n. sim_fails (- 1, v, n) (\<lambda>w.
        ((0, s_sockerr w, 4), w\<lparr>s_sockerr := 0\<rparr>))),
     c_getsockopt_timeval = (\<lambda>fd l x v n. sim_fails (- 1, v, n) (\<lambda>w.
        ((0, if x = 20 then s_rcvtimeo w else s_sndtimeo w, 16), w))),
     c_getsockname = (\<lambda>fd b n. sim_fails (- 1, b, n) (\<lambda>w. ((0, sim_name (s_local w) b, 10), w))),
     c_getpeername = (\<lambda>fd b n. sim_fails (- 1, b, n) (\<lambda>w. ((0, sim_name (s_peer w) b, 10), w))),
     clock_now = sim_clock,
     hci_get_route = sim_fails (- 1) (\<lambda>w. (0, w)),
     hci_open_dev = (\<lambda>d. sim_fails (- 1) (sim_alloc True)),
     hci_inquiry = (\<lambda>d t n l fl. sim_fails (- 1, l) (\<lambda>w.
        ((of_nat (length (s_infos w)), s_infos w @ drop (length (s_infos w)) l), w))),
     hci_close_dev = (\<lambda>fd. \<lambda>w. (0, w\<lparr>s_open := removeAll fd (s_open w)\<rparr>))\<rparr>"

definition sim_view :: "sim kview" where
  "sim_view = \<lparr>opened = (\<lambda>w. set (s_open w)), cloexec = (\<lambda>w. set (s_ce w)),
     nonblock = (\<lambda>w. set (s_nb w))\<rparr>"

section \<open>It behaves as documented\<close>

lemma sim_view_simps [simp]:
  "opened sim_view w = set (s_open w)" "cloexec sim_view w = set (s_ce w)"
  "nonblock sim_view w = set (s_nb w)"
  by (simp_all add: sim_view_def)

lemma set_sim_flag [simp]: "set (sim_flag on fd xs) = (if on then insert fd (set xs) else set xs - {fd})"
  by (simp add: sim_flag_def)

lemma sim_fds_minus_one: "fd \<in> set sim_fds \<Longrightarrow> fd \<noteq> - 1"
proof -
  have "list_all (\<lambda>fd. fd \<noteq> - 1) sim_fds"
    by code_simp
  then show "fd \<in> set sim_fds \<Longrightarrow> fd \<noteq> - 1"
    by (simp add: list_all_iff)
qed

lemma sim_alloc_opens: "opens sim_view ce (sim_alloc ce) id"
  by (auto simp: opens_def opened_by_def sim_alloc_def find_Some_iff split: option.splits
      dest!: sim_fds_minus_one [OF nth_mem])

lemma opened_by_script [simp]:
  "opened_by sim_view ce fd (w\<lparr>s_script := es\<rparr>) w' = opened_by sim_view ce fd w w'"
  "opened_by sim_view ce (- 1) w (w\<lparr>s_script := es, s_errno := e\<rparr>)"
  by (simp_all add: opened_by_def)

lemma opens_fails:
  assumes "opens sim_view ce c ret" and "ret bad = - 1"
  shows "opens sim_view ce (sim_fails bad c) ret"
  unfolding opens_def
proof
  fix w
  have "opened_by sim_view ce (ret (fst (c w'))) w' (snd (c w'))" for w'
    using assms(1) by (simp add: opens_def)
  from this [of w] this [of "w\<lparr>s_script := tl (s_script w)\<rparr>"]
  show "opened_by sim_view ce (ret (fst (sim_fails bad c w))) w (snd (sim_fails bad c w))"
    using assms(2) by (cases "s_script w") (simp_all add: sim_fails_def)
qed

lemma neutral_fails: "neutral sim_view c \<Longrightarrow> neutral sim_view (sim_fails bad c)"
  by (simp add: neutral_def sim_fails_def split: list.splits)

lemmas sim_defs = sim_libc_def linux_consts_def linux_codes_def

lemma sim_accept_opens: "opens sim_view ce (sim_fails (- 1, b, n) (sim_accept ce b n)) fst"
proof (rule opens_fails)
  have "fst (fst (sim_accept ce b n w)) = fst (sim_alloc ce w)" for w
    by (simp add: sim_accept_def split_beta Let_def)
  moreover have "opened_by sim_view ce fd w (snd (sim_accept ce b n w))
      = opened_by sim_view ce fd w (snd (sim_alloc ce w))" for fd w
    by (simp add: opened_by_def sim_accept_def split_beta Let_def)
  ultimately show "opens sim_view ce (sim_accept ce b n) fst"
    using sim_alloc_opens [of ce] by (simp add: opens_def)
qed simp

lemma sim_socket_laws: "socket_laws sim_libc sim_view"
  unfolding socket_laws_def
  by (simp add: sim_defs opens_fails [OF sim_alloc_opens] sim_accept_opens)

lemma sim_close_laws: "close_laws sim_libc sim_view"
  by (simp add: close_laws_def sim_defs)

lemma sim_fcntl_int_cmds:
  "sim_fcntl_int fd 0 v = sim_fails (- 1) (sim_alloc False)"
  "sim_fcntl_int fd 1030 v = sim_fails (- 1) (sim_alloc True)"
  "sim_fcntl_int fd 2 v = sim_fails (- 1) (\<lambda>w. (0, w\<lparr>s_ce := sim_flag (v AND 1 \<noteq> 0) fd (s_ce w)\<rparr>))"
  "sim_fcntl_int fd 4 v = sim_fails (- 1) (\<lambda>w. (0, w\<lparr>s_nb := sim_flag (v AND 2048 \<noteq> 0) fd (s_nb w)\<rparr>))"
  by (simp_all add: sim_fcntl_int_def)

lemma sim_fcntl_laws: "fcntl_laws sim_libc sim_view"
proof -
  have q: "fst (sim_fcntl fd 1 w) = - 1 \<or> (fst (sim_fcntl fd 1 w) AND 1 \<noteq> 0 \<longleftrightarrow> fd \<in> set (s_ce w))"
    "fst (sim_fcntl fd 3 w) = - 1 \<or> (fst (sim_fcntl fd 3 w) AND 2048 \<noteq> 0 \<longleftrightarrow> fd \<in> set (s_nb w))" for fd w
    by (simp_all add: sim_fcntl_def sim_fails_def split: list.splits)
  have n: "neutral sim_view (sim_fcntl fd cmd)" for fd cmd
    unfolding sim_fcntl_def by (rule neutral_fails) (simp add: neutral_def)
  have ce: "flags (cloexec sim_view) on fd c" "keeps (opened sim_view) c" "keeps (nonblock sim_view) c"
    if "c = sim_fails (- 1) (\<lambda>w. (0, w\<lparr>s_ce := sim_flag on fd (s_ce w)\<rparr>))" for on fd c
    using that by (simp_all add: flags_def keeps_def sim_fails_def split: list.splits)
  have nb: "flags (nonblock sim_view) on fd c" "keeps (opened sim_view) c" "keeps (cloexec sim_view) c"
    if "c = sim_fails (- 1) (\<lambda>w. (0, w\<lparr>s_nb := sim_flag on fd (s_nb w)\<rparr>))" for on fd c
    using that by (simp_all add: flags_def keeps_def sim_fails_def split: list.splits)
  show ?thesis
    unfolding fcntl_laws_def Let_def
    using q n
    by (simp add: sim_defs sim_fcntl_int_cmds opens_fails [OF sim_alloc_opens] sim_ok_def
        sim_ioctl_int_def ce nb)
qed

lemma sim_neutralI:
  assumes "\<And>w. s_open (snd (c w)) = s_open w" and "\<And>w. s_ce (snd (c w)) = s_ce w"
    and "\<And>w. s_nb (snd (c w)) = s_nb w"
  shows "neutral sim_view c"
  using assms by (simp add: neutral_def)

lemma sim_neutral_laws: "neutral_laws sim_libc sim_view"
proof -
  have "neutral sim_view sim_clock" "neutral sim_view (sim_do_poll p)" "neutral sim_view (sim_connect a)" for p a
    by (auto simp: neutral_def sim_clock_def sim_do_poll_def sim_connect_def sim_ok_def sim_fails_def
        split: list.splits)
  then show ?thesis
    unfolding neutral_laws_def
    by (auto simp: sim_defs sim_ok_def intro!: neutral_fails sim_neutralI)
qed

lemma sim_hci_laws: "hci_laws sim_libc sim_view"
  by (simp add: hci_laws_def sim_defs opens_fails [OF sim_alloc_opens])

lemma sim_data_laws: "data_laws sim_libc sim_view"
  unfolding data_laws_def
  by (auto simp: sim_defs sim_ok_def sim_recv_def sim_send_def sim_fails_def Let_def split_beta
      split: list.split intro!: sim_neutralI)

theorem sim_kernel_ok: "kernel_ok sim_libc sim_view"
  by (simp add: kernel_ok_def sim_socket_laws sim_close_laws sim_fcntl_laws sim_neutral_laws
      sim_hci_laws sim_data_laws)

end
