(* ===== verification/Unix_Fd.thy ===== *)
theory Unix_Fd
  imports Unix_Sim Ownership
begin

text \<open>
  File descriptors (\<open>src/sys/unix/fd.rs\<close>): the owned descriptor \<open>FileDesc\<close> with its
  reads and writes (whose length is capped), the close-on-exec and blocking flags in the
  variants the targets use, duplication with its process-wide memory of an unsupported
  request, and the drop that closes the descriptor.

  The static \<open>TRY_CLOEXEC\<close> is part of the state: the functions that reach it run on the
  pair of the world and its current value.
\<close>

datatype file_desc = FileDesc (raw_fd: c_int)

section \<open>Operations\<close>

definition max_len :: "target \<Rightarrow> usize" where
  "max_len tgt = (if os tgt = MacOS then 2147483647 - 1 else 9223372036854775807)"

definition fd_new :: "c_int \<Rightarrow> file_desc" where
  "fd_new fd = FileDesc fd"

definition fd_raw :: "file_desc \<Rightarrow> c_int" where
  "fd_raw self = raw_fd self"

text \<open>\<open>into_raw\<close> forgets the value, so nothing is dropped.\<close>

definition fd_into_raw :: "file_desc \<Rightarrow> c_int" where
  "fd_into_raw self = (let fd = raw_fd self in fd)"

definition fd_as_inner :: "file_desc \<Rightarrow> c_int" where
  [simp]: "fd_as_inner self = raw_fd self"

definition fd_drop :: "'w libc \<Rightarrow> file_desc \<Rightarrow> 'w \<Rightarrow> 'w" where
  "fd_drop lc self w = snd (c_close lc (raw_fd self) w)"

text \<open>
  Reading: the buffer is the second component of the state, and the call fills it.
\<close>

definition le_local :: "'w libc \<Rightarrow> 'w \<times> 'l \<Rightarrow> io_error" where
  "le_local lc s = last_os_error lc (fst s)"

definition fd_read :: "'w libc \<Rightarrow> target \<Rightarrow> file_desc \<Rightarrow> ('w \<times> u8 list, usize) io" where
  "fd_read lc tgt self =
     io_bind (io_bind
        (io_call (out_call (\<lambda>buf. c_read lc (raw_fd self) buf (min (buf_len buf) (max_len tgt)))))
        (cvt (le_local lc)))
      (\<lambda>ret. io_ret (ucast ret))"

text \<open>The reader of a shared reference hands over to it.\<close>

definition fd_ref_read :: "'w libc \<Rightarrow> target \<Rightarrow> file_desc \<Rightarrow> ('w \<times> u8 list, usize) io" where
  [simp]: "fd_ref_read lc tgt self = fd_read lc tgt self"

definition fd_write :: "'w libc \<Rightarrow> target \<Rightarrow> file_desc \<Rightarrow> u8 list \<Rightarrow> ('w, usize) io" where
  "fd_write lc tgt self buf =
     io_bind (cvt_call lc (c_write lc (raw_fd self) buf (min (buf_len buf) (max_len tgt))))
      (\<lambda>ret. io_ret (ucast ret))"

text \<open>
  The positioned variants. On emscripten the offset has to fit into 32 bits; elsewhere it
  is reinterpreted as a signed 64-bit number. (For Android the source names a module
  the repository does not have, so there is no variant of that target to model.)
\<close>

definition fits_i32 :: "64 word \<Rightarrow> bool" where
  "fits_i32 off \<longleftrightarrow> - (2 ^ 31) \<le> sint off \<and> sint off < 2 ^ 31"

definition fd_read_at :: "'w libc \<Rightarrow> target \<Rightarrow> file_desc \<Rightarrow> u64 \<Rightarrow> ('w \<times> u8 list, usize) io" where
  "fd_read_at lc tgt self offset =
     io_map ucast
      (if os tgt = Emscripten \<and> \<not> fits_i32 offset
       then io_err (Custom InvalidInput ''cannot pread >2GB'')
       else io_bind (io_call (out_call (\<lambda>buf. c_pread64 lc (raw_fd self) buf
                (min (buf_len buf) (max_len tgt)) offset)))
             (cvt (le_local lc)))"

definition fd_write_at :: "'w libc \<Rightarrow> target \<Rightarrow> file_desc \<Rightarrow> u8 list \<Rightarrow> u64 \<Rightarrow> ('w, usize) io" where
  "fd_write_at lc tgt self buf offset =
     io_map ucast
      (if os tgt = Emscripten \<and> \<not> fits_i32 offset
       then io_err (Custom InvalidInput ''cannot pwrite >2GB'')
       else cvt_call lc (c_pwrite64 lc (raw_fd self) buf (min (buf_len buf) (max_len tgt)) offset))"

definition fd_get_cloexec :: "'w libc \<Rightarrow> file_desc \<Rightarrow> ('w, bool) io" where
  "fd_get_cloexec lc self =
     io_bind (cvt_call lc (c_fcntl lc (raw_fd self) (F_GETFD (K lc))))
      (\<lambda>r. io_ret (r AND FD_CLOEXEC (K lc) \<noteq> 0))"

text \<open>
  The targets without \<open>FIOCLEX\<close> set the flag by reading and writing the descriptor flags.
\<close>

definition cloexec_by_fcntl :: "target \<Rightarrow> bool" where
  "cloexec_by_fcntl tgt \<longleftrightarrow>
     newlib tgt \<or> os tgt \<in> {Solaris, Emscripten, Fuchsia, L4re, Haiku}"

definition fd_set_cloexec :: "'w libc \<Rightarrow> target \<Rightarrow> file_desc \<Rightarrow> ('w, unit) io" where
  "fd_set_cloexec lc tgt self =
     (if \<not> cloexec_by_fcntl tgt
      then io_bind (cvt_call lc (c_ioctl lc (raw_fd self) (FIOCLEX (K lc)))) (\<lambda>_. io_ret ())
      else io_bind (cvt_call lc (c_fcntl lc (raw_fd self) (F_GETFD (K lc)))) (\<lambda>previous.
        let new = previous OR FD_CLOEXEC (K lc) in
        io_bind
          (if new \<noteq> previous
           then io_map (\<lambda>_. ()) (cvt_call lc (c_fcntl_int lc (raw_fd self) (F_SETFD (K lc)) new))
           else io_ret ())
          (\<lambda>_. io_ret ())))"

definition fd_set_nonblocking :: "'w libc \<Rightarrow> target \<Rightarrow> file_desc \<Rightarrow> bool \<Rightarrow> ('w, unit) io" where
  "fd_set_nonblocking lc tgt self nonblocking =
     (if os tgt = Linux
      then let v = of_bool nonblocking in
        io_bind (cvt_call lc (c_ioctl_int lc (raw_fd self) (FIONBIO (K lc)) v)) (\<lambda>_. io_ret ())
      else io_bind (cvt_call lc (c_fcntl lc (raw_fd self) (F_GETFL (K lc)))) (\<lambda>previous.
        let new = (if nonblocking then previous OR O_NONBLOCK (K lc)
                   else previous AND NOT (O_NONBLOCK (K lc))) in
        io_bind
          (if new \<noteq> previous
           then io_map (\<lambda>_. ()) (cvt_call lc (c_fcntl_int lc (raw_fd self) (F_SETFL (K lc)) new))
           else io_ret ())
          (\<lambda>_. io_ret ())))"

subsection \<open>Duplication\<close>

definition try_cloexec_init :: "target \<Rightarrow> bool" where
  "try_cloexec_init tgt = (os tgt \<noteq> Android)"

definition dupfd_cloexec :: "'w libc \<Rightarrow> target \<Rightarrow> c_int" where
  "dupfd_cloexec lc tgt =
     (if os tgt \<in> {Android, Haiku} then F_DUPFD (K lc) else F_DUPFD_CLOEXEC (K lc))"

definition make_filedesc :: "'w libc \<Rightarrow> target \<Rightarrow> c_int \<Rightarrow> ('w, file_desc) io" where
  "make_filedesc lc tgt fd =
     (let fd = fd_new fd in
      with_drop (fd_drop lc fd)
        (io_bind (fd_set_cloexec lc tgt fd) (\<lambda>_. io_ret fd)))"

definition fd_duplicate :: "'w libc \<Rightarrow> target \<Rightarrow> file_desc \<Rightarrow> ('w \<times> bool, file_desc) io" where
  "fd_duplicate lc tgt self =
     (let fd = fd_raw self;
          plain = on_world (io_bind (cvt_call lc (c_fcntl_int lc fd (F_DUPFD (K lc)) 0))
                    (make_filedesc lc tgt))
      in io_bind (io_get snd) (\<lambda>try_cloexec.
        if try_cloexec
        then io_match (on_world (cvt_call lc (c_fcntl_int lc fd (dupfd_cloexec lc tgt) 0)))
               (\<lambda>fd. if os tgt = Linux then on_world (make_filedesc lc tgt fd)
                     else io_ret (fd_new fd))
               (\<lambda>e. if raw_os_error e = Some (EINVAL (codes (K lc)))
                    then io_bind (io_modify (\<lambda>s. (fst s, False))) (\<lambda>_. plain)
                    else io_err e)
        else plain))"

section \<open>Flags\<close>

lemma or_mask_zero: "(p OR m) AND m \<noteq> 0" if "m \<noteq> 0" for p m :: "'a::len word"
  using that by (simp add: bit.conj_disj_distrib2 and.commute)

lemma and_not_mask_zero: "(p AND NOT m) AND m = 0" for p m :: "'a::len word"
  by (simp add: and.assoc)

lemma or_mask_same: "p OR m = p \<Longrightarrow> m \<noteq> 0 \<Longrightarrow> p AND m \<noteq> 0" for p m :: "'a::len word"
  using or_mask_zero [of m p] by simp

lemma and_not_mask_same: "p AND NOT m = p \<Longrightarrow> p AND m = 0" for p m :: "'a::len word"
  using and_not_mask_zero [of p m] by simp

text \<open>What the two descriptor queries return.\<close>

lemma kernel_getfd:
  assumes "kernel_ok lc V" and "fst (c_fcntl lc fd (F_GETFD (K lc)) w) \<noteq> - 1"
  shows "fst (c_fcntl lc fd (F_GETFD (K lc)) w) AND FD_CLOEXEC (K lc) \<noteq> 0 \<longleftrightarrow> fd \<in> cloexec V w"
  using kernel_okD(3) [OF assms(1)] assms(2) unfolding fcntl_laws_def Let_def by blast

lemma kernel_getfl:
  assumes "kernel_ok lc V" and "fst (c_fcntl lc fd (F_GETFL (K lc)) w) \<noteq> - 1"
  shows "fst (c_fcntl lc fd (F_GETFL (K lc)) w) AND O_NONBLOCK (K lc) \<noteq> 0 \<longleftrightarrow> fd \<in> nonblock V w"
  using kernel_okD(3) [OF assms(1)] assms(2) unfolding fcntl_laws_def Let_def by blast

lemma kernel_masks:
  assumes "kernel_ok lc V"
  shows "FD_CLOEXEC (K lc) \<noteq> 0" and "O_NONBLOCK (K lc) \<noteq> 0"
    and "SOCK_STREAM (K lc) AND SOCK_CLOEXEC (K lc) = 0" and "SOCK_CLOEXEC (K lc) \<noteq> 0"
  using kernel_okD [OF assms] by (simp_all add: fcntl_laws_def socket_laws_def)

lemma wp_set_cloexec:
  assumes "kernel_ok lc V"
  shows "wp True (fd_set_cloexec lc tgt f)
    (\<lambda>r s'. opened V s' = opened V s \<and> nonblock V s' = nonblock V s
       \<and> cloexec V s' = (case r of Ok _ \<Rightarrow> insert (raw_fd f) (cloexec V s) | _ \<Rightarrow> cloexec V s)) s"
  using kernel_masks [OF assms] kernel_getfd [OF assms, of "raw_fd f" s]
  by (auto simp: fd_set_cloexec_def io_wp Let_def kernel_keeps_views [OF assms]
      kernel_flags_views [OF assms] kernel_neutral_views [OF assms] or_mask_zero
      dest: or_mask_same)

lemma wp_set_nonblocking:
  assumes "kernel_ok lc V"
  shows "wp True (fd_set_nonblocking lc tgt f b)
    (\<lambda>r s'. opened V s' = opened V s \<and> cloexec V s' = cloexec V s
       \<and> nonblock V s' = (case r of
            Ok _ \<Rightarrow> if b then insert (raw_fd f) (nonblock V s) else nonblock V s - {raw_fd f}
          | _ \<Rightarrow> nonblock V s)) s"
  using kernel_masks [OF assms] kernel_getfl [OF assms, of "raw_fd f" s]
  by (auto simp: fd_set_nonblocking_def io_wp Let_def kernel_keeps_views [OF assms]
      kernel_flags_views [OF assms] kernel_neutral_views [OF assms] or_mask_zero
      and_not_mask_zero dest: or_mask_same and_not_mask_same)

section \<open>Ownership of duplicates\<close>

lemma leaves_set_cloexec:
  assumes "kernel_ok lc V"
  shows "leaves (opened V) (fd_set_cloexec lc tgt f)"
  by (rule acquiresI, rule wp_mono [OF wp_set_cloexec [OF assms]]) (auto split: outcome.splits)

lemma fd_drop_opened:
  "kernel_ok lc V \<Longrightarrow> opened V (fd_drop lc f s) = opened V s - {raw_fd f}"
  by (simp add: fd_drop_def kernel_close)

lemma acquires_fcntl_dup:
  assumes "kernel_ok lc V"
  shows "acquires (opened V) (cvt_call lc (c_fcntl_int lc fd (F_DUPFD (K lc)) a)) (\<lambda>r. {r})"
    and "acquires (opened V) (cvt_call lc (c_fcntl_int lc fd (F_DUPFD_CLOEXEC (K lc)) a)) (\<lambda>r. {r})"
  using kernel_opens [OF assms] by (blast intro: acquires_opens)+

lemma completes_make_filedesc:
  assumes "kernel_ok lc V"
  shows "completes (opened V) (make_filedesc lc tgt r) (\<lambda>f. {raw_fd f}) {r}"
  unfolding make_filedesc_def Let_def
  by (rule completes_with_drop)
    (auto simp: fd_drop_opened [OF assms(1)] fd_new_def
      intro!: transfers_bind leaves_set_cloexec [OF assms(1)])

lemma acquires_fd_duplicate:
  assumes "kernel_ok lc V"
  shows "acquires (\<lambda>s. opened V (fst s)) (fd_duplicate lc tgt self) (\<lambda>f. {raw_fd f})"
proof -
  have plain: "acquires (\<lambda>s. opened V (fst s))
      (on_world (io_bind (cvt_call lc (c_fcntl_int lc fd (F_DUPFD (K lc)) 0)) (make_filedesc lc tgt)))
      (\<lambda>f. {raw_fd f})" for fd
    by (intro acquires_on_world
        acquires_bind_owned [OF acquires_fcntl_dup(1) [OF assms] completes_make_filedesc [OF assms]])
  have dup: "acquires (\<lambda>s. opened V (fst s))
      (on_world (cvt_call lc (c_fcntl_int lc fd (dupfd_cloexec lc tgt) 0))) (\<lambda>r. {r})" for fd
    by (simp add: dupfd_cloexec_def acquires_on_world acquires_fcntl_dup [OF assms])
  show ?thesis
    unfolding fd_duplicate_def Let_def
    using plain
    by (auto simp: fd_new_def completes_make_filedesc [OF assms]
        intro!: acquires_err acquires_bind leaves_get leaves_modify acquires_match_owned [OF dup]
          completes_on_world completes_ret)
qed

text \<open>
  Duplicating a descriptor leaks nothing on any target and on any path (the plain
  request, the fallback, the flag that cannot be set): on success exactly one descriptor
  more is open, the one in the result, and after an error the open descriptors are the
  ones from before.
\<close>

theorem duplicate_no_leak:
  assumes "kernel_ok lc V"
  shows "acquires (\<lambda>s. opened V (fst s)) (fd_duplicate lc tgt self) (\<lambda>f. {raw_fd f})"
  by (rule acquires_fd_duplicate [OF assms])

theorem duplicate_no_leak_witness:
  "acquires (\<lambda>s. opened sim_view (fst s)) (fd_duplicate sim_libc linux_target (FileDesc 1))
     (\<lambda>f. {raw_fd f})"
  by (rule duplicate_no_leak [OF sim_kernel_ok])

section \<open>Duplicates and exec\<close>

lemma wp_make_filedesc:
  assumes "kernel_ok lc V"
  shows "wp True (make_filedesc lc tgt fd)
     (\<lambda>r s'. case r of Ok f \<Rightarrow> raw_fd f \<in> cloexec V s' | _ \<Rightarrow> True) s"
  unfolding make_filedesc_def Let_def wp_with_drop wp_bind
  by (rule wp_mono [OF wp_set_cloexec [OF assms]])
    (auto simp: io_wp fd_new_def split: outcome.splits)

text \<open>
  Except on Haiku, a duplicated descriptor is never inherited across an exec: whichever
  path made it, it has the close-on-exec flag. The hypothesis on the static says that it
  still has its initial value or has been cleared since.
\<close>

theorem duplicate_cloexec:
  assumes "kernel_ok lc V" and "os tgt \<noteq> Haiku" and "snd s \<Longrightarrow> try_cloexec_init tgt"
  shows "wp True (fd_duplicate lc tgt self)
     (\<lambda>r s'. case r of Ok f \<Rightarrow> raw_fd f \<in> cloexec V (fst s') | _ \<Rightarrow> True) s"
  using assms(2,3)
  by (auto simp: fd_duplicate_def Let_def io_wp dupfd_cloexec_def try_cloexec_init_def fd_new_def
      kernel_views [OF assms(1)] wp_make_filedesc [OF assms(1)] cong: outcome.case_cong)

theorem duplicate_cloexec_witness:
  "wp True (fd_duplicate sim_libc linux_target (FileDesc 1))
     (\<lambda>r s'. case r of Ok f \<Rightarrow> raw_fd f \<in> cloexec sim_view (fst s') | _ \<Rightarrow> True) (sim_init, True)"
  by (rule duplicate_cloexec [OF sim_kernel_ok])
    (simp_all add: linux_target_def try_cloexec_init_def)

text \<open>
  On Haiku the flag is missing: \<open>F_DUPFD_CLOEXEC\<close> is an alias of \<open>F_DUPFD\<close> there, the
  static is not cleared for that target, and the flag is set afterwards on Linux only. The
  first successful duplication returns a descriptor without close-on-exec.
\<close>

theorem haiku_duplicate_inheritable:
  assumes "kernel_ok lc V" and "os tgt = Haiku" and "snd s = try_cloexec_init tgt"
    and "fst (c_fcntl_int lc (raw_fd self) (F_DUPFD (K lc)) 0 (fst s)) \<noteq> - 1"
  shows "\<exists>f s'. fd_duplicate lc tgt self s = Some (Ok f, s')
     \<and> raw_fd f \<in> opened V (fst s') \<and> raw_fd f \<notin> cloexec V (fst s')"
proof -
  have "wp False (fd_duplicate lc tgt self)
      (\<lambda>r s'. case r of Ok f \<Rightarrow> raw_fd f \<in> opened V (fst s') \<and> raw_fd f \<notin> cloexec V (fst s')
         | _ \<Rightarrow> False) s"
    using assms(2-4)
    by (simp add: fd_duplicate_def Let_def io_wp dupfd_cloexec_def try_cloexec_init_def fd_new_def
        fd_raw_def kernel_views [OF assms(1)])
  from wp_SomeI [OF this] obtain r s' where "fd_duplicate lc tgt self s = Some (r, s')"
    and "case r of Ok f \<Rightarrow> raw_fd f \<in> opened V (fst s') \<and> raw_fd f \<notin> cloexec V (fst s')
      | _ \<Rightarrow> False"
    by blast
  then show ?thesis by (cases r) auto
qed

theorem haiku_duplicate_inheritable_witness:
  "\<exists>f s'. fd_duplicate sim_libc \<lparr>os = Haiku, newlib = False, overflow_checks = True\<rparr> (FileDesc 1) (sim_init, True) = Some (Ok f, s')
     \<and> raw_fd f \<in> opened sim_view (fst s') \<and> raw_fd f \<notin> cloexec sim_view (fst s')"
proof (rule haiku_duplicate_inheritable [OF sim_kernel_ok])
  show "fst (c_fcntl_int sim_libc (raw_fd (FileDesc 1)) (F_DUPFD (K sim_libc)) 0
      (fst (sim_init, True))) \<noteq> - 1"
    by (simp add: sim_defs sim_fcntl_int_def sim_fails_def sim_init_def sim_alloc_def sim_fds_def)
qed (simp_all add: try_cloexec_init_def)

section \<open>Blocking mode and the close-on-exec flag\<close>

text \<open>
  The two implementations of \<open>set_nonblocking\<close> (the request \<open>FIONBIO\<close> on Linux, reading
  and writing the status flags elsewhere, the write skipped when nothing changes) have the
  same effect: on success exactly the mode of this descriptor is the requested one, on
  failure no descriptor changed.
\<close>

theorem set_nonblocking_effect:
  assumes "kernel_ok lc V"
  shows "wp True (fd_set_nonblocking lc tgt f b)
    (\<lambda>r s'. opened V s' = opened V s \<and> cloexec V s' = cloexec V s
       \<and> nonblock V s' = (case r of
            Ok _ \<Rightarrow> if b then insert (raw_fd f) (nonblock V s) else nonblock V s - {raw_fd f}
          | _ \<Rightarrow> nonblock V s)) s"
  by (rule wp_set_nonblocking [OF assms])

theorem set_nonblocking_effect_witness:
  "wp True (fd_set_nonblocking sim_libc \<lparr>os = FreeBSD, newlib = False, overflow_checks = True\<rparr> (FileDesc 1) True)
    (\<lambda>r s'. opened sim_view s' = opened sim_view sim_init
       \<and> cloexec sim_view s' = cloexec sim_view sim_init
       \<and> nonblock sim_view s' = (case r of
            Ok _ \<Rightarrow> if True then insert (raw_fd (FileDesc 1)) (nonblock sim_view sim_init)
                    else nonblock sim_view sim_init - {raw_fd (FileDesc 1)}
          | _ \<Rightarrow> nonblock sim_view sim_init)) sim_init"
  by (rule set_nonblocking_effect [OF sim_kernel_ok])

text \<open>
  \<open>get_cloexec\<close> after \<open>set_cloexec\<close>, in either of its two implementations: when both
  succeed the answer is yes.
\<close>

theorem set_get_cloexec:
  assumes "kernel_ok lc V"
  shows "wp True (io_bind (fd_set_cloexec lc tgt f) (\<lambda>_. fd_get_cloexec lc f))
     (\<lambda>r s'. case r of Ok b \<Rightarrow> b | _ \<Rightarrow> True) s"
  unfolding wp_bind
  by (rule wp_mono [OF wp_set_cloexec [OF assms]])
    (auto simp: fd_get_cloexec_def io_wp kernel_getfd [OF assms] split: outcome.splits)

theorem set_get_cloexec_witness:
  "wp True (io_bind (fd_set_cloexec sim_libc linux_target (FileDesc 1))
       (\<lambda>_. fd_get_cloexec sim_libc (FileDesc 1)))
     (\<lambda>r s'. case r of Ok b \<Rightarrow> b | _ \<Rightarrow> True) sim_init"
  by (rule set_get_cloexec [OF sim_kernel_ok])

end
