(* ===== verification/Common_Sockopt.thy ===== *)
theory Common_Sockopt
  imports Bt_Addr Ownership
begin

text \<open>
  The socket helpers of \<open>src/sys_common/bt.rs\<close> that both backends call: setting and
  reading a socket option of any type, and the name of a socket. What the platform
  provides is an argument: \<open>cv\<close> is its \<open>cvt\<close> on a C \<open>int\<close>, \<open>call\<close> the C function at
  the type of the option, \<open>sz\<close> the size of that type.
\<close>

definition setsockopt ::
    "(c_int \<Rightarrow> ('w, c_int) io) \<Rightarrow> ('h \<Rightarrow> c_int \<Rightarrow> c_int \<Rightarrow> 'T \<Rightarrow> 32 word \<Rightarrow> ('w, c_int) call) \<Rightarrow>
     32 word \<Rightarrow> 'h \<Rightarrow> c_int \<Rightarrow> c_int \<Rightarrow> 'T \<Rightarrow> ('w, unit) io" where
  "setsockopt cv call sz sock opt val payload =
     io_bind (io_bind (io_call (call sock opt val payload sz)) cv) (\<lambda>_. io_ret ())"

text \<open>
  The slot starts zeroed; the assertion on the length the call reports is a panic.
\<close>

definition getsockopt ::
    "(c_int \<Rightarrow> ('w, c_int) io) \<Rightarrow>
     ('h \<Rightarrow> c_int \<Rightarrow> c_int \<Rightarrow> 'T \<Rightarrow> 32 word \<Rightarrow> ('w, c_int \<times> 'T \<times> 32 word) call) \<Rightarrow>
     'T \<Rightarrow> 32 word \<Rightarrow> 'h \<Rightarrow> c_int \<Rightarrow> c_int \<Rightarrow> ('w, 'T) io" where
  "getsockopt cv call zeroed sz sock opt val =
     io_locals (zeroed, sz)
       (io_bind
         (io_bind (io_call (out_call (\<lambda>(slot, len). call sock opt val slot len)))
           (\<lambda>r. on_world (cv r)))
         (\<lambda>_. io_bind (io_get snd) (\<lambda>(slot, len).
            if len = sz then io_ret slot else io_panic)))"

text \<open>
  \<open>sockname\<close>: the callback fills a zeroed \<open>sockaddr_storage\<close>, which \<open>from\<close> reads as an
  address.
\<close>

definition sockname ::
    "(c_int \<Rightarrow> ('w, c_int) io) \<Rightarrow> 32 word \<Rightarrow> (u8 list \<Rightarrow> bt_addr) \<Rightarrow>
     (u8 list \<Rightarrow> 32 word \<Rightarrow> ('w, c_int \<times> u8 list \<times> 32 word) call) \<Rightarrow> ('w, bt_addr) io" where
  "sockname cv sz from f =
     io_locals (replicate (unat sz) 0, sz)
       (io_bind
         (io_bind (io_call (out_call (\<lambda>(addr, len). f addr len))) (\<lambda>r. on_world (cv r)))
         (\<lambda>_. io_bind (io_get (\<lambda>s. fst (snd s))) (\<lambda>addr. io_ret (from addr))))"

lemma leaves_setsockopt:
  assumes "\<And>s. op (snd (call sock opt val payload sz s)) = op s" and "\<And>r. leaves op (cv r)"
  shows "leaves op (setsockopt cv call sz sock opt val payload)"
  unfolding setsockopt_def using assms by blast

lemma leaves_getsockopt:
  assumes "\<And>slot len s. op (snd (call sock opt val slot len s)) = op s"
    and "\<And>r. leaves op (cv r)"
  shows "leaves op (getsockopt cv call zeroed sz sock opt val)"
  unfolding getsockopt_def
  by (intro acquires_locals acquires_bind leaves_call acquires_on_world assms(2) leaves_get)
    (auto simp: assms(1) split: prod.splits)

lemma leaves_sockname:
  assumes "\<And>b len s. op (snd (f b len s)) = op s" and "\<And>r. leaves op (cv r)"
  shows "leaves op (sockname cv sz from f)"
  unfolding sockname_def
  by (intro acquires_locals acquires_bind leaves_call acquires_on_world assms(2) leaves_get)
    (auto simp: assms(1) split: prod.splits)

end
