(* ===== verification/Unix_Bt.thy ===== *)
theory Unix_Bt
  imports Unix_Fd Common_Sockopt
begin

text \<open>
  The Unix socket (\<open>src/sys/unix/bt.rs\<close>): creation, acceptance, transfer of data, options
  and the conversions between addresses and the memory of a \<open>sockaddr\<close>. Connecting with a
  timeout and the inquiry for devices have theories of their own.

  The functions are read for \<open>self\<close> as their first argument after the C library and the
  target; a \<open>&mut\<close> buffer is the second component of the state.
\<close>

datatype unix_socket = Socket (sock_fd: file_desc)

abbreviation sock_raw :: "unix_socket \<Rightarrow> c_int" where
  "sock_raw self \<equiv> raw_fd (sock_fd self)"

definition sock_drop :: "'w libc \<Rightarrow> unix_socket \<Rightarrow> 'w \<Rightarrow> 'w" where
  "sock_drop lc self w = fd_drop lc (sock_fd self) w"

definition sock_as_inner :: "unix_socket \<Rightarrow> c_int" where
  "sock_as_inner self = fd_as_inner (sock_fd self)"

definition sock_from_inner :: "c_int \<Rightarrow> unix_socket" where
  "sock_from_inner fd = Socket (fd_new fd)"

definition sock_into_inner :: "unix_socket \<Rightarrow> c_int" where
  "sock_into_inner self = fd_into_raw (sock_fd self)"

section \<open>Addresses in memory\<close>

text \<open>Writing a \<open>sockaddr_rc\<close> through a pointer to the start of a larger block.\<close>

definition write_rc :: "'w libc \<Rightarrow> sockaddr_rc \<Rightarrow> u8 list \<Rightarrow> u8 list" where
  "write_rc lc r mem = rc_bytes lc r @ drop (length (rc_bytes lc r)) mem"

definition unix_from_storage :: "'w libc \<Rightarrow> u8 list \<Rightarrow> bt_addr" where
  "unix_from_storage lc mem = BtAddr (rc_bdaddr (rc_of_bytes lc mem))"

fun bt_addr_bytes :: "bt_addr \<Rightarrow> bytes6" where
  "bt_addr_bytes (BtAddr b) = b"

definition unix_to_storage :: "'w libc \<Rightarrow> bt_addr \<Rightarrow> u8 list \<times> 32 word" where
  "unix_to_storage lc a =
     (let addr = replicate (unat (size_storage lc)) 0;
          sarc = rc_of_bytes lc addr;
          sarc = sarc\<lparr>rc_family := ucast (AF_BLUETOOTH (K lc)), rc_bdaddr := bt_addr_bytes a,
                      rc_channel := 1\<rparr>
      in (write_rc lc sarc addr, size_rc lc))"

section \<open>Creation and acceptance\<close>

definition unix_setsockopt_int ::
    "'w libc \<Rightarrow> unix_socket \<Rightarrow> c_int \<Rightarrow> c_int \<Rightarrow> c_int \<Rightarrow> ('w, unit) io" where
  "unix_setsockopt_int lc sock =
     setsockopt (cvt (last_os_error lc)) (c_setsockopt_int lc) 4 (sock_as_inner sock)"

definition unix_getsockopt_int ::
    "'w libc \<Rightarrow> unix_socket \<Rightarrow> c_int \<Rightarrow> c_int \<Rightarrow> ('w, c_int) io" where
  "unix_getsockopt_int lc sock =
     getsockopt (cvt (last_os_error lc)) (c_getsockopt_int lc) 0 4 (sock_as_inner sock)"

text \<open>A \<open>timeval\<close> has two 64-bit members.\<close>

definition unix_setsockopt_timeval ::
    "'w libc \<Rightarrow> unix_socket \<Rightarrow> c_int \<Rightarrow> c_int \<Rightarrow> timeval \<Rightarrow> ('w, unit) io" where
  "unix_setsockopt_timeval lc sock =
     setsockopt (cvt (last_os_error lc)) (c_setsockopt_timeval lc) 16 (sock_as_inner sock)"

definition unix_getsockopt_timeval ::
    "'w libc \<Rightarrow> unix_socket \<Rightarrow> c_int \<Rightarrow> c_int \<Rightarrow> ('w, timeval) io" where
  "unix_getsockopt_timeval lc sock =
     getsockopt (cvt (last_os_error lc)) (c_getsockopt_timeval lc) (Timeval 0 0) 16
       (sock_as_inner sock)"

definition sock_new :: "'w libc \<Rightarrow> target \<Rightarrow> bt_protocol \<Rightarrow> ('w, unix_socket) io" where
  "sock_new lc tgt protocol =
     (let k = K lc;
          proto = (case protocol of L2CAP \<Rightarrow> BTPROTO_L2CAP k | RFCOMM \<Rightarrow> BTPROTO_RFCOMM k);
          fallback =
            io_bind (cvt_call lc (c_socket lc (AF_BLUETOOTH k) (SOCK_STREAM k) proto)) (\<lambda>fd.
              let fd = fd_new fd in
              with_drop (fd_drop lc fd)
                (io_bind (fd_set_cloexec lc tgt fd) (\<lambda>_.
                  let socket = Socket fd in
                  io_bind
                    (if is_apple tgt
                     then unix_setsockopt_int lc socket (SOL_SOCKET k) (SO_NOSIGPIPE k) 1
                     else io_ret ())
                    (\<lambda>_. io_ret socket))))
      in if os tgt = Linux
         then io_match
                (cvt_call lc (c_socket lc (AF_BLUETOOTH k) (SOCK_STREAM k OR SOCK_CLOEXEC k) proto))
                (\<lambda>fd. io_ret (Socket (fd_new fd)))
                (\<lambda>e. if raw_os_error e = Some (EINVAL (codes k)) then fallback else io_err e)
         else fallback)"

text \<open>
  \<open>accept\<close>: the address buffer and its length are captured by the closures of the two
  retry loops, so they are local variables of the whole function.
\<close>

definition sock_accept :: "'w libc \<Rightarrow> target \<Rightarrow> unix_socket \<Rightarrow> ('w, unix_socket \<times> bt_addr) io" where
  "sock_accept lc tgt self =
     (let k = K lc;
          peer = (\<lambda>s. BtAddr (rc_bdaddr (rc_of_bytes lc (fst (snd s)))));
          fallback =
            io_bind (cvt_r (kind_of lc) (le_local lc)
                (out_call (\<lambda>(addr, len). c_accept lc (sock_raw self) addr len))) (\<lambda>fd.
              let fd = fd_new fd in
              with_drop (\<lambda>s. (fd_drop lc fd (fst s), snd s))
                (io_bind (on_world (fd_set_cloexec lc tgt fd)) (\<lambda>_.
                  io_bind (io_get peer) (\<lambda>a. io_ret (Socket fd, a)))))
      in io_locals (replicate (unat (size_rc lc)) 0, size_rc lc)
         (if os tgt = Linux
          then io_match
                (cvt_r (kind_of lc) (le_local lc)
                  (out_call (\<lambda>(addr, len). c_accept4 lc (sock_raw self) addr len (SOCK_CLOEXEC k))))
                (\<lambda>fd. io_bind (io_get peer) (\<lambda>a. io_ret (Socket (fd_new fd), a)))
                (\<lambda>e. if raw_os_error e = Some (ENOSYS (codes k)) then fallback else io_err e)
          else fallback))"

definition sock_duplicate :: "'w libc \<Rightarrow> target \<Rightarrow> unix_socket \<Rightarrow> ('w \<times> bool, unix_socket) io" where
  "sock_duplicate lc tgt self = io_map Socket (fd_duplicate lc tgt (sock_fd self))"

section \<open>Receiving\<close>

definition sock_recv_with_flags ::
    "'w libc \<Rightarrow> unix_socket \<Rightarrow> c_int \<Rightarrow> ('w \<times> u8 list, usize) io" where
  "sock_recv_with_flags lc self fl =
     io_bind
       (io_bind (io_call (out_call (\<lambda>buf. c_recv lc (sock_raw self) buf (buf_len buf) fl)))
         (\<lambda>r. on_world (cvt (last_os_error lc) r)))
       (\<lambda>ret. io_ret (ucast ret))"

definition sock_recv_from_with_flags ::
    "'w libc \<Rightarrow> unix_socket \<Rightarrow> c_int \<Rightarrow> ('w \<times> u8 list, usize \<times> bt_addr) io" where
  "sock_recv_from_with_flags lc self fl =
     io_locals (replicate (unat (size_rc lc)) 0, size_rc lc)
       (io_bind
         (io_bind
           (io_call (\<lambda>((w, buf), (addr, addrlen)).
              case c_recvfrom lc (sock_raw self) buf (buf_len buf) fl addr addrlen w of
                ((r, buf', addr', addrlen'), w') \<Rightarrow> (r, ((w', buf'), (addr', addrlen')))))
           (\<lambda>r. on_world (on_world (cvt (last_os_error lc) r))))
         (\<lambda>n. io_bind (io_get (\<lambda>s. BtAddr (rc_bdaddr (rc_of_bytes lc (fst (snd s))))))
           (\<lambda>a. io_ret (ucast n, a))))"

definition sock_peek :: "'w libc \<Rightarrow> unix_socket \<Rightarrow> ('w \<times> u8 list, usize) io" where
  "sock_peek lc self = sock_recv_with_flags lc self (MSG_PEEK (K lc))"

definition sock_peek_from :: "'w libc \<Rightarrow> unix_socket \<Rightarrow> ('w \<times> u8 list, usize \<times> bt_addr) io" where
  "sock_peek_from lc self = sock_recv_from_with_flags lc self (MSG_PEEK (K lc))"

definition sock_read :: "'w libc \<Rightarrow> unix_socket \<Rightarrow> ('w \<times> u8 list, usize) io" where
  "sock_read lc self = sock_recv_with_flags lc self 0"

definition sock_recv_from :: "'w libc \<Rightarrow> unix_socket \<Rightarrow> ('w \<times> u8 list, usize \<times> bt_addr) io" where
  "sock_recv_from lc self = sock_recv_from_with_flags lc self 0"

section \<open>Options\<close>

text \<open>
  The time limit the kernel is given: seconds clipped to the largest \<open>time_t\<close>, microseconds
  rounded down, but never zero for a limit that is not.
\<close>

definition timeval_of :: "duration \<Rightarrow> timeval" where
  "timeval_of dur =
     (let secs = (if as_secs dur > 9223372036854775807 then 9223372036854775807 else as_secs dur);
          tv = Timeval secs (ucast (subsec_micros dur))
      in if tv_sec tv = 0 \<and> tv_usec tv = 0 then Timeval (tv_sec tv) 1 else tv)"

definition sock_set_timeout :: "'w libc \<Rightarrow> unix_socket \<Rightarrow> duration option \<Rightarrow> c_int \<Rightarrow> ('w, unit) io" where
  "sock_set_timeout lc self dur kind =
     io_bind
       (case dur of
          Some dur \<Rightarrow>
            if as_secs dur = 0 \<and> subsec_nanos dur = 0
            then io_err (Custom InvalidInput ''cannot set a 0 duration timeout'')
            else io_ret (timeval_of dur)
        | None \<Rightarrow> io_ret (Timeval 0 0))
       (\<lambda>timeout. unix_setsockopt_timeval lc self (SOL_SOCKET (K lc)) kind timeout)"

text \<open>
  Reading it back: the multiplication is done in 32 bits and \<open>Duration::new\<close> panics when
  the seconds overflow.
\<close>

definition mul_u32 :: "target \<Rightarrow> u32 \<Rightarrow> u32 \<Rightarrow> u32 option" where
  "mul_u32 tgt a b = (if overflow_checks tgt then checked_mul a b else Some (a * b))"

definition duration_of :: "target \<Rightarrow> timeval \<Rightarrow> duration option" where
  "duration_of tgt raw =
     (case mul_u32 tgt (ucast (tv_usec raw)) 1000 of
        None \<Rightarrow> None
      | Some nsec \<Rightarrow> dur_new (tv_sec raw) nsec)"

definition sock_timeout :: "'w libc \<Rightarrow> target \<Rightarrow> unix_socket \<Rightarrow> c_int \<Rightarrow> ('w, duration option) io" where
  "sock_timeout lc tgt self kind =
     io_bind (unix_getsockopt_timeval lc self (SOL_SOCKET (K lc)) kind) (\<lambda>raw.
       if tv_sec raw = 0 \<and> tv_usec raw = 0 then io_ret None
       else (case duration_of tgt raw of
               None \<Rightarrow> io_panic
             | Some d \<Rightarrow> io_ret (Some d)))"

definition sock_shutdown :: "'w libc \<Rightarrow> unix_socket \<Rightarrow> shutdown_how \<Rightarrow> ('w, unit) io" where
  "sock_shutdown lc self how =
     (let how = (case how of
          Shutdown_Write \<Rightarrow> SHUT_WR (K lc)
        | Shutdown_Read \<Rightarrow> SHUT_RD (K lc)
        | Shutdown_Both \<Rightarrow> SHUT_RDWR (K lc))
      in io_bind (cvt_call lc (c_shutdown lc (sock_raw self) how)) (\<lambda>_. io_ret ()))"

definition sock_set_nonblocking :: "'w libc \<Rightarrow> unix_socket \<Rightarrow> bool \<Rightarrow> ('w, unit) io" where
  "sock_set_nonblocking lc self nonblocking =
     (let nonblocking = of_bool nonblocking in
      io_map (\<lambda>_. ()) (cvt_call lc (c_ioctl_int lc (sock_as_inner self) (FIONBIO (K lc)) nonblocking)))"

definition sock_take_error :: "'w libc \<Rightarrow> unix_socket \<Rightarrow> ('w, io_error option) io" where
  "sock_take_error lc self =
     io_bind (unix_getsockopt_int lc self (SOL_SOCKET (K lc)) (SO_ERROR (K lc))) (\<lambda>raw.
       if raw = 0 then io_ret None else io_ret (Some (Os raw)))"

section \<open>Addresses survive the trip through memory\<close>

text \<open>
  What the layout of \<open>sockaddr_rc\<close> guarantees: it has a fixed size that fits into a
  \<open>sockaddr_storage\<close>, and reading it from the start of a block gives what was written.
\<close>

definition rc_layout_ok :: "'w libc \<Rightarrow> bool" where
  "rc_layout_ok lc \<longleftrightarrow> (\<forall>r. length (rc_bytes lc r) = unat (size_rc lc))
     \<and> (\<forall>r xs. rc_of_bytes lc (rc_bytes lc r @ xs) = r) \<and> size_rc lc \<le> size_storage lc"

lemma sim_layout_ok: "rc_layout_ok sim_libc"
proof -
  have "length (sim_rc_bytes r) = 10" for r
    by (simp add: sim_rc_bytes_def Let_def case_prod_unfold)
  moreover have "sim_rc_of_bytes (sim_rc_bytes r @ xs) = r" for r xs
    using u16_from_to_le_bytes [of "rc_family r"]
    by (cases "rc_bdaddr r") (simp add: sim_rc_bytes_def sim_rc_of_bytes_def Let_def case_prod_unfold)
  ultimately show ?thesis
    by (simp add: rc_layout_ok_def sim_defs)
qed

lemma unix_to_storage_block:
  assumes "rc_layout_ok lc"
  shows "length (fst (unix_to_storage lc a)) = unat (size_storage lc)"
    and "rc_of_bytes lc (fst (unix_to_storage lc a)) =
      (rc_of_bytes lc (replicate (unat (size_storage lc)) 0))
        \<lparr>rc_family := ucast (AF_BLUETOOTH (K lc)), rc_bdaddr := bt_addr_bytes a, rc_channel := 1\<rparr>"
    and "snd (unix_to_storage lc a) = size_rc lc"
  using assms
  by (simp_all add: unix_to_storage_def write_rc_def rc_layout_ok_def word_le_nat_alt Let_def)

text \<open>
  An address converted to the \<open>sockaddr\<close> handed to the kernel and read back from that
  memory is the same address; the block has the size of a \<open>sockaddr_storage\<close> and the
  length passed along does not exceed it.
\<close>

theorem unix_storage_roundtrip:
  assumes "rc_layout_ok lc"
  shows "unix_from_storage lc (fst (unix_to_storage lc a)) = a
    \<and> length (fst (unix_to_storage lc a)) = unat (size_storage lc)
    \<and> unat (snd (unix_to_storage lc a)) \<le> length (fst (unix_to_storage lc a))"
  using unix_to_storage_block [OF assms, of a] assms
  by (cases a) (simp add: unix_from_storage_def rc_layout_ok_def word_le_nat_alt)

theorem unix_storage_roundtrip_witness:
  "unix_from_storage sim_libc (fst (unix_to_storage sim_libc (BtAddr (Bytes6 1 2 3 4 5 6))))
      = BtAddr (Bytes6 1 2 3 4 5 6)
    \<and> length (fst (unix_to_storage sim_libc (BtAddr (Bytes6 1 2 3 4 5 6)))) = unat (size_storage sim_libc)
    \<and> unat (snd (unix_to_storage sim_libc (BtAddr (Bytes6 1 2 3 4 5 6))))
       \<le> length (fst (unix_to_storage sim_libc (BtAddr (Bytes6 1 2 3 4 5 6))))"
  by (rule unix_storage_roundtrip [OF sim_layout_ok])

section \<open>Sockets are not leaked\<close>

lemma leaves_cvt [intro]: "leaves op (cvt le x)"
  by (rule acquiresI) (simp add: io_wp)

lemma sock_drop_opened:
  "kernel_ok lc V \<Longrightarrow> opened V (sock_drop lc s w) = opened V w - {sock_raw s}"
  by (simp add: sock_drop_def fd_drop_opened)

lemma leaves_unix_sockopts:
  assumes "kernel_ok lc V"
  shows "leaves (opened V) (unix_setsockopt_int lc s l x v)"
    and "leaves (opened V) (unix_setsockopt_timeval lc s l x tv)"
    and "leaves (opened V) (unix_getsockopt_int lc s l x)"
    and "leaves (opened V) (unix_getsockopt_timeval lc s l x)"
  unfolding unix_setsockopt_int_def unix_setsockopt_timeval_def unix_getsockopt_int_def
    unix_getsockopt_timeval_def
  by (auto intro!: leaves_setsockopt leaves_getsockopt
      simp: kernel_neutral [OF assms, THEN neutral_views(1)])

lemma acquires_cvt_r:
  assumes "\<And>s. fst (c s) = - 1 \<Longrightarrow> op (snd (c s)) = op s"
    and "\<And>s. fst (c s) \<noteq> - 1 \<Longrightarrow> fst (c s) \<notin> op s \<and> op (snd (c s)) = insert (fst (c s)) (op s)"
  shows "acquires op (cvt_r kind le c) (\<lambda>r. {r})"
proof (rule acquiresI)
  fix s
  show "wp True (cvt_r kind le c) (\<lambda>r s'. case r of Ok a \<Rightarrow> {a} \<inter> op s = {} \<and> op s' = {a} \<union> op s
      | _ \<Rightarrow> op s' = op s) s"
    by (rule wp_cvt_r [where I = "\<lambda>s'. op s' = op s"])
      (use assms in \<open>auto simp: io_wp interrupted_def\<close>)
qed

lemma acquires_sock_new:
  assumes "kernel_ok lc V"
  shows "acquires (opened V) (sock_new lc tgt protocol) (\<lambda>s. {sock_raw s})"
proof -
  have sock: "acquires (opened V) (cvt_call lc (c_socket lc af ty p)) (\<lambda>r. {r})" for af ty p
    using kernel_opens(1) [OF assms] by (rule acquires_opens)
  have fallback: "completes (opened V)
      (with_drop (fd_drop lc (FileDesc fd)) (io_bind (fd_set_cloexec lc tgt (FileDesc fd)) (\<lambda>_.
         io_bind (if is_apple tgt then unix_setsockopt_int lc (Socket (FileDesc fd)) l x v
                  else io_ret ()) (\<lambda>_. io_ret (Socket (FileDesc fd)))))) (\<lambda>s. {sock_raw s}) {fd}"
    for fd l x v
    by (intro completes_with_drop transfers_bind leaves_set_cloexec [OF assms])
      (auto simp: fd_drop_opened [OF assms] leaves_unix_sockopts [OF assms])
  show ?thesis
    unfolding sock_new_def Let_def fd_new_def
    by (auto intro!: acquires_match_owned [OF sock] acquires_bind_owned [OF sock] fallback acquires_err
        simp: completes_ret)
qed

text \<open>
  Creating a socket leaks nothing: on every target, for both protocols and on every
  path (the atomic request, the fallback for old kernels, a flag or an option that cannot
  be set) the descriptors open afterwards are those from before and, on success, the one
  inside the returned socket.
\<close>

theorem sock_new_no_leak:
  assumes "kernel_ok lc V"
  shows "acquires (opened V) (sock_new lc tgt protocol) (\<lambda>s. {sock_raw s})"
  by (rule acquires_sock_new [OF assms])

theorem sock_new_no_leak_witness:
  "acquires (opened sim_view) (sock_new sim_libc linux_target RFCOMM) (\<lambda>s. {sock_raw s})"
  by (rule sock_new_no_leak [OF sim_kernel_ok])

lemma acquires_accept_calls:
  assumes "kernel_ok lc V"
  shows "acquires (\<lambda>s. opened V (fst s))
      (cvt_r kind le (out_call (\<lambda>(addr, len). c_accept4 lc fd addr len fl))) (\<lambda>r. {r})"
    and "acquires (\<lambda>s. opened V (fst s))
      (cvt_r kind le (out_call (\<lambda>(addr, len). c_accept lc fd addr len))) (\<lambda>r. {r})"
  by (rule acquires_cvt_r; simp add: kernel_views [OF assms] kernel_fresh [OF assms] split_beta)+

lemma leaves_set_cloexec_world:
  assumes "kernel_ok lc V"
  shows "leaves (\<lambda>s. opened V (fst s)) (on_world (fd_set_cloexec lc tgt f))"
  by (rule acquires_on_world [OF leaves_set_cloexec [OF assms]])

lemma acquires_sock_accept:
  assumes "kernel_ok lc V"
  shows "acquires (opened V) (sock_accept lc tgt self) (\<lambda>r. {sock_raw (fst r)})"
proof -
  have get: "completes (\<lambda>s. opened V (fst s))
      (io_bind (io_get f) (\<lambda>a. io_ret (Socket (FileDesc fd), a))) (\<lambda>r. {sock_raw (fst r)}) {fd}"
    for f :: "'a \<times> u8 list \<times> 32 word \<Rightarrow> bt_addr" and fd
    by (simp add: completes_def io_wp)
  have fallback: "completes (\<lambda>s. opened V (fst s))
      (with_drop (\<lambda>s. (fd_drop lc (FileDesc fd) (fst s), snd s))
        (io_bind (on_world (fd_set_cloexec lc tgt (FileDesc fd))) (\<lambda>_.
          io_bind (io_get f) (\<lambda>a. io_ret (Socket (FileDesc fd), a)))))
      (\<lambda>r. {sock_raw (fst r)}) {fd}"
    for f :: "'a \<times> u8 list \<times> 32 word \<Rightarrow> bt_addr" and fd
    by (intro completes_with_drop transfers_bind leaves_set_cloexec_world [OF assms] leaves_get)
      (auto simp: fd_drop_opened [OF assms])
  show ?thesis
    unfolding sock_accept_def Let_def fd_new_def
    by (auto intro!: acquires_locals acquires_match_owned [OF acquires_accept_calls(1) [OF assms]]
        acquires_bind_owned [OF acquires_accept_calls(2) [OF assms]] fallback get acquires_err)
qed

text \<open>
  Accepting a connection leaks nothing: however often the call is interrupted, and
  whether or not the kernel knows \<open>accept4\<close>, the descriptors open afterwards are those from
  before and, on success, the one inside the returned socket.
\<close>

theorem sock_accept_no_leak:
  assumes "kernel_ok lc V"
  shows "acquires (opened V) (sock_accept lc tgt self) (\<lambda>r. {sock_raw (fst r)})"
  by (rule acquires_sock_accept [OF assms])

theorem sock_accept_no_leak_witness:
  "acquires (opened sim_view) (sock_accept sim_libc linux_target (Socket (FileDesc 1)))
     (\<lambda>r. {sock_raw (fst r)})"
  by (rule sock_accept_no_leak [OF sim_kernel_ok])

lemma acquires_sock_duplicate:
  assumes "kernel_ok lc V"
  shows "acquires (\<lambda>s. opened V (fst s)) (sock_duplicate lc tgt self) (\<lambda>s. {sock_raw s})"
  unfolding sock_duplicate_def by (rule acquires_map [OF acquires_fd_duplicate [OF assms]]) simp

section \<open>New sockets are not inherited across exec\<close>

lemma triple_set_cloexec:
  assumes "kernel_ok lc V"
  shows "triple (\<lambda>_. True) (fd_set_cloexec lc tgt f) (\<lambda>_ s. raw_fd f \<in> cloexec V s)"
  by (rule tripleI, rule wp_mono [OF wp_set_cloexec [OF assms]]) (auto split: outcome.splits)

lemma triple_sock_new_cloexec:
  assumes "kernel_ok lc V"
  shows "triple (\<lambda>_. True) (sock_new lc tgt protocol) (\<lambda>s s'. sock_raw s \<in> cloexec V s')"
proof -
  have atomic: "triple (\<lambda>_. True)
      (cvt_call lc (c_socket lc af (SOCK_STREAM (K lc) OR SOCK_CLOEXEC (K lc)) p))
      (\<lambda>fd s. fd \<in> cloexec V s)" for af p
    using kernel_masks [OF assms]
    by (simp add: triple_def io_wp kernel_views [OF assms] or_mask_zero)
  have opt: "triple (\<lambda>s. fd \<in> cloexec V s)
      (if is_apple tgt then unix_setsockopt_int lc sk l x v else io_ret ())
      (\<lambda>_ s. fd \<in> cloexec V s)" for fd sk l x v
    by (simp add: triple_def unix_setsockopt_int_def setsockopt_def io_wp
        kernel_neutral_views [OF assms])
  have fallback: "triple (\<lambda>_. True)
      (with_drop (fd_drop lc (FileDesc fd)) (io_bind (fd_set_cloexec lc tgt (FileDesc fd)) (\<lambda>_.
         io_bind (if is_apple tgt then unix_setsockopt_int lc (Socket (FileDesc fd)) l x v
                  else io_ret ()) (\<lambda>_. io_ret (Socket (FileDesc fd))))))
      (\<lambda>s s'. sock_raw s \<in> cloexec V s')" for fd l x v
    by (rule triple_with_drop, rule triple_bind [OF triple_set_cloexec [OF assms]],
        rule triple_bind, simp only: file_desc.sel, rule opt) (simp add: triple_ret)
  show ?thesis
    unfolding sock_new_def Let_def fd_new_def
    by (auto intro!: triple_match [OF atomic] triple_bind [OF triple_top] fallback triple_err
        triple_ret)
qed

lemma triple_sock_accept_cloexec:
  assumes "kernel_ok lc V"
  shows "triple (\<lambda>_. True) (sock_accept lc tgt self) (\<lambda>p s'. sock_raw (fst p) \<in> cloexec V s')"
proof -
  have atomic: "triple (\<lambda>_. True)
      (cvt_r kind le (out_call (\<lambda>(addr, len). c_accept4 lc fd addr len (SOCK_CLOEXEC (K lc)))))
      (\<lambda>fd s. fd \<in> cloexec V (fst s))" for kind le fd
    by (rule tripleI, rule wp_cvt_r [where I = "\<lambda>_. True"])
      (auto simp: io_wp kernel_views [OF assms] split_beta kernel_masks [OF assms])
  have flag: "triple (\<lambda>_. True) (on_world (fd_set_cloexec lc tgt f))
      (\<lambda>_ s. raw_fd f \<in> cloexec V (fst s))" for f
    using triple_on_world [OF triple_set_cloexec [OF assms, of tgt f]] by simp
  have get: "triple (\<lambda>s. fd \<in> cloexec V (fst s))
      (io_bind (io_get f) (\<lambda>a. io_ret (Socket (FileDesc fd), a)))
      (\<lambda>p s. sock_raw (fst p) \<in> cloexec V (fst s))"
    for fd and f :: "'a \<times> u8 list \<times> 32 word \<Rightarrow> bt_addr"
    by (simp add: triple_def io_wp)
  have fallback: "triple (\<lambda>_. True)
      (with_drop d (io_bind (on_world (fd_set_cloexec lc tgt (FileDesc fd))) (\<lambda>_.
         io_bind (io_get f) (\<lambda>a. io_ret (Socket (FileDesc fd), a)))))
      (\<lambda>p s. sock_raw (fst p) \<in> cloexec V (fst s))"
    for d fd and f :: "'a \<times> u8 list \<times> 32 word \<Rightarrow> bt_addr"
    by (rule triple_with_drop, rule triple_bind [OF flag], simp only: file_desc.sel, rule get)
  show ?thesis
    unfolding sock_accept_def Let_def fd_new_def
    by (rule triple_locals, rule triple_if, rule triple_match [OF atomic], rule get,
        rule triple_if, rule triple_bind [OF triple_top], rule fallback, rule triple_err,
        rule triple_bind [OF triple_top], rule fallback)
qed

text \<open>
  C18. Every socket the backend creates or accepts has the close-on-exec flag, on every
  target and on every path.
\<close>

theorem sockets_cloexec:
  assumes "kernel_ok lc V"
  shows "triple (\<lambda>_. True) (sock_new lc tgt protocol) (\<lambda>s s'. sock_raw s \<in> cloexec V s')
    \<and> triple (\<lambda>_. True) (sock_accept lc tgt self) (\<lambda>p s'. sock_raw (fst p) \<in> cloexec V s')"
  by (simp add: triple_sock_new_cloexec [OF assms] triple_sock_accept_cloexec [OF assms])

theorem sockets_cloexec_witness:
  "triple (\<lambda>_. True) (sock_new sim_libc linux_target L2CAP) (\<lambda>s s'. sock_raw s \<in> cloexec sim_view s')
    \<and> triple (\<lambda>_. True) (sock_accept sim_libc linux_target (Socket (FileDesc 1)))
        (\<lambda>p s'. sock_raw (fst p) \<in> cloexec sim_view s')"
  by (rule sockets_cloexec [OF sim_kernel_ok])

section \<open>Time limits\<close>

definition time_t_max :: nat where
  "time_t_max = 2 ^ 63 - 1"

lemma unat_subsec_micros: "unat (subsec_micros d) = unat (subsec_nanos d) div 1000"
  by (simp add: subsec_micros_def unat_div)

lemma unat_ucast_up: "unat (ucast x :: u64) = unat x" for x :: u32
  using unat_u32_less [of x] by (simp add: unsigned_ucast_eq take_bit_nat_eq_self_iff)

lemma ucast_down_up: "ucast (ucast x :: u64) = x" for x :: u32
  by (rule ucast_up_ucast_id) (simp add: is_up)

lemma ucast_up_zero: "(ucast x :: u64) = 0 \<longleftrightarrow> x = 0" for x :: u32
  using ucast_down_up [of x] by auto

lemma timeval_of_fields:
  shows "unat (tv_sec (timeval_of d)) = min (unat (as_secs d)) time_t_max"
    and "tv_usec (timeval_of d) =
      ucast (if dur_ns d < 1000 then 1 else subsec_micros d)"
proof -
  show "unat (tv_sec (timeval_of d)) = min (unat (as_secs d)) time_t_max"
    by (auto simp: timeval_of_def Let_def time_t_max_def word_less_nat_alt)
  have small: "dur_ns d < 1000 \<longleftrightarrow> as_secs d = 0 \<and> subsec_micros d = 0"
  proof (cases "as_secs d = 0")
    case True
    then show ?thesis
      by (simp add: dur_ns_def word_unat_eq_iff [of _ 0] unat_subsec_micros div_eq_0_iff)
  next
    case False
    then have "1 \<le> unat (as_secs d)"
      by (simp add: Suc_le_eq unat_gt_0)
    with False show ?thesis
      by (simp add: dur_ns_def nanos_per_sec_def)
  qed
  then show "tv_usec (timeval_of d) = ucast (if dur_ns d < 1000 then 1 else subsec_micros d)"
    by (auto simp: timeval_of_def Let_def ucast_up_zero)
qed

text \<open>
  The limit that is in force: whole microseconds, at least one, the seconds clipped.
\<close>

definition timeout_floor :: "duration \<Rightarrow> nat" where
  "timeout_floor d =
     max 1000 (min (unat (as_secs d)) time_t_max * nanos_per_sec + unat (subsec_nanos d) div 1000 * 1000)"

lemma timeval_of_nonzero: "timeval_of d \<noteq> Timeval 0 0"
  by (auto simp: timeval_of_def Let_def)

lemma duration_of_timeval_of:
  assumes "dur_ok d"
  shows "\<exists>d'. duration_of tgt (timeval_of d) = Some d' \<and> dur_ok d' \<and> dur_ns d' = timeout_floor d"
proof -
  define u where "u = (if dur_ns d < 1000 then 1 else subsec_micros d)"
  have u: "unat u < 1000000"
    using assms by (auto simp: u_def unat_subsec_micros dur_ok_def nanos_per_sec_def)
  then have prod: "unat (u * 1000) = unat u * 1000"
    by (simp add: unat_mult_small)
  with u have "duration_of tgt (timeval_of d) = Some (Duration (tv_sec (timeval_of d)) (u * 1000))"
    by (simp add: duration_of_def mul_u32_def checked_mul_def timeval_of_fields ucast_down_up
        dur_new_small nanos_per_sec_def flip: u_def)
  moreover have "dur_ns (Duration (tv_sec (timeval_of d)) (u * 1000)) = timeout_floor d"
  proof (cases "dur_ns d < 1000")
    case True
    then have "unat (as_secs d) = 0" and "unat (subsec_nanos d) div 1000 = 0"
      by (simp_all add: dur_ns_def nanos_per_sec_def div_eq_0_iff)
    with True prod show ?thesis
      by (simp add: dur_ns_def timeout_floor_def timeval_of_fields u_def)
  next
    case False
    then have "1 \<le> unat (as_secs d) \<or> 1 \<le> unat (subsec_nanos d) div 1000"
      by (cases "unat (as_secs d)") (auto simp: dur_ns_def Suc_le_eq div_greater_zero_iff not_less)
    then have "1000 \<le> min (unat (as_secs d)) time_t_max * nanos_per_sec
        + unat (subsec_nanos d) div 1000 * 1000"
      by (auto simp: time_t_max_def nanos_per_sec_def min_def)
    with False prod show ?thesis
      by (simp add: dur_ns_def timeout_floor_def timeval_of_fields u_def unat_subsec_micros
          max_def)
  qed
  ultimately show ?thesis
    using u prod by (simp add: dur_ok_def nanos_per_sec_def)
qed

text \<open>
  What the options rely on: a limit the kernel accepted is reported back, with the size of
  a \<open>timeval\<close>, until it is set again.
\<close>

definition stores_timeout :: "'w libc \<Rightarrow> c_int \<Rightarrow> c_int \<Rightarrow> bool" where
  "stores_timeout lc fd kind \<longleftrightarrow> (\<forall>tv w.
     fst (c_setsockopt_timeval lc fd (SOL_SOCKET (K lc)) kind tv 16 w) \<noteq> - 1 \<longrightarrow>
     (let w' = snd (c_setsockopt_timeval lc fd (SOL_SOCKET (K lc)) kind tv 16 w);
          (r, slot, len) = fst (c_getsockopt_timeval lc fd (SOL_SOCKET (K lc)) kind (Timeval 0 0) 16 w')
      in r = - 1 \<or> slot = tv \<and> len = 16))"


lemma sim_stores_timeout: "stores_timeout sim_libc fd 20"
  by (simp add: stores_timeout_def sim_defs sim_ok_def sim_fails_def split: list.splits)


end
