(* ===== verification/Unix_Connect.thy ===== *)
theory Unix_Connect
  imports Unix_Bt
begin

text \<open>
  \<open>Socket::connect_timeout\<close> of \<open>src/sys/unix/bt.rs\<close>: connect in non-blocking mode, then
  wait with \<open>poll\<close> until the connection is made, refused, or the time is up. The waiting
  loop is a partial function: it does not return in a world where \<open>poll\<close> keeps returning
  early and the clock stands still.
\<close>

section \<open>The operation\<close>

text \<open>
  \<open>start.elapsed()\<close>: an \<open>Instant\<close> is a reading of the monotonic clock; the difference is
  zero if the clock shows less than at the start.
\<close>

definition dur_since :: "duration \<Rightarrow> duration \<Rightarrow> duration" where
  "dur_since now start = (case dur_sub now start of Some d \<Rightarrow> d | None \<Rightarrow> Duration 0 0)"

text \<open>The time to pass to \<open>poll\<close>: whole milliseconds, at least one, at most a C \<open>int\<close>.\<close>

definition poll_millis :: "duration \<Rightarrow> c_int" where
  "poll_millis timeout =
     (let ms = saturating_add (saturating_mul (as_secs timeout) 1000)
                 (ucast (subsec_nanos timeout) div 1000000);
          ms = (if ms = 0 then 1 else ms)
      in ucast (min ms 2147483647))"

definition timed_out :: io_error where
  "timed_out = Custom TimedOut ''connection timed out''"

definition zero_timeout :: io_error where
  "zero_timeout = Custom InvalidInput ''cannot set a 0 duration timeout''"

definition hangup_error :: "'w libc \<Rightarrow> unix_socket \<Rightarrow> ('w, unit) io" where
  "hangup_error lc self =
     io_bind (sock_take_error lc self) (\<lambda>e.
       io_err (case e of Some e \<Rightarrow> e | None \<Rightarrow> Custom Other ''no error set after POLLHUP''))"

partial_function (option) poll_loop ::
    "'w libc \<Rightarrow> unix_socket \<Rightarrow> duration \<Rightarrow> duration \<Rightarrow> pollfd \<Rightarrow> ('w, unit) io" where
  "poll_loop lc self timeout start p w =
     (let elapsed = dur_since (fst (clock_now lc w)) start;
          w1 = snd (clock_now lc w)
      in if elapsed \<ge> timeout then Some (Err timed_out, w1)
         else (case dur_sub timeout elapsed of
            None \<Rightarrow> Some (Panic, w1)
          | Some rest \<Rightarrow>
              (let r = c_poll lc p 1 (poll_millis rest) w1;
                   n = fst (fst r);
                   p' = snd (fst r);
                   w2 = snd r
               in if n = - 1
                  then (if kind_of lc (last_os_error lc w2) \<noteq> Interrupted
                        then Some (Err (last_os_error lc w2), w2)
                        else poll_loop lc self timeout start p' w2)
                  else if n = 0 then poll_loop lc self timeout start p' w2
                  else if revents p' AND POLLHUP (K lc) \<noteq> 0 then hangup_error lc self w2
                  else Some (Ok (), w2))))"

declare poll_loop.simps [code]

definition connect_addr :: "'w libc \<Rightarrow> bt_addr \<Rightarrow> sockaddr_rc" where
  "connect_addr lc addr =
     \<lparr>rc_family = ucast (AF_BLUETOOTH (K lc)), rc_bdaddr = bt_addr_bytes addr, rc_channel = 1\<rparr>"

definition await_connection :: "'w libc \<Rightarrow> unix_socket \<Rightarrow> duration \<Rightarrow> ('w, unit) io" where
  "await_connection lc self timeout =
     (let p = \<lparr>pfd = sock_raw self, events = POLLOUT (K lc), revents = 0\<rparr>
      in if as_secs timeout = 0 \<and> subsec_nanos timeout = 0 then io_err zero_timeout
         else io_bind (io_call (clock_now lc)) (\<lambda>start. poll_loop lc self timeout start p))"

definition sock_connect_timeout :: "'w libc \<Rightarrow> unix_socket \<Rightarrow> bt_addr \<Rightarrow> duration \<Rightarrow> ('w, unit) io" where
  "sock_connect_timeout lc self addr timeout =
     io_bind (sock_set_nonblocking lc self True) (\<lambda>_.
     io_bind
       (io_result (cvt_call lc
          (c_connect lc (sock_raw self) (rc_bytes lc (connect_addr lc addr)) (size_rc lc)))) (\<lambda>r.
     io_bind (sock_set_nonblocking lc self False) (\<lambda>_.
       case r of
         Inr _ \<Rightarrow> io_ret ()
       | Inl e \<Rightarrow>
           if raw_os_error e = Some (EINPROGRESS (codes (K lc)))
           then await_connection lc self timeout
           else io_err e)))"

section \<open>The time passed to poll\<close>

lemma unat_min: "unat (min a b) = min (unat a) (unat b)"
  by (simp add: min_def word_le_nat_alt)

lemma dur_ns_millis: "dur_ns d div 1000000 = unat (as_secs d) * 1000 + unat (subsec_nanos d) div 1000000"
proof -
  have "dur_ns d = unat (subsec_nanos d) + 1000000 * (unat (as_secs d) * 1000)"
    by (simp add: dur_ns_def nanos_per_sec_def)
  then show ?thesis
    by simp
qed

lemma unat_poll_millis: "unat (poll_millis d) = max 1 (min (dur_ns d div 1000000) (2 ^ 31 - 1))"
proof -
  define ms where "ms = saturating_add (saturating_mul (as_secs d) 1000)
      (ucast (subsec_nanos d) div 1000000 :: u64)"
  have ms: "unat ms = min (dur_ns d div 1000000) (2 ^ 64 - 1)"
    by (simp add: ms_def unat_saturating_add unat_saturating_mul unat_div unat_ucast_up
        dur_ns_millis)
  define m where "m = min (if ms = 0 then 1 else ms) 2147483647"
  have m: "unat m = max 1 (min (dur_ns d div 1000000) (2 ^ 31 - 1))"
    using ms by (auto simp: m_def unat_min unat_eq_0 [symmetric])
  then have "unat (ucast m :: c_int) = unat m"
    by (simp add: unsigned_ucast_eq take_bit_nat_eq_self_iff)
  moreover have "poll_millis d = ucast m"
    by (simp only: poll_millis_def Let_def ms_def m_def)
  ultimately show ?thesis
    using m by simp
qed

text \<open>
  C32. The loop never waits without limit and never spins: for every remaining time the
  argument of \<open>poll\<close>, as a signed C \<open>int\<close>, is the number of whole milliseconds clipped
  to the largest \<open>int\<close>, and one where that would be zero. No intermediate step overflows.
\<close>

theorem poll_millis_spec:
  "sint (poll_millis d) = int (max 1 (min (dur_ns d div 1000000) (2 ^ 31 - 1)))"
proof -
  define n where "n = max 1 (min (dur_ns d div 1000000) (2 ^ 31 - 1))"
  have n: "n < 2 ^ 31"
    by (simp add: n_def)
  have u: "uint (poll_millis d) = int n"
    unfolding n_def unat_poll_millis [symmetric] by simp
  have "sint (poll_millis d) = signed_take_bit 31 (int n)"
    by (simp add: sint_uint u)
  also have "\<dots> = int n"
    using n by (intro signed_take_bit_int_eq_self) simp_all
  finally show ?thesis
    by (simp only: n_def)
qed

section \<open>The waiting loop\<close>

text \<open>One turn of the loop, as a rule for weakest preconditions.\<close>

lemma wp_poll_loop:
  "wp t (poll_loop lc self timeout start p) Q w =
     (let elapsed = dur_since (fst (clock_now lc w)) start;
          w1 = snd (clock_now lc w)
      in if elapsed \<ge> timeout then Q (Err timed_out) w1
         else (case dur_sub timeout elapsed of
            None \<Rightarrow> Q Panic w1
          | Some rest \<Rightarrow>
              (let r = c_poll lc p 1 (poll_millis rest) w1;
                   w2 = snd r
               in if fst (fst r) = - 1
                  then (if kind_of lc (last_os_error lc w2) \<noteq> Interrupted
                        then Q (Err (last_os_error lc w2)) w2
                        else wp t (poll_loop lc self timeout start (snd (fst r))) Q w2)
                  else if fst (fst r) = 0
                  then wp t (poll_loop lc self timeout start (snd (fst r))) Q w2
                  else if revents (snd (fst r)) AND POLLHUP (K lc) \<noteq> 0
                  then wp t (hangup_error lc self) Q w2
                  else Q (Ok ()) w2)))"
  unfolding wp_def by (subst poll_loop.simps) (simp add: Let_def split: option.split)

lemma wp_hangup_error:
  "wp t (hangup_error lc self) Q w =
     (let r = c_getsockopt_int lc (sock_raw self) (SOL_SOCKET (K lc)) (SO_ERROR (K lc)) 0 4 w
      in if fst (fst r) = - 1 then Q (Err (last_os_error lc (snd r))) (snd r)
         else if snd (snd (fst r)) \<noteq> 4 then Q Panic (snd r)
         else if fst (snd (fst r)) = 0
         then Q (Err (Custom Other ''no error set after POLLHUP'')) (snd r)
         else Q (Err (Os (fst (snd (fst r))))) (snd r))"
  by (simp add: hangup_error_def sock_take_error_def unix_getsockopt_int_def getsockopt_def io_wp
      sock_as_inner_def split_beta Let_def)

lemma hangup_not_timed_out: "wp True (hangup_error lc self) (\<lambda>r w'. r \<noteq> Err timed_out) w"
  by (simp add: wp_hangup_error timed_out_def last_os_error_def Let_def)

text \<open>
  A rule for partial correctness: an invariant \<open>J\<close> of the fruitless rounds, from which every
  way out of the loop establishes \<open>Q\<close>.
\<close>

lemma poll_loop_rule:
  assumes "J p w"
    and step: "\<And>p w. J p w \<Longrightarrow>
     (let elapsed = dur_since (fst (clock_now lc w)) start;
          w1 = snd (clock_now lc w)
      in if elapsed \<ge> timeout then Q (Err timed_out) w1
         else (case dur_sub timeout elapsed of
            None \<Rightarrow> Q Panic w1
          | Some rest \<Rightarrow>
              (let r = c_poll lc p 1 (poll_millis rest) w1;
                   w2 = snd r
               in if fst (fst r) = - 1
                  then (if kind_of lc (last_os_error lc w2) \<noteq> Interrupted
                        then Q (Err (last_os_error lc w2)) w2
                        else J (snd (fst r)) w2)
                  else if fst (fst r) = 0 then J (snd (fst r)) w2
                  else if revents (snd (fst r)) AND POLLHUP (K lc) \<noteq> 0
                  then wp True (hangup_error lc self) Q w2
                  else Q (Ok ()) w2)))"
  shows "wp True (poll_loop lc self timeout start p) Q w"
proof (rule wpI)
  fix r w'
  assume ret: "poll_loop lc self timeout start p w = Some (r, w')"
  have "lc = lc \<and> self = self \<and> timeout = timeout \<and> start = start \<longrightarrow> J p w \<longrightarrow> Q (fst (r, w')) (snd (r, w'))"
  proof (rule poll_loop.raw_induct [where P = "\<lambda>lc' self' timeout' start' p w r.
      lc' = lc \<and> self' = self \<and> timeout' = timeout \<and> start' = start \<longrightarrow> J p w \<longrightarrow> Q (fst r) (snd r)", OF _ ret],
      intro impI, goal_cases)
    case (1 rec lc' self' timeout' start' p w r)
    have "wp True (hangup_error lc self) Q w2 \<Longrightarrow> hangup_error lc self w2 = Some r \<Longrightarrow> Q (fst r) (snd r)" for w2
      using wpD [of True "hangup_error lc self" Q w2 "fst r" "snd r"] by simp
    moreover have "rec lc self timeout start q w2 = Some r \<Longrightarrow> J q w2 \<Longrightarrow> Q (fst r) (snd r)" for q w2
      using 1(1) by blast
    ultimately show ?case
      using 1(2,3) step [OF 1(4)] by (auto simp: Let_def split: if_splits option.splits)
  qed
  with assms(1) show "Q r w'"
    by simp
qed

text \<open>
  A finished wait, whatever the world: a reported timeout was read off the clock.
\<close>

lemma wp_poll_loop_timed_out:
  "wp True (poll_loop lc self timeout start p) (\<lambda>r w'. r = Err timed_out \<longrightarrow>
     (\<exists>w0. timeout \<le> dur_since (fst (clock_now lc w0)) start \<and> w' = snd (clock_now lc w0))) w"
proof (rule poll_loop_rule [where J = "\<lambda>_ _. True"], simp, goal_cases)
  case (1 p w)
  show ?case
    by (auto simp: Let_def timed_out_def last_os_error_def split: option.split
        intro!: wp_mono [OF hangup_not_timed_out])
qed

section \<open>Time\<close>

text \<open>
  What the wait relies on, with \<open>ns\<close> the nanoseconds the monotonic clock shows in a world:
  a reading is a valid duration and shows that time; a call takes at most \<open>slack\<close>
  nanoseconds, \<open>poll\<close> at most as long beyond the milliseconds it is given; \<open>poll\<close> takes
  some time, which is asked for only while the deadline lies ahead; and \<open>getsockopt\<close>
  reports the size of the option it wrote.
\<close>

definition timing_ok :: "'w libc \<Rightarrow> ('w \<Rightarrow> nat) \<Rightarrow> nat \<Rightarrow> nat \<Rightarrow> bool" where
  "timing_ok lc ns deadline slack \<longleftrightarrow>
     (\<forall>w. dur_ok (fst (clock_now lc w)) \<and> dur_ns (fst (clock_now lc w)) = ns w
        \<and> ns w \<le> ns (snd (clock_now lc w)) \<and> ns (snd (clock_now lc w)) \<le> ns w + slack)
   \<and> (\<forall>p n ms w. ns w \<le> ns (snd (c_poll lc p n ms w))
        \<and> (ns w < deadline \<longrightarrow> ns w < ns (snd (c_poll lc p n ms w)))
        \<and> ns (snd (c_poll lc p n ms w)) \<le> ns w + unat ms * 1000000 + slack)
   \<and> (\<forall>fd l x w. let r = c_getsockopt_int lc fd l x 0 4 w in
        ns (snd r) \<le> ns w + slack \<and> (fst (fst r) = - 1 \<or> snd (snd (fst r)) = 4))"

lemma timing_clock:
  assumes "timing_ok lc ns deadline slack"
  shows "dur_ok (fst (clock_now lc w))" and "dur_ns (fst (clock_now lc w)) = ns w"
    and "ns w \<le> ns (snd (clock_now lc w))" and "ns (snd (clock_now lc w)) \<le> ns w + slack"
  using assms by (simp_all add: timing_ok_def)

lemma timing_poll:
  assumes "timing_ok lc ns deadline slack"
  shows "ns w \<le> ns (snd (c_poll lc p n ms w))"
    and "ns w < deadline \<Longrightarrow> ns w < ns (snd (c_poll lc p n ms w))"
    and "ns (snd (c_poll lc p n ms w)) \<le> ns w + unat ms * 1000000 + slack"
  using assms by (simp_all add: timing_ok_def)

lemma dur_since_ns:
  assumes "dur_ok now" and "dur_ok start" and "dur_ns start \<le> dur_ns now"
  shows "dur_ok (dur_since now start)" and "dur_ns (dur_since now start) = dur_ns now - dur_ns start"
proof -
  have "start \<le> now"
    using assms by (simp add: dur_le_ns)
  then obtain d where "dur_sub now start = Some d" "dur_ok d" "dur_ns d = dur_ns now - dur_ns start"
    by (rule dur_sub_ns [OF assms(1,2)])
  then show "dur_ok (dur_since now start)" "dur_ns (dur_since now start) = dur_ns now - dur_ns start"
    by (simp_all add: dur_since_def)
qed

lemma poll_millis_bound: "unat (poll_millis d) * 1000000 \<le> dur_ns d + 1000000"
  unfolding unat_poll_millis
  using div_times_less_eq_dividend [of "dur_ns d" 1000000] by (auto simp: max_def min_def)

text \<open>
  The end of the wait under these laws: the loop returns, within the deadline, one
  millisecond and the time of four calls, and reports a timeout only past the deadline.
\<close>

abbreviation ends_in_time :: "('w \<Rightarrow> nat) \<Rightarrow> nat \<Rightarrow> nat \<Rightarrow> unit outcome \<Rightarrow> 'w \<Rightarrow> bool" where
  "ends_in_time ns deadline slack r w \<equiv> r \<noteq> Panic \<and> (r = Err timed_out \<longrightarrow> deadline \<le> ns w)
     \<and> ns w \<le> deadline + 1000000 + 4 * slack"

lemma hangup_in_time:
  assumes "timing_ok lc ns deadline slack" and "ns w \<le> deadline + 1000000 + 2 * slack"
  shows "wp False (hangup_error lc self) (ends_in_time ns deadline slack) w"
proof -
  let ?r = "c_getsockopt_int lc (sock_raw self) (SOL_SOCKET (K lc)) (SO_ERROR (K lc)) 0 4 w"
  have "ns (snd ?r) \<le> ns w + slack" and "fst (fst ?r) = - 1 \<or> snd (snd (fst ?r)) = 4"
    using assms(1) by (simp_all add: timing_ok_def Let_def)
  with assms(2) show ?thesis
    by (auto simp: wp_hangup_error timed_out_def last_os_error_def Let_def)
qed

lemma poll_loop_in_time:
  assumes T: "timing_ok lc ns deadline slack" and "dur_ok timeout" and "dur_ok start"
    and D: "deadline = dur_ns start + dur_ns timeout"
    and "dur_ns start \<le> ns w" and "ns w \<le> deadline + 1000000 + 2 * slack"
  shows "wp False (poll_loop lc self timeout start p) (ends_in_time ns deadline slack) w"
  using assms(5,6)
proof (induction "deadline - ns w" arbitrary: w p rule: less_induct)
  case less
  note clock = timing_clock [OF T] and poll = timing_poll [OF T]
  define elapsed where "elapsed = dur_since (fst (clock_now lc w)) start"
  define w1 where "w1 = snd (clock_now lc w)"
  have elapsed: "dur_ok elapsed" "dur_ns elapsed = ns w - dur_ns start"
    using dur_since_ns [OF clock(1) assms(3)] less.prems clock(2) by (simp_all add: elapsed_def)
  have w1: "ns w \<le> ns w1" "ns w1 \<le> ns w + slack"
    using clock(3,4) by (simp_all add: w1_def)
  show ?case
  proof (cases "timeout \<le> elapsed")
    case True
    with elapsed less.prems w1 show ?thesis
      using D assms(2)
      by (simp add: wp_poll_loop Let_def dur_le_ns flip: elapsed_def w1_def)
  next
    case False
    then have before: "ns w < deadline"
      using elapsed assms(2) D less.prems by (simp add: dur_le_ns)
    obtain rest where rest: "dur_sub timeout elapsed = Some rest" "dur_ns rest = deadline - ns w"
    proof (rule dur_sub_ns [OF assms(2) elapsed(1)])
      show "elapsed \<le> timeout"
        using False by simp
      fix d
      assume "dur_sub timeout elapsed = Some d" "dur_ns d = dur_ns timeout - dur_ns elapsed"
      then show thesis
        using that D elapsed(2) less.prems(1) by simp
    qed
    define r where "r = c_poll lc p 1 (poll_millis rest) w1"
    have "ns (snd r) \<le> ns w1 + (deadline - ns w) + 1000000 + slack"
      using poll(3) [of p 1 "poll_millis rest" w1] poll_millis_bound [of rest] rest(2)
      by (simp add: r_def)
    with w1 before have late: "ns (snd r) \<le> deadline + 1000000 + 2 * slack"
      by simp
    have progress: "deadline - ns (snd r) < deadline - ns w"
    proof (cases "ns w1 < deadline")
      case True
      with poll(2) [of w1 p 1 "poll_millis rest"] w1 show ?thesis
        by (simp add: r_def)
    next
      case False
      with poll(1) [of w1 p 1 "poll_millis rest"] before show ?thesis
        by (simp add: r_def)
    qed
    have "dur_ns start \<le> ns (snd r)"
      using less.prems(1) w1 poll(1) [of w1 p 1 "poll_millis rest"] by (simp add: r_def)
    with less.hyps [OF progress] late
    have again: "wp False (poll_loop lc self timeout start q) (ends_in_time ns deadline slack) (snd r)" for q
      by simp
    show ?thesis
      using False again hangup_in_time [OF T late] late
      by (subst wp_poll_loop)
        (simp add: rest(1) timed_out_def last_os_error_def Let_def flip: elapsed_def w1_def r_def)
  qed
qed

lemma await_connection_bounded:
  assumes "timing_ok lc ns (ns w + dur_ns timeout) slack" and "dur_ok timeout"
  shows "wp False (await_connection lc self timeout) (ends_in_time ns (ns w + dur_ns timeout) slack) w"
proof (cases "dur_ns timeout = 0")
  case True
  then show ?thesis
    by (simp add: await_connection_def dur_ns_zero io_wp zero_timeout_def timed_out_def)
next
  case False
  define start where "start = fst (clock_now lc w)"
  note clock = timing_clock [OF assms(1), of w]
  have "wp False (poll_loop lc self timeout start p) (ends_in_time ns (ns w + dur_ns timeout) slack)
      (snd (clock_now lc w))" for p
    by (rule poll_loop_in_time [OF assms]) (use clock in \<open>simp_all add: start_def\<close>)
  then have "wp False (io_bind (io_call (clock_now lc)) (\<lambda>start. poll_loop lc self timeout start p))
      (ends_in_time ns (ns w + dur_ns timeout) slack) w" for p
    by (simp add: io_wp start_def)
  with False show ?thesis
    by (simp only: await_connection_def dur_ns_zero Let_def if_False)
qed

text \<open>
  C3. Waiting for a connection ends: in a world where the clock works and calls take
  bounded time, the loop returns whatever \<open>poll\<close> replies and however often it is
  interrupted, never panics, is back one millisecond and the time of four calls after the
  deadline at the latest, and says \<open>TimedOut\<close> only after the deadline.
\<close>

theorem await_connection_in_time:
  assumes "timing_ok lc ns (ns w + dur_ns timeout) slack" and "dur_ok timeout"
  shows "\<exists>r w'. await_connection lc self timeout w = Some (r, w') \<and> r \<noteq> Panic
    \<and> (r = Err timed_out \<longrightarrow> ns w + dur_ns timeout \<le> ns w')
    \<and> ns w' \<le> ns w + dur_ns timeout + 1000000 + 4 * slack"
  using wp_SomeI [OF await_connection_bounded [OF assms]] by simp

text \<open>A kernel whose \<open>poll\<close> takes a nanosecond and finds nothing.\<close>

definition ticking_libc :: "sim libc" where
  "ticking_libc = sim_libc
     \<lparr>clock_now := (\<lambda>w. (Duration 0 (of_nat (min (length (s_clock w)) 999)), w)),
      c_poll := (\<lambda>p n ms w. ((0, p), w\<lparr>s_clock := Duration 0 0 # s_clock w\<rparr>))\<rparr>"

lemma ticking_timing_ok:
  "deadline \<le> 999 \<Longrightarrow> timing_ok ticking_libc (\<lambda>w. min (length (s_clock w)) 999) deadline 1"
proof -
  have small: "unat (of_nat (min k 999) :: 32 word) = min k 999" for k
    by (simp add: take_bit_nat_eq_self_iff unsigned_of_nat)
  assume "deadline \<le> 999"
  with small show ?thesis
    unfolding timing_ok_def
    by (auto simp: ticking_libc_def dur_ok_def dur_ns_def nanos_per_sec_def sim_libc_def sim_fails_def
        Let_def split: list.split)
qed

theorem await_connection_in_time_witness:
  "\<exists>r w'. await_connection ticking_libc (Socket (FileDesc 3)) (Duration 0 5) sim_init = Some (r, w')
    \<and> r \<noteq> Panic \<and> (r = Err timed_out \<longrightarrow> 5 \<le> min (length (s_clock w')) 999)
    \<and> min (length (s_clock w')) 999 \<le> 5 + 1000000 + 4 * 1"
proof -
  have "dur_ns (Duration 0 5) = 5" and "dur_ok (Duration 0 5)" and "length (s_clock sim_init) = 0"
    by (simp_all add: dur_ns_def dur_ok_def nanos_per_sec_def sim_init_def)
  with await_connection_in_time [OF ticking_timing_ok, where w = sim_init and timeout = "Duration 0 5"
      and self = "Socket (FileDesc 3)"]
  show ?thesis by simp
qed

section \<open>Effect on the descriptor\<close>

text \<open>An invariant of the calls of the loop carries through the wait.\<close>

lemma await_connection_invariant:
  assumes "I w"
    and clock: "\<And>w. I w \<Longrightarrow> I (snd (clock_now lc w))"
    and poll: "\<And>p n ms w. I w \<Longrightarrow> I (snd (c_poll lc p n ms w))"
    and opt: "\<And>fd l x v n w. I w \<Longrightarrow> I (snd (c_getsockopt_int lc fd l x v n w))"
  shows "wp True (await_connection lc self timeout) (\<lambda>_. I) w"
proof -
  have hangup: "wp True (hangup_error lc self) (\<lambda>_. I) w" if "I w" for self w
    using opt [OF that] by (simp add: wp_hangup_error Let_def)
  have "wp True (poll_loop lc self timeout start p) (\<lambda>_. I) w" if "I w" for start p w
    by (rule poll_loop_rule [where J = "\<lambda>_. I", OF that])
      (auto simp: Let_def clock poll hangup split: option.split)
  then show ?thesis
    using assms(1) clock by (simp add: await_connection_def io_wp Let_def)
qed

text \<open>What the wait can answer: a plain success, an operating system code, or a message.\<close>

lemma wp_set_nonblocking_ioctl:
  "wp t (sock_set_nonblocking lc self b) Q w =
     (let r = c_ioctl_int lc (sock_raw self) (FIONBIO (K lc)) (of_bool b) w
      in if fst r = - 1 then Q (Err (last_os_error lc (snd r))) (snd r) else Q (Ok ()) (snd r))"
  by (simp add: sock_set_nonblocking_def sock_as_inner_def io_wp Let_def)

definition nonblocking_fails :: "'w libc \<Rightarrow> unix_socket \<Rightarrow> bool \<Rightarrow> 'w \<Rightarrow> bool" where
  "nonblocking_fails lc self b w \<longleftrightarrow>
     fst (c_ioctl_int lc (sock_raw self) (FIONBIO (K lc)) (of_bool b) w) = - 1"

lemma wp_connect_timeout:
  "wp t (sock_connect_timeout lc self addr timeout) Q w =
     (let w1 = snd (c_ioctl_int lc (sock_raw self) (FIONBIO (K lc)) 1 w);
          c = c_connect lc (sock_raw self) (rc_bytes lc (connect_addr lc addr)) (size_rc lc) w1;
          w3 = snd (c_ioctl_int lc (sock_raw self) (FIONBIO (K lc)) 0 (snd c))
      in if nonblocking_fails lc self True w then Q (Err (last_os_error lc w1)) w1
         else if nonblocking_fails lc self False (snd c) then Q (Err (last_os_error lc w3)) w3
         else if fst c \<noteq> - 1 then Q (Ok ()) w3
         else if errno lc (snd c) \<noteq> EINPROGRESS (codes (K lc)) then Q (Err (last_os_error lc (snd c))) w3
         else wp t (await_connection lc self timeout) Q w3)"
proof -
  have set: "wp t (io_bind (sock_set_nonblocking lc self b) k) Q w =
     (let w' = snd (c_ioctl_int lc (sock_raw self) (FIONBIO (K lc)) (of_bool b) w)
      in if nonblocking_fails lc self b w then Q (Err (last_os_error lc w')) w' else wp t (k ()) Q w')"
    for b k and Q :: "unit outcome \<Rightarrow> 'a \<Rightarrow> bool" and w
    by (simp add: wp_bind wp_set_nonblocking_ioctl nonblocking_fails_def Let_def)
  show ?thesis
    unfolding sock_connect_timeout_def
    by (simp only: set wp_bind [where m = "io_result x" for x] wp_result wp_cvt_call Let_def of_bool_eq)
      (simp add: io_wp last_os_error_def)
qed

lemma wp_connect_timeout_views:
  assumes "kernel_ok lc V"
  shows "wp True (sock_connect_timeout lc self addr timeout) (\<lambda>r w'.
      opened V w' = opened V w \<and> cloexec V w' = cloexec V w
    \<and> nonblock V w' - {sock_raw self} = nonblock V w - {sock_raw self}
    \<and> ((\<forall>w0. \<not> nonblocking_fails lc self False w0) \<longrightarrow> nonblock V w' =
         (if nonblocking_fails lc self True w then nonblock V w else nonblock V w - {sock_raw self}))
    \<and> (r = Ok () \<or> r = Err timed_out \<or> r = Err zero_timeout \<longrightarrow> sock_raw self \<notin> nonblock V w')) w"
proof -
  note views = kernel_neutral_views [OF assms] kernel_keeps_views [OF assms] kernel_flags_views [OF assms]
  define w1 where "w1 = snd (c_ioctl_int lc (sock_raw self) (FIONBIO (K lc)) 1 w)"
  define c where "c = c_connect lc (sock_raw self) (rc_bytes lc (connect_addr lc addr)) (size_rc lc) w1"
  define w3 where "w3 = snd (c_ioctl_int lc (sock_raw self) (FIONBIO (K lc)) 0 (snd c))"
  let ?same = "\<lambda>w'. opened V w' = opened V w3 \<and> cloexec V w' = cloexec V w3 \<and> nonblock V w' = nonblock V w3"
  have wait: "wp True (await_connection lc self timeout) (\<lambda>_. ?same) w3"
    by (rule await_connection_invariant) (simp_all add: views)
  have w1: "opened V w1 = opened V w" "cloexec V w1 = cloexec V w"
    "nonblock V w1 = (if nonblocking_fails lc self True w then nonblock V w else insert (sock_raw self) (nonblock V w))"
    by (simp_all add: w1_def views nonblocking_fails_def)
  have c: "opened V (snd c) = opened V w1" "cloexec V (snd c) = cloexec V w1" "nonblock V (snd c) = nonblock V w1"
    by (simp_all add: c_def views)
  have w3: "opened V w3 = opened V w" "cloexec V w3 = cloexec V w"
    "nonblock V w3 = (if nonblocking_fails lc self False (snd c) then nonblock V w1
       else nonblock V w1 - {sock_raw self})"
    by (simp_all add: w3_def views nonblocking_fails_def c w1)
  have os: "last_os_error lc x \<noteq> timed_out" "last_os_error lc x \<noteq> zero_timeout" for x
    by (simp_all add: last_os_error_def timed_out_def zero_timeout_def)
  show ?thesis
    unfolding wp_connect_timeout Let_def w1_def [symmetric] c_def [symmetric] w3_def [symmetric]
    by (auto simp: w1 w3 os intro!: wp_mono [OF wait])
qed

lemma leaves_connect_timeout:
  "kernel_ok lc V \<Longrightarrow> leaves (opened V) (sock_connect_timeout lc self addr timeout)"
  by (rule acquiresI, rule wp_mono [OF wp_connect_timeout_views]) (auto split: outcome.split)


lemma sim_nonblocking_fails:
  "nonblocking_fails sim_libc self b w \<longleftrightarrow> s_script w \<noteq> [] \<and> hd (s_script w) \<noteq> 0"
  by (simp add: nonblocking_fails_def sim_libc_def sim_ioctl_int_def sim_ok_def sim_fails_def
      split: list.split)


text \<open>
  C37. The zero time limit, which the documentation of \<open>connect_timeout\<close> calls an error,
  is refused only where the code comes to wait: if the connection is made at once the call
  succeeds, if it fails at once the call reports that failure, and only after
  \<open>EINPROGRESS\<close> is the limit rejected, with the connection attempt still under way.
\<close>

theorem connect_timeout_zero:
  assumes "\<not> nonblocking_fails lc self True w"
    and "c = c_connect lc (sock_raw self) (rc_bytes lc (connect_addr lc addr)) (size_rc lc)
      (snd (c_ioctl_int lc (sock_raw self) (FIONBIO (K lc)) 1 w))"
    and "\<not> nonblocking_fails lc self False (snd c)"
  shows "sock_connect_timeout lc self addr (Duration 0 0) w =
     Some (if fst c \<noteq> - 1 then Ok ()
           else if errno lc (snd c) \<noteq> EINPROGRESS (codes (K lc)) then Err (Os (errno lc (snd c)))
           else Err zero_timeout,
           snd (c_ioctl_int lc (sock_raw self) (FIONBIO (K lc)) 0 (snd c)))"
proof -
  have "wp False (sock_connect_timeout lc self addr (Duration 0 0))
     (\<lambda>r w'. r = (if fst c \<noteq> - 1 then Ok ()
           else if errno lc (snd c) \<noteq> EINPROGRESS (codes (K lc)) then Err (Os (errno lc (snd c)))
           else Err zero_timeout)
       \<and> w' = snd (c_ioctl_int lc (sock_raw self) (FIONBIO (K lc)) 0 (snd c))) w"
    using assms(1,3)
    by (simp add: wp_connect_timeout await_connection_def io_wp last_os_error_def Let_def flip: assms(2))
  then show ?thesis
    by (simp only: wp_eq)
qed

lemma sim_calls:
  "c_connect sim_libc fd a n = sim_connect (take (unat n) a)"
  "c_ioctl_int sim_libc = sim_ioctl_int" "errno sim_libc = s_errno"
  "EINPROGRESS (codes (K sim_libc)) = 115"
  by (simp_all add: sim_defs)

theorem connect_timeout_zero_witness:
  "fst (the (sock_connect_timeout sim_libc (Socket (FileDesc 2)) (BtAddr (Bytes6 1 2 3 4 5 6))
      (Duration 0 0) sim_init)) = Ok ()
   \<and> fst (the (sock_connect_timeout sim_libc (Socket (FileDesc 2)) (BtAddr (Bytes6 1 2 3 4 5 6))
      (Duration 0 0) (sim_init\<lparr>s_script := [0, 115]\<rparr>))) = Err zero_timeout"
proof -
  note run = connect_timeout_zero [OF _ refl, of sim_libc "Socket (FileDesc 2)" _ "BtAddr (Bytes6 1 2 3 4 5 6)"]
  show ?thesis
    by (simp add: run sim_nonblocking_fails sim_init_def sim_calls sim_connect_def sim_ioctl_int_def sim_ok_def
        sim_fails_def)
qed

text \<open>
  Connecting with and without a time limit presents the same address to the kernel:
  the structure \<open>connect_timeout\<close> builds has the bytes that the conversion used by \<open>connect\<close>,
  \<open>bind\<close> and \<open>send_to\<close> puts at the start of a \<open>sockaddr_storage\<close>, with the same length.
\<close>

theorem connect_addr_agrees:
  assumes "rc_layout_ok lc"
  shows "take (unat (snd (unix_to_storage lc addr))) (fst (unix_to_storage lc addr))
      = rc_bytes lc (connect_addr lc addr)
    \<and> snd (unix_to_storage lc addr) = size_rc lc"
proof -
  have upd: "r\<lparr>rc_family := f, rc_bdaddr := b, rc_channel := c\<rparr>
      = \<lparr>rc_family = f, rc_bdaddr = b, rc_channel = c\<rparr>" for r :: sockaddr_rc and f b c
    by (cases r) simp
  with assms show ?thesis
    by (simp add: unix_to_storage_def write_rc_def rc_layout_ok_def connect_addr_def upd Let_def)
qed

theorem connect_addr_agrees_witness:
  "take (unat (snd (unix_to_storage sim_libc (BtAddr (Bytes6 1 2 3 4 5 6)))))
      (fst (unix_to_storage sim_libc (BtAddr (Bytes6 1 2 3 4 5 6))))
      = rc_bytes sim_libc (connect_addr sim_libc (BtAddr (Bytes6 1 2 3 4 5 6)))
    \<and> snd (unix_to_storage sim_libc (BtAddr (Bytes6 1 2 3 4 5 6))) = size_rc sim_libc"
  by (rule connect_addr_agrees [OF sim_layout_ok])

end
