(* ===== verification/Win_Sys.thy ===== *)
theory Win_Sys
  imports Rust_Std Bt_Addr
begin

text \<open>
  The ground the Windows backend stands on: the Windows API as a parameter (a record of its
  constants and calls over an abstract world), the two conventions for results (\<open>cvt\<close> of
  \<open>src/sys/windows/mod.rs\<close>, where zero is an error, and \<open>cvt\<close> of
  \<open>src/sys/windows/bt.rs\<close>, where minus one is), and \<open>dur2timeout\<close>.

  Nothing is assumed here about the API: what a property relies on is a hypothesis of that
  property.
\<close>

section \<open>The Windows API\<close>

type_synonym win_socket_handle = "64 word"
type_synonym win_handle = "64 word"
type_synonym guid = "128 word"

record win_consts =
  AF_BTH :: u16
  W_SOCK_STREAM :: c_int
  BTHPROTO_RFCOMM :: u32
  WSA_FLAG_OVERLAPPED :: u32
  INVALID_SOCKET :: win_socket_handle
  WSAESHUTDOWN :: c_int
  WSAEWOULDBLOCK :: c_int
  WSA_E_NO_MORE :: u32
  WSAEFAULT :: u32
  W_MSG_PEEK :: c_int
  W_SOL_SOCKET :: c_int
  W_SO_ERROR :: c_int
  W_SO_REUSEADDR :: c_int
  W_SO_RCVTIMEO :: c_int
  W_SO_SNDTIMEO :: c_int
  W_FIONBIO :: c_int
  SD_SEND :: c_int
  SD_RECEIVE :: c_int
  SD_BOTH :: c_int
  HANDLE_FLAG_INHERIT :: u32
  INFINITE :: u32
  LUP_CONTAINERS :: u32
  LUP_FLUSHCACHE :: u32
  LUP_RETURN_ADDR :: u32
  NS_BTH :: u32
  L2CAP_PROTOCOL_UUID :: guid
  RFCOMM_PROTOCOL_UUID :: guid

record sockaddr_bth =
  addressFamily :: u16
  btAddr :: u64
  serviceClassId :: guid
  bth_port :: u32

text \<open>\<open>WSAPROTOCOL_INFOW\<close>: the fields the source reads, and the rest of the block.\<close>

record protocol_info =
  iAddressFamily :: c_int
  iSocketType :: c_int
  iProtocol :: c_int
  info_rest :: "u8 list"

record fd_set =
  fd_count :: u32
  fd_array :: "win_socket_handle list"

text \<open>A \<open>long\<close> has 32 bits on Windows.\<close>

datatype win_timeval = Win_Timeval (win_sec: "32 word") (win_usec: "32 word")

record query_set =
  dwSize :: u32
  dwNameSpace :: u32

text \<open>
  The layout of structures in memory, and the macros that pack a 48-bit address.
\<close>

record win_memory =
  size_bth :: "32 word"
  size_storage_lh :: "32 word"
  size_query :: "64 word"
  bth_bytes :: "sockaddr_bth \<Rightarrow> u8 list"
  bth_of_bytes :: "u8 list \<Rightarrow> sockaddr_bth"
  get_nap :: "u64 \<Rightarrow> u16"
  get_sap :: "u64 \<Rightarrow> u32"
  set_nap_sap :: "u16 \<Rightarrow> u32 \<Rightarrow> u64"

text \<open>
  The calls, as for the C library: arguments and the world to results, what was written
  through pointers, and the new world. \<open>query_remote\<close> follows the pointers of a
  \<open>WSAQUERYSETW\<close> at the start of a block to the remote address of its first entry;
  \<open>dummy_udp_bind\<close> creates and drops the socket that makes the standard library initialise
  Winsock; \<open>decode_win\<close> is the standard library's table of error kinds.
\<close>

record 'w winapi =
  KW :: win_consts
  MW :: win_memory
  decode_win :: "c_int \<Rightarrow> error_kind"
  wsa_error :: "'w \<Rightarrow> c_int"
  win_error :: "'w \<Rightarrow> c_int"
  dummy_udp_bind :: "('w, unit) call"
  w_socket :: "c_int \<Rightarrow> c_int \<Rightarrow> c_int \<Rightarrow> protocol_info option \<Rightarrow> u32 \<Rightarrow> u32 \<Rightarrow>
    ('w, win_socket_handle) call"
  w_accept :: "win_socket_handle \<Rightarrow> u8 list \<Rightarrow> 32 word \<Rightarrow>
    ('w, win_socket_handle \<times> u8 list \<times> 32 word) call"
  w_connect :: "win_socket_handle \<Rightarrow> u8 list \<Rightarrow> 32 word \<Rightarrow> ('w, c_int) call"
  w_bind :: "win_socket_handle \<Rightarrow> u8 list \<Rightarrow> 32 word \<Rightarrow> ('w, c_int) call"
  w_listen :: "win_socket_handle \<Rightarrow> c_int \<Rightarrow> ('w, c_int) call"
  w_select :: "c_int \<Rightarrow> fd_set \<Rightarrow> fd_set \<Rightarrow> win_timeval \<Rightarrow> ('w, c_int \<times> fd_set \<times> fd_set) call"
  w_duplicate :: "win_socket_handle \<Rightarrow> u32 \<Rightarrow> protocol_info \<Rightarrow> ('w, c_int \<times> protocol_info) call"
  w_process_id :: "('w, u32) call"
  w_recv :: "win_socket_handle \<Rightarrow> u8 list \<Rightarrow> c_int \<Rightarrow> c_int \<Rightarrow> ('w, c_int \<times> u8 list) call"
  w_recvfrom :: "win_socket_handle \<Rightarrow> u8 list \<Rightarrow> c_int \<Rightarrow> c_int \<Rightarrow> u8 list \<Rightarrow> 32 word \<Rightarrow>
    ('w, c_int \<times> u8 list \<times> u8 list \<times> 32 word) call"
  w_send :: "win_socket_handle \<Rightarrow> u8 list \<Rightarrow> c_int \<Rightarrow> c_int \<Rightarrow> ('w, c_int) call"
  w_sendto :: "win_socket_handle \<Rightarrow> u8 list \<Rightarrow> c_int \<Rightarrow> c_int \<Rightarrow> u8 list \<Rightarrow> 32 word \<Rightarrow> ('w, c_int) call"
  w_setsockopt_u32 :: "win_socket_handle \<Rightarrow> c_int \<Rightarrow> c_int \<Rightarrow> u32 \<Rightarrow> 32 word \<Rightarrow> ('w, c_int) call"
  w_getsockopt_u32 :: "win_socket_handle \<Rightarrow> c_int \<Rightarrow> c_int \<Rightarrow> u32 \<Rightarrow> 32 word \<Rightarrow>
    ('w, c_int \<times> u32 \<times> 32 word) call"
  w_getsockname :: "win_socket_handle \<Rightarrow> u8 list \<Rightarrow> 32 word \<Rightarrow> ('w, c_int \<times> u8 list \<times> 32 word) call"
  w_getpeername :: "win_socket_handle \<Rightarrow> u8 list \<Rightarrow> 32 word \<Rightarrow> ('w, c_int \<times> u8 list \<times> 32 word) call"
  w_ioctl :: "win_socket_handle \<Rightarrow> c_int \<Rightarrow> u32 \<Rightarrow> ('w, c_int \<times> u32) call"
  w_shutdown :: "win_socket_handle \<Rightarrow> c_int \<Rightarrow> ('w, c_int) call"
  w_close :: "win_socket_handle \<Rightarrow> ('w, c_int) call"
  w_set_handle_info :: "win_handle \<Rightarrow> u32 \<Rightarrow> u32 \<Rightarrow> ('w, c_int) call"
  w_lookup_begin :: "query_set \<Rightarrow> u32 \<Rightarrow> win_handle \<Rightarrow> ('w, c_int \<times> win_handle) call"
  w_lookup_next :: "win_handle \<Rightarrow> u32 \<Rightarrow> u32 \<Rightarrow> usize list \<Rightarrow> ('w, c_int \<times> u32 \<times> usize list) call"
  w_lookup_end :: "win_handle \<Rightarrow> ('w, c_int) call"
  query_remote :: "usize list \<Rightarrow> 'w \<Rightarrow> sockaddr_bth"

section \<open>Results\<close>

text \<open>\<open>last_error\<close> of \<open>bt.rs\<close>, and \<open>io::Error::last_os_error\<close>.\<close>

definition last_error :: "'w winapi \<Rightarrow> 'w \<Rightarrow> io_error" where
  "last_error wa w = Os (wsa_error wa w)"

definition win_last_os_error :: "'w winapi \<Rightarrow> 'w \<Rightarrow> io_error" where
  "win_last_os_error wa w = Os (win_error wa w)"

text \<open>\<open>sys::cvt\<close>: a \<open>BOOL\<close> of zero is a failure.\<close>

definition is_zero :: "'i::len word \<Rightarrow> bool" where
  "is_zero i \<longleftrightarrow> i = 0"

definition cvt_bool :: "'w winapi \<Rightarrow> 'i::len word \<Rightarrow> ('w, 'i word) io" where
  "cvt_bool wa i = (if is_zero i then io_bind (io_get (win_last_os_error wa)) io_err else io_ret i)"

text \<open>\<open>cvt\<close> and \<open>cvt_r\<close> of \<open>bt.rs\<close>; the latter does not retry.\<close>

definition win_is_minus_one :: "'i::len word \<Rightarrow> bool" where
  "win_is_minus_one t \<longleftrightarrow> t = - 1"

definition win_cvt :: "'w winapi \<Rightarrow> 'i::len word \<Rightarrow> ('w, 'i word) io" where
  "win_cvt wa t = (if win_is_minus_one t then io_bind (io_get (last_error wa)) io_err else io_ret t)"

definition win_cvt_r :: "'w winapi \<Rightarrow> ('w, 'i::len word) call \<Rightarrow> ('w, 'i word) io" where
  "win_cvt_r wa f = io_bind (io_call f) (win_cvt wa)"

abbreviation win_kind :: "'w winapi \<Rightarrow> io_error \<Rightarrow> error_kind" where
  "win_kind wa \<equiv> io_kind (decode_win wa)"

lemma wp_win_cvt [io_wp]:
  "wp t (win_cvt wa x) Q s = (if x = - 1 then Q (Err (last_error wa s)) s else Q (Ok x) s)"
  by (simp add: win_cvt_def win_is_minus_one_def io_wp)

lemma wp_cvt_bool [io_wp]:
  "wp t (cvt_bool wa x) Q s = (if x = 0 then Q (Err (win_last_os_error wa s)) s else Q (Ok x) s)"
  by (simp add: cvt_bool_def is_zero_def io_wp)

section \<open>Time limits in milliseconds\<close>

definition dur2timeout :: "u32 \<Rightarrow> duration \<Rightarrow> u32" where
  "dur2timeout forever dur =
     (let ms = Option.bind (checked_mul (as_secs dur) 1000)
           (\<lambda>ms. checked_add ms (ucast (subsec_nanos dur) div 1000000));
          ms = Option.bind ms (\<lambda>ms. checked_add ms (if subsec_nanos dur mod 1000000 > 0 then 1 else 0));
          ms = map_option (\<lambda>ms. if ms > 4294967295 then forever else ucast ms) ms
      in case ms of Some t \<Rightarrow> t | None \<Rightarrow> forever)"

text \<open>Milliseconds, rounded up.\<close>

definition dur_ceil_ms :: "duration \<Rightarrow> nat" where
  "dur_ceil_ms d = (dur_ns d + 999999) div 1000000"

lemma dur_ceil_ms_parts:
  "dur_ceil_ms d = unat (as_secs d) * 1000 + unat (subsec_nanos d) div 1000000
     + (if unat (subsec_nanos d) mod 1000000 > 0 then 1 else 0)"
proof -
  define n where "n = unat (subsec_nanos d)"
  have "dur_ceil_ms d = (n + 999999 + 1000000 * (unat (as_secs d) * 1000)) div 1000000"
    by (simp add: dur_ceil_ms_def dur_ns_def nanos_per_sec_def n_def)
  also have "\<dots> = unat (as_secs d) * 1000 + (n + 999999) div 1000000"
    by simp
  also have "(n + 999999) div 1000000 = n div 1000000 + (if n mod 1000000 > 0 then 1 else 0)"
  proof -
    have small: "(r + 999999) div 1000000 = (if r > 0 then 1 else 0)" if "r < 1000000" for r :: nat
      using that by (auto intro: div_nat_eqI)
    have "(n + 999999) div 1000000 = (n div 1000000 * 1000000 + (n mod 1000000 + 999999)) div 1000000"
      by (simp only: div_mult_mod_eq flip: add.assoc)
    also have "\<dots> = n div 1000000 + (n mod 1000000 + 999999) div 1000000"
      by (rule div_mult_self3) simp
    also have "(n mod 1000000 + 999999) div 1000000 = (if n mod 1000000 > 0 then 1 else 0)"
      by (rule small) simp
    finally show ?thesis .
  qed
  finally show ?thesis
    by (simp add: n_def)
qed

lemma checked_add_unat:
  "checked_add a b = (if unat a + unat b < 2 ^ LENGTH('a) then Some (of_nat (unat a + unat b)) else None)"
  for a b :: "'a::len word"
  by (simp add: checked_add_def)

lemma checked_mul_unat:
  "checked_mul a b = (if unat a * unat b < 2 ^ LENGTH('a) then Some (of_nat (unat a * unat b)) else None)"
  for a b :: "'a::len word"
  by (simp add: checked_mul_def)

lemma unat_ucast_u64: "unat (ucast x :: u64) = unat x" for x :: u32
  using unat_u32_less [of x] by (simp add: unsigned_ucast_eq take_bit_nat_eq_self_iff)

lemma millis_chain:
  "Option.bind (Option.bind (checked_mul (as_secs d) 1000)
       (\<lambda>ms. checked_add ms (ucast (subsec_nanos d) div 1000000)))
     (\<lambda>ms. checked_add ms (if subsec_nanos d mod 1000000 > 0 then 1 else 0 :: u64))
   = (if dur_ceil_ms d < 2 ^ 64 then Some (of_nat (dur_ceil_ms d)) else None)"
proof -
  define s where "s = unat (as_secs d) * 1000"
  define n where "n = unat (subsec_nanos d) div 1000000"
  define r where "r = (if unat (subsec_nanos d) mod 1000000 > 0 then 1 else 0 :: nat)"
  have c: "dur_ceil_ms d = s + n + r"
    by (simp only: dur_ceil_ms_parts s_def n_def r_def)
  have un: "unat (ucast (subsec_nanos d) div 1000000 :: u64) = n"
    by (simp add: unat_div unat_ucast_u64 n_def)
  have pos: "subsec_nanos d mod 1000000 > 0 \<longleftrightarrow> unat (subsec_nanos d) mod 1000000 > 0"
    by (simp add: word_less_nat_alt unat_mod)
  have ur: "unat (if subsec_nanos d mod 1000000 > 0 then 1 else 0 :: u64) = r"
    by (simp only: pos r_def split: if_split) simp
  show ?thesis
    unfolding checked_mul_unat checked_add_unat un ur c
    by (simp add: unat_of_nat_small del: of_nat_add flip: s_def)
qed

lemma unat_dur2timeout:
  "unat (dur2timeout forever d) =
     (if dur_ceil_ms d < 2 ^ 32 then dur_ceil_ms d else unat forever)"
proof -
  have "ucast (of_nat k :: u64) = (of_nat k :: u32)" if "k < 2 ^ 32" for k
    using that by (intro word_unat_eq_iff [THEN iffD2])
      (simp add: unsigned_ucast_eq unat_of_nat_small take_bit_nat_eq_self_iff)
  moreover have "(of_nat k :: u64) > 4294967295 \<longleftrightarrow> 2 ^ 32 \<le> k" if "k < 2 ^ 64" for k
    using that by (auto simp: word_less_nat_alt unat_of_nat_small)
  ultimately show ?thesis
    unfolding dur2timeout_def Let_def millis_chain
    by (simp add: unat_of_nat_small not_le)
qed

text \<open>
  C31. A time limit becomes the number of milliseconds it lasts, rounded up, as long as that
  fits 32 bits, and \<open>INFINITE\<close> from there on; no multiplication or addition on the way
  wraps. In particular only the zero duration becomes zero, if \<open>INFINITE\<close> is not zero.
\<close>

theorem dur2timeout_spec:
  "unat (dur2timeout forever d) = (if dur_ceil_ms d < 2 ^ 32 then dur_ceil_ms d else unat forever)
    \<and> (dur2timeout forever d = 0 \<longleftrightarrow> dur_ns d = 0 \<or> 2 ^ 32 \<le> dur_ceil_ms d \<and> forever = 0)"
proof -
  have "dur_ceil_ms d = 0 \<longleftrightarrow> dur_ns d = 0"
    by (auto simp: dur_ceil_ms_def div_eq_0_iff)
  then show ?thesis
    using unat_dur2timeout [of forever d] unat_eq_0 [of "dur2timeout forever d"] unat_eq_0 [of forever]
    by (auto split: if_splits)
qed

end
