(* ===== verification/Win_Bt.thy ===== *)
theory Win_Bt
  imports Win_Sys Common_Sockopt
begin

text \<open>
  The Windows socket (\<open>src/sys/windows/bt.rs\<close>): initialisation, creation and acceptance,
  connecting with a time limit, duplication, transfer of data, options, the inquiry for
  devices and the conversions of addresses.

  The static \<open>START\<close> is part of the state of the functions that reach it: they run on the
  pair of the world and whether the initialisation has been done.
\<close>

datatype win_socket = Win_Socket (win_raw: win_socket_handle)

definition win_drop :: "'w winapi \<Rightarrow> win_socket \<Rightarrow> 'w \<Rightarrow> 'w" where
  "win_drop wa self w = snd (w_close wa (win_raw self) w)"

definition win_as_inner :: "win_socket \<Rightarrow> win_socket_handle" where
  "win_as_inner self = win_raw self"

definition win_from_inner :: "win_socket_handle \<Rightarrow> win_socket" where
  "win_from_inner socket = Win_Socket socket"

definition win_into_inner :: "win_socket \<Rightarrow> win_socket_handle" where
  "win_into_inner self = (let ret = win_raw self in ret)"

section \<open>Addresses\<close>

fun addr_to_u64 :: "win_memory \<Rightarrow> bt_addr \<Rightarrow> u64" where
  "addr_to_u64 ms (BtAddr (Bytes6 b0 b1 b2 b3 b4 b5)) =
     (let sap = u32_from_le_bytes (b0, b1, b2, b3);
          nap = u16_from_le_bytes (b4, b5)
      in set_nap_sap ms nap sap)"

definition bth_addr :: "win_memory \<Rightarrow> sockaddr_bth \<Rightarrow> bt_addr" where
  "bth_addr ms sab = nap_sap (get_nap ms (btAddr sab)) (get_sap ms (btAddr sab))"

definition win_from_storage :: "win_memory \<Rightarrow> u8 list \<Rightarrow> bt_addr" where
  "win_from_storage ms mem = bth_addr ms (bth_of_bytes ms mem)"

text \<open>
  A \<open>sockaddr_storage\<close> with its family, the first two bytes, set and the rest zero.
\<close>

definition storage_of_family :: "win_memory \<Rightarrow> u16 \<Rightarrow> u8 list" where
  "storage_of_family ms family =
     (let (f0, f1) = u16_to_le_bytes family
      in f0 # f1 # replicate (unat (size_storage_lh ms) - 2) 0)"

definition write_bth :: "win_memory \<Rightarrow> sockaddr_bth \<Rightarrow> u8 list \<Rightarrow> u8 list" where
  "write_bth ms sab mem = bth_bytes ms sab @ drop (length (bth_bytes ms sab)) mem"

definition win_to_storage :: "'w winapi \<Rightarrow> bt_addr \<Rightarrow> u8 list \<times> 32 word" where
  "win_to_storage wa a =
     (let addr = storage_of_family (MW wa) (AF_BTH (KW wa));
          sab = bth_of_bytes (MW wa) addr;
          sab = sab\<lparr>btAddr := addr_to_u64 (MW wa) a, serviceClassId := RFCOMM_PROTOCOL_UUID (KW wa)\<rparr>
      in (write_bth (MW wa) sab addr, size_bth (MW wa)))"

definition protocol_guid :: "'w winapi \<Rightarrow> bt_protocol \<Rightarrow> guid" where
  "protocol_guid wa protocol =
     (case protocol of
        L2CAP \<Rightarrow> L2CAP_PROTOCOL_UUID (KW wa)
      | RFCOMM \<Rightarrow> RFCOMM_PROTOCOL_UUID (KW wa))"

section \<open>Creation, acceptance, duplication\<close>

text \<open>\<open>START.call_once\<close>: the closure runs the first time only; its result is dropped.\<close>

definition win_init :: "'w winapi \<Rightarrow> ('w \<times> bool, unit) io" where
  "win_init wa =
     io_bind (io_get snd) (\<lambda>started.
       if started then io_ret ()
       else io_bind (on_world (io_call (dummy_udp_bind wa))) (\<lambda>_. io_modify (\<lambda>s. (fst s, True))))"

text \<open>\<open>match n { INVALID_SOCKET => Err(last_error()), n => Ok(Socket(n)) }\<close>.\<close>

definition win_owned :: "'w winapi \<Rightarrow> win_socket_handle \<Rightarrow> ('w, win_socket) io" where
  "win_owned wa n =
     (if n = INVALID_SOCKET (KW wa) then io_bind (io_get (last_error wa)) io_err
      else io_ret (Win_Socket n))"

definition win_set_no_inherit :: "'w winapi \<Rightarrow> win_socket \<Rightarrow> ('w, unit) io" where
  "win_set_no_inherit wa self =
     io_bind
       (io_bind (io_call (w_set_handle_info wa (win_raw self) (HANDLE_FLAG_INHERIT (KW wa)) 0)) (cvt_bool wa))
       (\<lambda>_. io_ret ())"

definition win_sock_new :: "'w winapi \<Rightarrow> bt_protocol \<Rightarrow> ('w \<times> bool, win_socket) io" where
  "win_sock_new wa protocol =
     io_bind (win_init wa) (\<lambda>_.
       case protocol of
         L2CAP \<Rightarrow> io_err (Custom InvalidData ''L2CAP is currently not supported on Windows'')
       | RFCOMM \<Rightarrow>
           on_world
             (io_bind
               (io_bind
                 (io_call (w_socket wa (ucast (AF_BTH (KW wa))) (W_SOCK_STREAM (KW wa))
                    (BTHPROTO_RFCOMM (KW wa)) None 0 (WSA_FLAG_OVERLAPPED (KW wa))))
                 (win_owned wa))
               (\<lambda>socket. with_drop (win_drop wa socket)
                  (io_bind (win_set_no_inherit wa socket) (\<lambda>_. io_ret socket)))))"

definition win_sock_accept :: "'w winapi \<Rightarrow> win_socket \<Rightarrow> ('w, win_socket \<times> bt_addr) io" where
  "win_sock_accept wa self =
     io_locals (replicate (unat (size_storage_lh (MW wa))) 0, size_bth (MW wa))
       (io_bind
         (io_bind (io_call (out_call (\<lambda>(addr_storage, len). w_accept wa (win_raw self) addr_storage len)))
           (\<lambda>n. on_world (win_owned wa n)))
         (\<lambda>socket. with_drop (\<lambda>s. (win_drop wa socket (fst s), snd s))
            (io_bind (on_world (win_set_no_inherit wa socket)) (\<lambda>_.
               io_bind (io_get (\<lambda>s. bth_addr (MW wa) (bth_of_bytes (MW wa) (fst (snd s))))) (\<lambda>addr.
                 io_ret (socket, addr))))))"

definition no_protocol_info :: protocol_info where
  "no_protocol_info = \<lparr>iAddressFamily = 0, iSocketType = 0, iProtocol = 0, info_rest = []\<rparr>"

definition win_sock_duplicate :: "'w winapi \<Rightarrow> win_socket \<Rightarrow> ('w, win_socket) io" where
  "win_sock_duplicate wa self =
     io_bind
       (io_bind (io_call (w_process_id wa)) (\<lambda>pid.
        io_bind (io_call (w_duplicate wa (win_raw self) pid no_protocol_info)) (\<lambda>(r, info).
        io_bind (win_cvt wa r) (\<lambda>_.
        io_bind (io_call (w_socket wa (iAddressFamily info) (iSocketType info) (iProtocol info) (Some info)
             0 (WSA_FLAG_OVERLAPPED (KW wa))))
          (win_owned wa)))))
       (\<lambda>socket. with_drop (win_drop wa socket)
          (io_bind (win_set_no_inherit wa socket) (\<lambda>_. io_ret socket)))"

section \<open>Options\<close>

text \<open>Every option the backend passes has 32 bits.\<close>

definition win_setsockopt :: "'w winapi \<Rightarrow> win_socket \<Rightarrow> c_int \<Rightarrow> c_int \<Rightarrow> u32 \<Rightarrow> ('w, unit) io" where
  "win_setsockopt wa sock = setsockopt (win_cvt wa) (w_setsockopt_u32 wa) 4 (win_as_inner sock)"

definition win_getsockopt :: "'w winapi \<Rightarrow> win_socket \<Rightarrow> c_int \<Rightarrow> c_int \<Rightarrow> ('w, u32) io" where
  "win_getsockopt wa sock = getsockopt (win_cvt wa) (w_getsockopt_u32 wa) 0 4 (win_as_inner sock)"

definition win_set_timeout :: "'w winapi \<Rightarrow> win_socket \<Rightarrow> duration option \<Rightarrow> c_int \<Rightarrow> ('w, unit) io" where
  "win_set_timeout wa self dur kind =
     io_bind
       (case dur of
          Some dur \<Rightarrow>
            let timeout = dur2timeout (INFINITE (KW wa)) dur in
            if timeout = 0 then io_err (Custom InvalidData ''cannot set a 0 duration timeout'')
            else io_ret timeout
        | None \<Rightarrow> io_ret 0)
       (\<lambda>timeout. win_setsockopt wa self (W_SOL_SOCKET (KW wa)) kind timeout)"

text \<open>
  The product fits 32 bits, so an overflow check, if there is one, never fires.
\<close>

definition win_timeout :: "'w winapi \<Rightarrow> win_socket \<Rightarrow> c_int \<Rightarrow> ('w, duration option) io" where
  "win_timeout wa self kind =
     io_bind (win_getsockopt wa self (W_SOL_SOCKET (KW wa)) kind) (\<lambda>raw.
       if raw = 0 then io_ret None
       else let secs = raw div 1000;
                nsec = (raw mod 1000) * 1000000
            in case dur_new (ucast secs) nsec of
                 None \<Rightarrow> io_panic
               | Some d \<Rightarrow> io_ret (Some d))"

definition win_set_nonblocking :: "'w winapi \<Rightarrow> win_socket \<Rightarrow> bool \<Rightarrow> ('w, unit) io" where
  "win_set_nonblocking wa self nonblocking =
     (let nonblocking = of_bool nonblocking in
      io_bind
        (io_bind (io_call (w_ioctl wa (win_raw self) (W_FIONBIO (KW wa)) nonblocking))
          (\<lambda>r. win_cvt wa (fst r)))
        (\<lambda>_. io_ret ()))"

definition win_shutdown :: "'w winapi \<Rightarrow> win_socket \<Rightarrow> shutdown_how \<Rightarrow> ('w, unit) io" where
  "win_shutdown wa self how =
     (let how = (case how of
          Shutdown_Write \<Rightarrow> SD_SEND (KW wa)
        | Shutdown_Read \<Rightarrow> SD_RECEIVE (KW wa)
        | Shutdown_Both \<Rightarrow> SD_BOTH (KW wa))
      in io_bind (io_bind (io_call (w_shutdown wa (win_raw self) how)) (win_cvt wa)) (\<lambda>_. io_ret ()))"

definition win_take_error :: "'w winapi \<Rightarrow> win_socket \<Rightarrow> ('w, io_error option) io" where
  "win_take_error wa self =
     io_bind (win_getsockopt wa self (W_SOL_SOCKET (KW wa)) (W_SO_ERROR (KW wa))) (\<lambda>raw.
       if raw = 0 then io_ret None else io_ret (Some (Os raw)))"

section \<open>Receiving\<close>

text \<open>The length of a buffer as the \<open>int\<close> the calls take, capped.\<close>

definition win_len :: "u8 list \<Rightarrow> c_int" where
  "win_len buf = ucast (min (buf_len buf) 2147483647)"

text \<open>
  The three branches on the result of a receiving call: a socket that was shut down reads
  as the end of the stream, every other failure is reported.
\<close>

definition win_recv_with_flags ::
    "'w winapi \<Rightarrow> win_socket \<Rightarrow> c_int \<Rightarrow> ('w \<times> u8 list, usize) io" where
  "win_recv_with_flags wa self fl =
     io_bind (io_call (out_call (\<lambda>buf. w_recv wa (win_raw self) buf (win_len buf) fl))) (\<lambda>n.
       if n = - 1
       then io_bind (io_get (\<lambda>s. wsa_error wa (fst s))) (\<lambda>e.
              if e = WSAESHUTDOWN (KW wa) then io_ret 0
              else io_bind (io_get (\<lambda>s. last_error wa (fst s))) io_err)
       else io_ret (scast n))"

definition win_recv_from_with_flags ::
    "'w winapi \<Rightarrow> win_socket \<Rightarrow> c_int \<Rightarrow> ('w \<times> u8 list, usize \<times> bt_addr) io" where
  "win_recv_from_with_flags wa self fl =
     io_locals (replicate (unat (size_storage_lh (MW wa))) 0, size_bth (MW wa))
       (let origin = (\<lambda>s. bth_addr (MW wa) (bth_of_bytes (MW wa) (fst (snd s)))) in
        io_bind
          (io_call (\<lambda>((w, buf), (addr, addrlen)).
             case w_recvfrom wa (win_raw self) buf (win_len buf) fl addr addrlen w of
               ((n, buf', addr', addrlen'), w') \<Rightarrow> (n, ((w', buf'), (addr', addrlen')))))
          (\<lambda>n.
             if n = - 1
             then io_bind (io_get (\<lambda>s. wsa_error wa (fst (fst s)))) (\<lambda>e.
                    if e = WSAESHUTDOWN (KW wa)
                    then io_bind (io_get origin) (\<lambda>a. io_ret (0, a))
                    else io_bind (io_get (\<lambda>s. last_error wa (fst (fst s)))) io_err)
             else io_bind (io_get origin) (\<lambda>a. io_ret (scast n, a))))"

definition win_peek :: "'w winapi \<Rightarrow> win_socket \<Rightarrow> ('w \<times> u8 list, usize) io" where
  "win_peek wa self = win_recv_with_flags wa self (W_MSG_PEEK (KW wa))"

definition win_read :: "'w winapi \<Rightarrow> win_socket \<Rightarrow> ('w \<times> u8 list, usize) io" where
  "win_read wa self = win_recv_with_flags wa self 0"

definition win_peek_from :: "'w winapi \<Rightarrow> win_socket \<Rightarrow> ('w \<times> u8 list, usize \<times> bt_addr) io" where
  "win_peek_from wa self = win_recv_from_with_flags wa self (W_MSG_PEEK (KW wa))"

definition win_recv_from :: "'w winapi \<Rightarrow> win_socket \<Rightarrow> ('w \<times> u8 list, usize \<times> bt_addr) io" where
  "win_recv_from wa self = win_recv_from_with_flags wa self 0"

section \<open>Connecting with a time limit\<close>

text \<open>The limit given to \<open>select\<close>: the seconds are cast to a 32-bit \<open>long\<close>.\<close>

definition win_timeval_of :: "duration \<Rightarrow> win_timeval" where
  "win_timeval_of timeout =
     (let tv_sec = ucast (as_secs timeout);
          tv_usec = subsec_micros timeout;
          tv_usec = (if tv_sec = 0 \<and> tv_usec = 0 then 1 else tv_usec)
      in Win_Timeval tv_sec tv_usec)"

definition win_await :: "'w winapi \<Rightarrow> win_socket \<Rightarrow> duration \<Rightarrow> ('w, unit) io" where
  "win_await wa self timeout =
     (if as_secs timeout = 0 \<and> subsec_nanos timeout = 0
      then io_err (Custom InvalidInput ''cannot set a 0 duration timeout'')
      else
        let fds = \<lparr>fd_count = 1, fd_array = (replicate 64 0)[0 := win_raw self]\<rparr> in
        io_bind (io_call (w_select wa 1 fds fds (win_timeval_of timeout))) (\<lambda>(r, writefds, errorfds).
        io_bind (win_cvt wa r) (\<lambda>n.
          if n = 0 then io_err (Custom TimedOut ''connection timed out'')
          else if fd_count writefds \<noteq> 1
          then io_bind (win_take_error wa self) (\<lambda>e.
                 case e of Some e \<Rightarrow> io_err e | None \<Rightarrow> io_ret ())
          else io_ret ())))"

text \<open>
  The block passed to \<open>connect\<close> is longer than the structure at its start; the bytes behind
  the structure are never written and the length passed excludes them.
\<close>

definition win_connect_addr :: "'w winapi \<Rightarrow> bt_addr \<Rightarrow> sockaddr_bth" where
  "win_connect_addr wa addr =
     \<lparr>addressFamily = AF_BTH (KW wa), btAddr = addr_to_u64 (MW wa) addr, serviceClassId = 0, bth_port = 0\<rparr>"

definition win_connect_timeout ::
    "'w winapi \<Rightarrow> win_socket \<Rightarrow> bt_addr \<Rightarrow> duration \<Rightarrow> ('w, unit) io" where
  "win_connect_timeout wa self addr timeout =
     io_bind (win_set_nonblocking wa self True) (\<lambda>_.
     io_bind
       (io_result
         (io_bind
           (io_call (w_connect wa (win_raw self) (bth_bytes (MW wa) (win_connect_addr wa addr))
              (size_bth (MW wa))))
           (win_cvt wa))) (\<lambda>r.
     io_bind (win_set_nonblocking wa self False) (\<lambda>_.
       case r of
         Inr _ \<Rightarrow> io_ret ()
       | Inl e \<Rightarrow> if win_kind wa e = WouldBlock then win_await wa self timeout else io_err e)))"

section \<open>Discovery\<close>

definition resize_with :: "nat \<Rightarrow> usize list \<Rightarrow> usize list" where
  "resize_with n xs = take n xs @ replicate (n - length xs) 0"

partial_function (option) lookup_loop ::
    "'w winapi \<Rightarrow> win_handle \<Rightarrow> usize list \<Rightarrow> bt_addr list \<Rightarrow> ('w, bt_addr list) io" where
  "lookup_loop wa handle buffer addresses w =
     (let r = w_lookup_next wa handle (LUP_CONTAINERS (KW wa) OR LUP_RETURN_ADDR (KW wa))
                (of_nat (length buffer * 8)) buffer w;
          len = fst (snd (fst r));
          buffer = snd (snd (fst r));
          w = snd r
      in if fst (fst r) = 0
         then lookup_loop wa handle buffer (addresses @ [bth_addr (MW wa) (query_remote wa buffer w)]) w
         else if wsa_error wa w = WSA_E_NO_MORE (KW wa) then Some (Ok addresses, w)
         else if wsa_error wa w = WSAEFAULT (KW wa)
         then lookup_loop wa handle (resize_with (1 + unat len div 8) buffer) addresses w
         else Some (Err (last_error wa w), w))"

declare lookup_loop.simps [code]

definition win_discover_devices :: "'w winapi \<Rightarrow> ('w \<times> bool, bt_addr list) io" where
  "win_discover_devices wa =
     io_bind (win_init wa) (\<lambda>_. on_world
       (io_bind
         (io_call (w_lookup_begin wa \<lparr>dwSize = ucast (size_query (MW wa)), dwNameSpace = NS_BTH (KW wa)\<rparr>
            (LUP_CONTAINERS (KW wa) OR LUP_FLUSHCACHE (KW wa)) 0)) (\<lambda>(r, handle).
        if r \<noteq> 0 then io_bind (io_get (last_error wa)) io_err else
        io_bind (lookup_loop wa handle (replicate (unat (size_query (MW wa)) div 8) 0) []) (\<lambda>addresses.
        io_bind (io_call (w_lookup_end wa handle)) (\<lambda>r.
          if r \<noteq> 0 then io_bind (io_get (last_error wa)) io_err else io_ret addresses)))))"

end
