(* ===== verification/Win_Kernel.thy ===== *)
theory Win_Kernel
  imports Win_Bt
begin

text \<open>
  What the Windows documentation says of the socket calls, as a predicate over a view of
  the process (its open sockets, those a child process inherits, the lookups under way),
  and the ownership of the sockets the backend creates.
\<close>

section \<open>A view of the process\<close>

record 'w wview =
  w_opened :: "'w \<Rightarrow> win_socket_handle set"
  w_inherited :: "'w \<Rightarrow> win_handle set"
  w_lookups :: "'w \<Rightarrow> win_handle set"

definition w_neutral :: "'w wview \<Rightarrow> ('w, 'a) call \<Rightarrow> bool" where
  "w_neutral V c \<longleftrightarrow> (\<forall>w. w_opened V (snd (c w)) = w_opened V w
     \<and> w_lookups V (snd (c w)) = w_lookups V w)"

definition w_opens :: "'w wview \<Rightarrow> win_socket_handle \<Rightarrow> ('w, 'a) call \<Rightarrow> ('a \<Rightarrow> win_socket_handle) \<Rightarrow> bool" where
  "w_opens V bad c ret \<longleftrightarrow> (\<forall>w. let h = ret (fst (c w)) in
     w_lookups V (snd (c w)) = w_lookups V w
   \<and> (if h = bad then w_opened V (snd (c w)) = w_opened V w
      else h \<notin> w_opened V w \<and> w_opened V (snd (c w)) = insert h (w_opened V w)))"

section \<open>The documented behaviour\<close>

text \<open>Sending, receiving, shutting down and asking for names open and close nothing.\<close>

definition win_data_laws :: "'w winapi \<Rightarrow> 'w wview \<Rightarrow> bool" where
  "win_data_laws wa V \<longleftrightarrow>
     (\<forall>s b n fl. w_neutral V (w_recv wa s b n fl))
   \<and> (\<forall>s b n fl a an. w_neutral V (w_recvfrom wa s b n fl a an))
   \<and> (\<forall>s b n fl. w_neutral V (w_send wa s b n fl))
   \<and> (\<forall>s b n fl a an. w_neutral V (w_sendto wa s b n fl a an))
   \<and> (\<forall>s how. w_neutral V (w_shutdown wa s how))
   \<and> (\<forall>s a n. w_neutral V (w_getsockname wa s a n)) \<and> (\<forall>s a n. w_neutral V (w_getpeername wa s a n))"

text \<open>
  \<open>WSASocketW\<close> and \<open>accept\<close> return a socket that was not open or \<open>INVALID_SOCKET\<close>,
  \<open>closesocket\<close> closes; clearing \<open>HANDLE_FLAG_INHERIT\<close> keeps a handle from children unless
  it returns zero; \<open>WSALookupServiceBeginW\<close> opens a lookup that \<open>WSALookupServiceEnd\<close>
  closes. The other calls the backend makes open and close nothing.
\<close>

definition winsock_ok :: "'w winapi \<Rightarrow> 'w wview \<Rightarrow> bool" where
  "winsock_ok wa V \<longleftrightarrow>
     (\<forall>af ty p i g fl. w_opens V (INVALID_SOCKET (KW wa)) (w_socket wa af ty p i g fl) id)
   \<and> (\<forall>s b n. w_opens V (INVALID_SOCKET (KW wa)) (w_accept wa s b n) fst)
   \<and> (\<forall>s w. w_opened V (snd (w_close wa s w)) = w_opened V w - {s}
        \<and> w_lookups V (snd (w_close wa s w)) = w_lookups V w)
   \<and> (\<forall>h f v. w_neutral V (w_set_handle_info wa h f v))
   \<and> (\<forall>h w. fst (w_set_handle_info wa h (HANDLE_FLAG_INHERIT (KW wa)) 0 w) \<noteq> 0 \<longrightarrow>
        h \<notin> w_inherited V (snd (w_set_handle_info wa h (HANDLE_FLAG_INHERIT (KW wa)) 0 w)))
   \<and> w_neutral V (dummy_udp_bind wa) \<and> w_neutral V (w_process_id wa)
   \<and> (\<forall>s pid i. w_neutral V (w_duplicate wa s pid i))
   \<and> (\<forall>s a n. w_neutral V (w_connect wa s a n)) \<and> (\<forall>s a n. w_neutral V (w_bind wa s a n))
   \<and> (\<forall>s n. w_neutral V (w_listen wa s n)) \<and> (\<forall>n f g t. w_neutral V (w_select wa n f g t))
   \<and> (\<forall>s c v. w_neutral V (w_ioctl wa s c v))
   \<and> (\<forall>s l x v n. w_neutral V (w_setsockopt_u32 wa s l x v n))
   \<and> (\<forall>s l x v n. w_neutral V (w_getsockopt_u32 wa s l x v n))
   \<and> (\<forall>h fl n b. w_neutral V (w_lookup_next wa h fl n b))
   \<and> (\<forall>q fl h w. let r = w_lookup_begin wa q fl h w in
        w_opened V (snd r) = w_opened V w
      \<and> (if fst (fst r) = 0
         then snd (fst r) \<notin> w_lookups V w \<and> w_lookups V (snd r) = insert (snd (fst r)) (w_lookups V w)
         else w_lookups V (snd r) = w_lookups V w))
   \<and> (\<forall>h w. w_opened V (snd (w_lookup_end wa h w)) = w_opened V w
        \<and> w_lookups V (snd (w_lookup_end wa h w)) = w_lookups V w - {h})
   \<and> win_data_laws wa V"

lemma winsock_opens:
  assumes "winsock_ok wa V"
  shows "w_opens V (INVALID_SOCKET (KW wa)) (w_socket wa af ty p i g fl) id"
    and "w_opens V (INVALID_SOCKET (KW wa)) (w_accept wa s b n) fst"
  using assms by (simp_all add: winsock_ok_def)

lemma winsock_neutral:
  assumes "winsock_ok wa V"
  shows "w_neutral V (w_set_handle_info wa h f v)" "w_neutral V (dummy_udp_bind wa)"
    "w_neutral V (w_process_id wa)" "w_neutral V (w_duplicate wa s pid i)"
    "w_neutral V (w_connect wa s a n)" "w_neutral V (w_bind wa s a n)" "w_neutral V (w_listen wa s k)"
    "w_neutral V (w_select wa k f1 f2 t)" "w_neutral V (w_ioctl wa s k v)"
    "w_neutral V (w_setsockopt_u32 wa s k x v n)" "w_neutral V (w_getsockopt_u32 wa s k x v n)"
    "w_neutral V (w_lookup_next wa h fl n ub)"
  using assms by (simp_all add: winsock_ok_def)

lemma win_data_neutral:
  assumes "winsock_ok wa V"
  shows "w_neutral V (w_recv wa s b k fl)" "w_neutral V (w_recvfrom wa s b k fl a n)"
    "w_neutral V (w_send wa s b k fl)" "w_neutral V (w_sendto wa s b k fl a n)"
    "w_neutral V (w_shutdown wa s k)" "w_neutral V (w_getsockname wa s a n)"
    "w_neutral V (w_getpeername wa s a n)"
  using assms by (simp_all add: winsock_ok_def win_data_laws_def)

lemma w_neutral_views:
  "w_neutral V c \<Longrightarrow> w_opened V (snd (c w)) = w_opened V w"
  "w_neutral V c \<Longrightarrow> w_lookups V (snd (c w)) = w_lookups V w"
  by (simp_all add: w_neutral_def)

lemmas win_data_views = win_data_neutral [THEN w_neutral_views(1)]
lemmas winsock_views = winsock_neutral [THEN w_neutral_views(1)] winsock_neutral [THEN w_neutral_views(2)]

lemma w_opens_views:
  assumes "w_opens V bad c ret"
  shows "ret (fst (c w)) = bad \<Longrightarrow> w_opened V (snd (c w)) = w_opened V w"
    and "ret (fst (c w)) \<noteq> bad \<Longrightarrow> ret (fst (c w)) \<notin> w_opened V w
      \<and> w_opened V (snd (c w)) = insert (ret (fst (c w))) (w_opened V w)"
  using assms [unfolded w_opens_def, rule_format, of w] by (simp_all add: Let_def)

lemma winsock_close:
  assumes "winsock_ok wa V"
  shows "w_opened V (win_drop wa s w) = w_opened V w - {win_raw s}"
  using assms by (simp add: winsock_ok_def win_drop_def)

lemma winsock_no_inherit:
  assumes "winsock_ok wa V"
    and "fst (w_set_handle_info wa h (HANDLE_FLAG_INHERIT (KW wa)) 0 w) \<noteq> 0"
  shows "h \<notin> w_inherited V (snd (w_set_handle_info wa h (HANDLE_FLAG_INHERIT (KW wa)) 0 w))"
  using assms by (simp add: winsock_ok_def)

lemma winsock_lookup:
  assumes "winsock_ok wa V"
  shows "w_opened V (snd (w_lookup_begin wa q fl h w)) = w_opened V w"
    and "fst (fst (w_lookup_begin wa q fl h w)) \<noteq> 0 \<Longrightarrow>
      w_lookups V (snd (w_lookup_begin wa q fl h w)) = w_lookups V w"
    and "fst (fst (w_lookup_begin wa q fl h w)) = 0 \<Longrightarrow>
      snd (fst (w_lookup_begin wa q fl h w)) \<notin> w_lookups V w
      \<and> w_lookups V (snd (w_lookup_begin wa q fl h w))
        = insert (snd (fst (w_lookup_begin wa q fl h w))) (w_lookups V w)"
    and "w_lookups V (snd (w_lookup_end wa h w)) = w_lookups V w - {h}"
    and "w_opened V (snd (w_lookup_end wa h w)) = w_opened V w"
  using assms unfolding winsock_ok_def Let_def by presburger+

section \<open>Sockets are not leaked\<close>

lemma leaves_win_cvt [intro]: "leaves opn (win_cvt wa x)"
  by (rule acquiresI) (simp add: io_wp)

lemma leaves_cvt_bool [intro]: "leaves opn (cvt_bool wa x)"
  by (rule acquiresI) (simp add: io_wp)

lemma leaves_w_neutral: "w_neutral V c \<Longrightarrow> leaves (w_opened V) (io_call c)"
  by (rule leaves_call) (simp add: w_neutral_views)

lemma acquires_w_owned:
  assumes "w_opens V (INVALID_SOCKET (KW wa)) c id"
  shows "acquires (w_opened V) (io_bind (io_call c) (win_owned wa)) (\<lambda>s. {win_raw s})"
  by (rule acquiresI) (use w_opens_views [OF assms] in \<open>simp add: win_owned_def io_wp\<close>)

lemma leaves_win_set_no_inherit:
  assumes "winsock_ok wa V"
  shows "leaves (w_opened V) (win_set_no_inherit wa s)"
  unfolding win_set_no_inherit_def
  by (intro acquires_bind leaves_w_neutral winsock_neutral [OF assms] leaves_cvt_bool acquires_ret) simp

lemma completes_win_no_inherit:
  assumes "winsock_ok wa V"
  shows "completes (w_opened V)
    (with_drop (win_drop wa s) (io_bind (win_set_no_inherit wa s) (\<lambda>_. io_ret s))) (\<lambda>s. {win_raw s}) {win_raw s}"
  by (intro completes_with_drop transfers_bind leaves_win_set_no_inherit [OF assms])
    (auto simp: winsock_close [OF assms])

lemma leaves_win_init:
  assumes "winsock_ok wa V"
  shows "leaves (\<lambda>s. w_opened V (fst s)) (win_init wa)"
  by (rule acquiresI) (simp add: win_init_def io_wp winsock_views [OF assms])

lemma acquires_win_sock_new:
  assumes "winsock_ok wa V"
  shows "acquires (\<lambda>s. w_opened V (fst s)) (win_sock_new wa protocol) (\<lambda>s. {win_raw s})"
proof -
  have "acquires (\<lambda>s. w_opened V (fst s)) (on_world (io_bind
      (io_bind (io_call (w_socket wa af ty p None 0 fl)) (win_owned wa)) (\<lambda>socket. with_drop (win_drop wa socket)
        (io_bind (win_set_no_inherit wa socket) (\<lambda>_. io_ret socket))))) (\<lambda>s. {win_raw s})" for af ty p fl
    by (rule acquires_on_world, rule acquires_bind_owned [OF acquires_w_owned completes_win_no_inherit])
      (rule winsock_opens [OF assms], rule assms)
  then show ?thesis
    unfolding win_sock_new_def
    by (intro acquires_bind leaves_win_init [OF assms]) (auto split: bt_protocol.split)
qed

lemma acquires_win_sock_duplicate:
  assumes "winsock_ok wa V"
  shows "acquires (w_opened V) (win_sock_duplicate wa self) (\<lambda>s. {win_raw s})"
  unfolding win_sock_duplicate_def
proof (rule acquires_bind_owned [OF _ completes_win_no_inherit [OF assms]])
  note neutral = leaves_w_neutral [OF winsock_neutral(3) [OF assms]]
    leaves_w_neutral [OF winsock_neutral(4) [OF assms]]
  show "acquires (w_opened V) (io_bind (io_call (w_process_id wa)) (\<lambda>pid.
        io_bind (io_call (w_duplicate wa (win_raw self) pid no_protocol_info)) (\<lambda>(r, info).
        io_bind (win_cvt wa r) (\<lambda>_.
        io_bind (io_call (w_socket wa (iAddressFamily info) (iSocketType info) (iProtocol info) (Some info)
             0 (WSA_FLAG_OVERLAPPED (KW wa))))
          (win_owned wa))))) (\<lambda>s. {win_raw s})"
    by (intro acquires_bind neutral)
      (auto intro!: acquires_bind acquires_w_owned winsock_opens [OF assms] split: prod.split)
qed

lemma acquires_win_sock_accept:
  assumes "winsock_ok wa V"
  shows "acquires (w_opened V) (win_sock_accept wa self) (\<lambda>r. {win_raw (fst r)})"
proof -
  have made: "acquires (\<lambda>s. w_opened V (fst s))
      (io_bind (io_call (out_call (\<lambda>(b, len). w_accept wa (win_raw self) b len)))
        (\<lambda>n. on_world (win_owned wa n))) (\<lambda>s. {win_raw s})"
    by (rule acquiresI)
      (use w_opens_views [OF winsock_opens(2) [OF assms]] in \<open>simp add: win_owned_def io_wp split_beta\<close>)
  have "completes (\<lambda>s. w_opened V (fst s))
      (with_drop (\<lambda>s. (win_drop wa socket (fst s), snd s))
            (io_bind (on_world (win_set_no_inherit wa socket)) (\<lambda>_.
               io_bind (io_get f) (\<lambda>addr. io_ret (socket, addr)))))
      (\<lambda>r. {win_raw (fst r)}) {win_raw socket}"
    for socket and f :: "'a \<times> u8 list \<times> 32 word \<Rightarrow> bt_addr"
    by (intro completes_with_drop transfers_bind acquires_on_world leaves_win_set_no_inherit [OF assms])
      (auto simp: winsock_close [OF assms])
  then show ?thesis
    unfolding win_sock_accept_def by (rule acquires_locals [OF acquires_bind_owned [OF made]])
qed

end
