(* ===== verification/Win_Sim.thy ===== *)
theory Win_Sim
  imports Win_Kernel Connection
begin

text \<open>
  A small executable Winsock with the constants of the Windows headers. It models no part
  of the program: it is the concrete instance of the API at which the hypotheses of the
  properties of the Windows backend are shown to hold.

  As in the Unix instance, a call that may fail takes the next code of \<open>x_script\<close>.
\<close>

record wsim =
  x_open :: "win_socket_handle list"
  x_inherit :: "win_handle list"
  x_lookups :: "win_handle list"
  x_error :: c_int
  x_script :: "c_int list"
  x_opt :: u32
  x_local :: "u8 list"
  x_peer :: "u8 list"
  x_inbox :: "u8 list"
  x_sent :: "u8 list list"
  x_found :: "sockaddr_bth list"
  x_current :: sockaddr_bth
  x_conn :: connection
  x_nb :: "win_socket_handle list"
  x_caller :: sockaddr_bth

definition no_bth :: sockaddr_bth where
  "no_bth = \<lparr>addressFamily = 0, btAddr = 0, serviceClassId = 0, bth_port = 0\<rparr>"

definition wsim_init :: wsim where
  "wsim_init = \<lparr>x_open = [], x_inherit = [], x_lookups = [], x_error = 0, x_script = [], x_opt = 0,
     x_local = [], x_peer = [], x_inbox = [], x_sent = [], x_found = [], x_current = no_bth,
     x_conn = Idle, x_nb = [], x_caller = no_bth\<rparr>"

definition x_fails :: "'a \<Rightarrow> (wsim, 'a) call \<Rightarrow> (wsim, 'a) call" where
  "x_fails bad c w =
     (case x_script w of
        [] \<Rightarrow> c w
      | e # es \<Rightarrow>
          if e = 0 then c (w\<lparr>x_script := es\<rparr>) else (bad, w\<lparr>x_script := es, x_error := e\<rparr>))"

definition x_handles :: "64 word list" where
  "x_handles = map (\<lambda>n. of_nat (4 * n)) [1..<32]"

definition x_alloc :: "(wsim, 64 word) call" where
  "x_alloc w =
     (case find (\<lambda>h. h \<notin> set (x_open w)) x_handles of
        None \<Rightarrow> (- 1, w\<lparr>x_error := 10024\<rparr>)
      | Some h \<Rightarrow> (h, w\<lparr>x_open := h # x_open w, x_inherit := h # x_inherit w\<rparr>))"

definition x_ok :: "(wsim, c_int) call" where
  "x_ok = x_fails (- 1) (\<lambda>w. (0, w))"

definition u64_list :: "u64 \<Rightarrow> u8 list" where
  "u64_list x = map (\<lambda>i. ucast (drop_bit (8 * i) x)) [0..<8]"

definition x_bth_bytes :: "sockaddr_bth \<Rightarrow> u8 list" where
  "x_bth_bytes b =
     (let (f0, f1) = u16_to_le_bytes (addressFamily b); (p0, p1, p2, p3) = u32_to_le_bytes (bth_port b)
      in [f0, f1] @ u64_list (btAddr b) @ map (\<lambda>i. ucast (drop_bit (8 * i) (serviceClassId b))) [0..<16]
         @ [p0, p1, p2, p3])"

text \<open>Little endian digits to a word.\<close>

definition of_le :: "u8 list \<Rightarrow> 'a::len word" where
  "of_le bs = foldr (\<lambda>b acc. ucast b OR push_bit 8 acc) bs 0"

definition x_bth_of_bytes :: "u8 list \<Rightarrow> sockaddr_bth" where
  "x_bth_of_bytes bs =
     \<lparr>addressFamily = u16_from_le_bytes (bs ! 0, bs ! 1), btAddr = of_le (take 8 (drop 2 bs)),
      serviceClassId = of_le (take 16 (drop 10 bs)),
      bth_port = u32_from_le_bytes (bs ! 26, bs ! 27, bs ! 28, bs ! 29)\<rparr>"

definition x_memory :: win_memory where
  "x_memory = \<lparr>size_bth = 30, size_storage_lh = 128, size_query = 120, bth_bytes = x_bth_bytes,
     bth_of_bytes = x_bth_of_bytes, get_nap = (\<lambda>x. ucast (drop_bit 32 x)), get_sap = ucast,
     set_nap_sap = (\<lambda>nap sap. push_bit 32 (ucast nap) OR ucast sap)\<rparr>"

definition x_consts :: win_consts where
  "x_consts = \<lparr>AF_BTH = 32, W_SOCK_STREAM = 1, BTHPROTO_RFCOMM = 3, WSA_FLAG_OVERLAPPED = 1,
     INVALID_SOCKET = - 1, WSAESHUTDOWN = 10058, WSAEWOULDBLOCK = 10035, WSA_E_NO_MORE = 10110,
     WSAEFAULT = 10014, W_MSG_PEEK = 2, W_SOL_SOCKET = 65535, W_SO_ERROR = 4103, W_SO_REUSEADDR = 4,
     W_SO_RCVTIMEO = 4102, W_SO_SNDTIMEO = 4101, W_FIONBIO = - 2147195266, SD_SEND = 1,
     SD_RECEIVE = 0, SD_BOTH = 2, HANDLE_FLAG_INHERIT = 1, INFINITE = - 1, LUP_CONTAINERS = 2,
     LUP_FLUSHCACHE = 4096, LUP_RETURN_ADDR = 256, NS_BTH = 16,
     L2CAP_PROTOCOL_UUID = 256, RFCOMM_PROTOCOL_UUID = 3\<rparr>"

definition x_recv :: "u8 list \<Rightarrow> c_int \<Rightarrow> (wsim, c_int \<times> u8 list) call" where
  "x_recv buf n = x_fails (- 1, buf) (\<lambda>w.
     let d = take (unat n) (x_inbox w) in
     ((of_nat (length d), d @ drop (length d) buf), w\<lparr>x_inbox := drop (length d) (x_inbox w)\<rparr>))"

definition x_name :: "u8 list \<Rightarrow> u8 list \<Rightarrow> u8 list" where
  "x_name name buf = take (length buf) name @ drop (length name) buf"

text \<open>Accepting takes the call of \<open>x_caller\<close>.\<close>

definition x_accept :: "u8 list \<Rightarrow> 32 word \<Rightarrow> (wsim, 64 word \<times> u8 list \<times> 32 word) call" where
  "x_accept b n w =
     (let caller = x_bth_bytes (x_caller w) in
      case x_alloc w of (h, w') \<Rightarrow> ((h, x_name caller b, n), w'\<lparr>x_peer := caller\<rparr>))"

text \<open>
  A connection is made at once, or is under way when the script says \<open>WSAEWOULDBLOCK\<close> unless
  the peer refuses, which \<open>x_conn\<close> says beforehand; \<open>select\<close> finds it decided.
\<close>

definition x_connect :: "u8 list \<Rightarrow> (wsim, c_int) call" where
  "x_connect a w =
     (case x_fails (- 1) (\<lambda>w. (0, w\<lparr>x_peer := a\<rparr>)) w of
        (r, w') \<Rightarrow> (r, w'\<lparr>x_conn := (if r \<noteq> - 1 then Established
           else if x_error w' = 10035 \<and> x_conn w' \<noteq> Refused then Underway else x_conn w')\<rparr>))"

definition x_select :: "fd_set \<Rightarrow> (wsim, c_int \<times> fd_set \<times> fd_set) call" where
  "x_select f = x_fails (- 1, f, f) (\<lambda>w.
     if x_conn w = Refused then ((1, f\<lparr>fd_count := 0\<rparr>, f), w)
     else ((1, f, f\<lparr>fd_count := 0\<rparr>), w\<lparr>x_conn := Established\<rparr>))"

definition x_ioctl :: "win_socket_handle \<Rightarrow> u32 \<Rightarrow> (wsim, c_int \<times> u32) call" where
  "x_ioctl s v = x_fails (- 1, v) (\<lambda>w.
     ((0, v), w\<lparr>x_nb := (if v \<noteq> 0 then List.insert s (x_nb w) else removeAll s (x_nb w))\<rparr>))"

definition x_api :: "wsim winapi" where
  "x_api = \<lparr>KW = x_consts, MW = x_memory,
     decode_win = (\<lambda>c. if c = 10035 then WouldBlock else if c = 10061 then ConnectionRefused else Other),
     wsa_error = x_error, win_error = x_error, dummy_udp_bind = (\<lambda>w. ((), w)),
     w_socket = (\<lambda>af ty p i g fl. x_fails (- 1) x_alloc),
     w_accept = (\<lambda>s b n. x_fails (- 1, b, n) (x_accept b n)),
     w_connect = (\<lambda>s a n. x_connect (take (unat n) a)),
     w_bind = (\<lambda>s a n. x_fails (- 1) (\<lambda>w. (0, w\<lparr>x_local := take (unat n) a\<rparr>))), w_listen = (\<lambda>s n. x_ok),
     w_select = (\<lambda>n f g t. x_select f),
     w_duplicate = (\<lambda>s pid i. x_fails (- 1, i) (\<lambda>w. ((0, i\<lparr>iAddressFamily := 32\<rparr>), w))),
     w_process_id = (\<lambda>w. (77, w)),
     w_recv = (\<lambda>s b n fl. x_recv b n),
     w_recvfrom = (\<lambda>s b n fl a an w.
        case x_recv b n w of ((r, b'), w') \<Rightarrow> ((r, b', x_name (x_peer w) a, an), w')),
     w_send = (\<lambda>s b n fl. x_fails (- 1) (\<lambda>w. (n, w\<lparr>x_sent := take (unat n) b # x_sent w\<rparr>))),
     w_sendto = (\<lambda>s b n fl a an. x_fails (- 1) (\<lambda>w. (n, w\<lparr>x_sent := take (unat n) b # x_sent w\<rparr>))),
     w_setsockopt_u32 = (\<lambda>s l x v n. x_fails (- 1) (\<lambda>w. (0, w\<lparr>x_opt := v\<rparr>))),
     w_getsockopt_u32 = (\<lambda>s l x v n. x_fails (- 1, v, n) (\<lambda>w.
        ((0, if x = 4103 \<and> x_conn w = Refused then 10061 else x_opt w, 4), w))),
     w_getsockname = (\<lambda>s b n. x_fails (- 1, b, n) (\<lambda>w. ((0, x_name (x_local w) b, 30), w))),
     w_getpeername = (\<lambda>s b n. x_fails (- 1, b, n) (\<lambda>w. ((0, x_name (x_peer w) b, 30), w))),
     w_ioctl = (\<lambda>s c v. x_ioctl s v),
     w_shutdown = (\<lambda>s how. x_ok),
     w_close = (\<lambda>s w. (0, w\<lparr>x_open := removeAll s (x_open w)\<rparr>)),
     w_set_handle_info = (\<lambda>h f v. x_fails 0 (\<lambda>w. (1, w\<lparr>x_inherit := removeAll h (x_inherit w)\<rparr>))),
     w_lookup_begin = (\<lambda>q fl h. x_fails (- 1, h) (\<lambda>w.
        case find (\<lambda>h. h \<notin> set (x_lookups w)) x_handles of
          None \<Rightarrow> ((- 1, h), w) | Some h \<Rightarrow> ((0, h), w\<lparr>x_lookups := h # x_lookups w\<rparr>))),
     w_lookup_next = (\<lambda>h fl n b. x_fails (- 1, n + 8, b) (\<lambda>w.
        case x_found w of
          [] \<Rightarrow> ((- 1, n, b), w\<lparr>x_error := 10110\<rparr>)
        | a # as \<Rightarrow> ((0, n, b), w\<lparr>x_found := as, x_current := a\<rparr>))),
     w_lookup_end = (\<lambda>h w. (0, w\<lparr>x_lookups := removeAll h (x_lookups w)\<rparr>)),
     query_remote = (\<lambda>b w. x_current w)\<rparr>"

definition x_view :: "wsim wview" where
  "x_view = \<lparr>w_opened = (\<lambda>w. set (x_open w)), w_inherited = (\<lambda>w. set (x_inherit w)),
     w_lookups = (\<lambda>w. set (x_lookups w))\<rparr>"

section \<open>It behaves as documented\<close>

lemma x_view_simps [simp]:
  "w_opened x_view w = set (x_open w)" "w_inherited x_view w = set (x_inherit w)"
  "w_lookups x_view w = set (x_lookups w)"
  by (simp_all add: x_view_def)

lemma x_handles_nth: "i < length x_handles \<Longrightarrow> x_handles ! i \<noteq> - 1"
proof -
  have "list_all (\<lambda>h. h \<noteq> - 1) x_handles"
    by code_simp
  then show "i < length x_handles \<Longrightarrow> x_handles ! i \<noteq> - 1"
    by (simp add: list_all_length)
qed

lemma x_alloc_opens:
  "w_opens x_view (- 1) (x_fails (- 1) x_alloc) id"
  "w_opens x_view (- 1) (x_fails (- 1, b, n) (x_accept b n)) fst"
  unfolding w_opens_def
  by (auto simp: x_fails_def x_accept_def x_alloc_def find_Some_iff x_handles_nth Let_def
      split: list.split option.split)

lemma x_neutral_fails: "w_neutral x_view c \<Longrightarrow> w_neutral x_view (x_fails bad c)"
  by (simp add: w_neutral_def x_fails_def split: list.splits)

lemma x_neutralI:
  "(\<And>w. x_open (snd (c w)) = x_open w) \<Longrightarrow> (\<And>w. x_lookups (snd (c w)) = x_lookups w)
     \<Longrightarrow> w_neutral x_view c"
  by (simp add: w_neutral_def)

lemma x_lookup_laws:
  "w_opened x_view (snd (w_lookup_begin x_api q fl h w)) = w_opened x_view w
   \<and> (if fst (fst (w_lookup_begin x_api q fl h w)) = 0
      then snd (fst (w_lookup_begin x_api q fl h w)) \<notin> w_lookups x_view w
        \<and> w_lookups x_view (snd (w_lookup_begin x_api q fl h w))
          = insert (snd (fst (w_lookup_begin x_api q fl h w))) (w_lookups x_view w)
      else w_lookups x_view (snd (w_lookup_begin x_api q fl h w)) = w_lookups x_view w)"
  by (auto simp: x_api_def x_fails_def find_Some_iff split: list.split option.split)

lemma x_inherit_law:
  "fst (w_set_handle_info x_api h f 0 w) \<noteq> 0 \<longrightarrow>
     h \<notin> w_inherited x_view (snd (w_set_handle_info x_api h f 0 w))"
  by (simp add: x_api_def x_fails_def split: list.split)

theorem x_winsock_ok: "winsock_ok x_api x_view"
proof -
  have n: "w_neutral x_view (w_lookup_next x_api h fl n b)" for h fl n b
    unfolding x_api_def by (auto intro!: x_neutral_fails x_neutralI split: list.split)
  have data: "win_data_laws x_api x_view"
    unfolding win_data_laws_def x_api_def
    by (auto simp: x_ok_def x_recv_def x_fails_def Let_def split_beta intro!: x_neutralI split: list.split)
  have c: "w_neutral x_view (x_connect a)" "w_neutral x_view (x_select f)" "w_neutral x_view (x_ioctl s v)"
    for a f s v
    by (auto simp: x_connect_def x_select_def x_ioctl_def x_fails_def intro!: x_neutralI split: list.split)
  show ?thesis
    unfolding winsock_ok_def Let_def
    by (intro conjI allI data x_inherit_law n x_lookup_laws [THEN conjunct1] x_lookup_laws [THEN conjunct2])
      (simp_all add: x_api_def x_consts_def x_alloc_opens x_ok_def x_neutral_fails x_neutralI c)
qed

end
