(* ===== verification/Win_Correct.thy ===== *)
theory Win_Correct
  imports Win_Sim
begin

text \<open>
  What the Windows backend is shown to do: addresses survive the trip through memory, time
  limits survive the trip through the socket, sockets are neither leaked nor inherited,
  receiving maps a shut down socket to the end of the stream, and discovery reports the
  devices the service lists.
\<close>

section \<open>Addresses in memory\<close>

text \<open>
  What the layout of the structures and the packing macros of the Windows headers guarantee.
\<close>

definition bth_layout_ok :: "win_memory \<Rightarrow> bool" where
  "bth_layout_ok ms \<longleftrightarrow>
     (\<forall>r. length (bth_bytes ms r) = unat (size_bth ms)) \<and> (\<forall>r xs. bth_of_bytes ms (bth_bytes ms r @ xs) = r)
   \<and> size_bth ms \<le> size_storage_lh ms \<and> 2 \<le> unat (size_storage_lh ms)
   \<and> (\<forall>f0 f1 xs. addressFamily (bth_of_bytes ms (f0 # f1 # xs)) = u16_from_le_bytes (f0, f1))
   \<and> (\<forall>n s. get_nap ms (set_nap_sap ms n s) = n \<and> get_sap ms (set_nap_sap ms n s) = s)"

lemma addr_to_u64_parts: "addr_to_u64 ms a = set_nap_sap ms (addr_nap a) (addr_sap a)"
  by (cases a rule: addr_nap.cases) simp

lemma bth_addr_to_u64:
  "bth_layout_ok ms \<Longrightarrow> btAddr sab = addr_to_u64 ms a \<Longrightarrow> bth_addr ms sab = a"
  by (simp add: bth_addr_def addr_to_u64_parts bth_layout_ok_def)

lemma win_to_storage_block:
  assumes "bth_layout_ok (MW wa)"
  shows "length (fst (win_to_storage wa a)) = unat (size_storage_lh (MW wa))"
    and "btAddr (bth_of_bytes (MW wa) (fst (win_to_storage wa a))) = addr_to_u64 (MW wa) a"
    and "serviceClassId (bth_of_bytes (MW wa) (fst (win_to_storage wa a))) = RFCOMM_PROTOCOL_UUID (KW wa)"
    and "addressFamily (bth_of_bytes (MW wa) (fst (win_to_storage wa a))) = AF_BTH (KW wa)"
    and "snd (win_to_storage wa a) = size_bth (MW wa)"
proof -
  define blank where "blank = storage_of_family (MW wa) (AF_BTH (KW wa))"
  obtain f0 f1 where f: "u16_to_le_bytes (AF_BTH (KW wa)) = (f0, f1)"
    by (cases "u16_to_le_bytes (AF_BTH (KW wa))")
  then have fam: "addressFamily (bth_of_bytes (MW wa) blank) = AF_BTH (KW wa)"
    using assms u16_from_to_le_bytes [of "AF_BTH (KW wa)"]
    by (simp add: bth_layout_ok_def blank_def storage_of_family_def)
  have two: "2 \<le> unat (size_storage_lh (MW wa))"
    using assms by (simp add: bth_layout_ok_def)
  have len: "length blank = unat (size_storage_lh (MW wa))"
    using two f by (auto simp: blank_def storage_of_family_def)
  have "size_bth (MW wa) \<le> size_storage_lh (MW wa)"
    using assms by (simp add: bth_layout_ok_def)
  then show "length (fst (win_to_storage wa a)) = unat (size_storage_lh (MW wa))"
    and "btAddr (bth_of_bytes (MW wa) (fst (win_to_storage wa a))) = addr_to_u64 (MW wa) a"
    and "serviceClassId (bth_of_bytes (MW wa) (fst (win_to_storage wa a))) = RFCOMM_PROTOCOL_UUID (KW wa)"
    and "addressFamily (bth_of_bytes (MW wa) (fst (win_to_storage wa a))) = AF_BTH (KW wa)"
    and "snd (win_to_storage wa a) = size_bth (MW wa)"
    using assms len fam
    by (simp_all add: win_to_storage_def write_bth_def bth_layout_ok_def word_le_nat_alt Let_def
        flip: blank_def)
qed

lemma of_le_digits:
  "of_le (map (\<lambda>i. ucast (drop_bit (8 * i) x)) [0..<n]) = take_bit (8 * n) (x :: 'a::len word)"
proof (induction n arbitrary: x)
  case 0
  then show ?case by (simp add: of_le_def)
next
  case (Suc n)
  have "map (\<lambda>i. ucast (drop_bit (8 * i) x)) [0..<Suc n]
      = (ucast x :: u8) # map (\<lambda>i. ucast (drop_bit (8 * i) (drop_bit 8 x))) [0..<n]"
    by (simp only: upt_conv_Cons map_Suc_upt [symmetric] list.map(2) list.map_comp)
      (simp add: o_def add.commute)
  then have "of_le (map (\<lambda>i. ucast (drop_bit (8 * i) x)) [0..<Suc n])
      = (ucast (ucast x :: u8) OR push_bit 8 (take_bit (8 * n) (drop_bit 8 x)) :: 'a word)"
    using Suc.IH [of "drop_bit 8 x"] by (simp only: of_le_def foldr_Cons comp_apply)
  also have "\<dots> = take_bit (8 * Suc n) x"
    by (rule bit_word_eqI) (auto simp: bit_simps)
  finally show ?case .
qed

lemma x_layout_ok: "bth_layout_ok x_memory"
proof -
  have len: "length (x_bth_bytes r) = 30" for r
    by (simp add: x_bth_bytes_def u64_list_def split_beta)
  have le8: "of_le (map (\<lambda>i. ucast (drop_bit (8 * i) x)) [0..<8]) = x" for x :: u64
    using of_le_digits [of x 8] by (simp add: take_bit_word_eq_self)
  have le16: "of_le (map (\<lambda>i. ucast (drop_bit (8 * i) x)) [0..<16]) = x" for x :: guid
    using of_le_digits [of x 16] by (simp add: take_bit_word_eq_self)
  have parse: "x_bth_of_bytes (x_bth_bytes r @ xs) = r" for r xs
  proof -
    obtain f0 f1 p0 p1 p2 p3 where f: "u16_to_le_bytes (addressFamily r) = (f0, f1)"
      and p: "u32_to_le_bytes (bth_port r) = (p0, p1, p2, p3)"
      by (metis surj_pair)
    have "u16_from_le_bytes (f0, f1) = addressFamily r" "u32_from_le_bytes (p0, p1, p2, p3) = bth_port r"
      using u16_from_to_le_bytes [of "addressFamily r"] u32_from_to_le_bytes [of "bth_port r"] f p by simp_all
    then show ?thesis
      by (simp add: x_bth_of_bytes_def x_bth_bytes_def u64_list_def f p le8 le16 nth_append
          del: upt.simps)
  qed
  have "ucast (drop_bit 32 (push_bit 32 (ucast n) OR ucast s :: u64)) = n"
    "ucast (push_bit 32 (ucast n) OR ucast s :: u64) = s" for n :: u16 and s :: u32
    by (rule bit_word_eqI; auto simp: bit_simps dest: bit_imp_le_length)+
  with len parse show ?thesis
    by (simp add: bth_layout_ok_def x_memory_def x_bth_of_bytes_def)
qed

text \<open>
  On Windows an address converted to the \<open>sockaddr\<close> handed to Winsock and read back
  from that memory is the same address; the block has the size of a \<open>sockaddr_storage\<close>, the
  structure in it the Bluetooth family, and the length passed along stays inside the block.
\<close>

theorem win_storage_roundtrip:
  assumes "bth_layout_ok (MW wa)"
  shows "win_from_storage (MW wa) (fst (win_to_storage wa a)) = a
    \<and> length (fst (win_to_storage wa a)) = unat (size_storage_lh (MW wa))
    \<and> addressFamily (bth_of_bytes (MW wa) (fst (win_to_storage wa a))) = AF_BTH (KW wa)
    \<and> unat (snd (win_to_storage wa a)) \<le> length (fst (win_to_storage wa a))"
  using win_to_storage_block [OF assms, of a] bth_addr_to_u64 [OF assms] assms
  by (simp add: win_from_storage_def bth_layout_ok_def word_le_nat_alt)

theorem win_storage_roundtrip_witness:
  "win_from_storage x_memory (fst (win_to_storage x_api (BtAddr (Bytes6 1 2 3 4 5 6)))) = BtAddr (Bytes6 1 2 3 4 5 6)"
proof -
  have "MW x_api = x_memory"
    by (simp add: x_api_def)
  then show ?thesis
    using win_storage_roundtrip [of x_api "BtAddr (Bytes6 1 2 3 4 5 6)"] x_layout_ok by simp
qed

text \<open>
  With a time limit and without, a Windows stream asks for the same device but not for
  the same service: \<open>connect\<close> and \<open>send_to\<close> name the RFCOMM protocol as the service class,
  \<open>connect_timeout\<close> leaves the class zero.
\<close>

theorem win_connect_service_class:
  assumes "bth_layout_ok (MW wa)"
  shows "bth_addr (MW wa) (bth_of_bytes (MW wa) (fst (win_to_storage wa a)))
      = bth_addr (MW wa) (bth_of_bytes (MW wa) (bth_bytes (MW wa) (win_connect_addr wa a)))
    \<and> serviceClassId (bth_of_bytes (MW wa) (fst (win_to_storage wa a))) = RFCOMM_PROTOCOL_UUID (KW wa)
    \<and> serviceClassId (bth_of_bytes (MW wa) (bth_bytes (MW wa) (win_connect_addr wa a))) = 0"
proof -
  have "bth_of_bytes (MW wa) (bth_bytes (MW wa) r) = r" for r
    using assms append_Nil2 unfolding bth_layout_ok_def by metis
  then show ?thesis
    using win_to_storage_block [OF assms, of a] bth_addr_to_u64 [OF assms]
    by (simp add: win_connect_addr_def)
qed

theorem win_connect_service_class_witness:
  "serviceClassId (bth_of_bytes x_memory (fst (win_to_storage x_api (BtAddr (Bytes6 1 2 3 4 5 6))))) = 3
   \<and> serviceClassId (bth_of_bytes x_memory (bth_bytes x_memory
       (win_connect_addr x_api (BtAddr (Bytes6 1 2 3 4 5 6))))) = 0"
proof -
  have "MW x_api = x_memory" and "RFCOMM_PROTOCOL_UUID (KW x_api) = 3"
    by (simp_all add: x_api_def x_consts_def)
  then show ?thesis
    using win_connect_service_class [of x_api "BtAddr (Bytes6 1 2 3 4 5 6)"] x_layout_ok by simp
qed

section \<open>Time limits\<close>

text \<open>A limit the socket accepted is reported back, with the size of the option.\<close>

definition w_stores_timeout :: "'w winapi \<Rightarrow> win_socket_handle \<Rightarrow> c_int \<Rightarrow> bool" where
  "w_stores_timeout wa s kind \<longleftrightarrow> (\<forall>v w.
     let set = w_setsockopt_u32 wa s (W_SOL_SOCKET (KW wa)) kind v 4 w;
         get = fst (w_getsockopt_u32 wa s (W_SOL_SOCKET (KW wa)) kind 0 4 (snd set))
     in fst set = - 1 \<or> fst get = - 1 \<or> fst (snd get) = v \<and> snd (snd get) = 4)"

lemma win_timeout_of_millis:
  fixes raw :: u32
  shows "\<exists>d. dur_new (ucast (raw div 1000)) (raw mod 1000 * 1000000) = Some d
    \<and> dur_ok d \<and> dur_ns d = unat raw * 1000000"
proof -
  have m: "unat (raw mod 1000) < 1000"
    by (simp add: unat_mod)
  then have n: "unat (raw mod 1000 * 1000000) = unat raw mod 1000 * 1000000"
    by (simp add: unat_mult_small unat_mod)
  have s: "unat (ucast (raw div 1000) :: u64) = unat raw div 1000"
    by (simp only: unat_ucast_u64) (simp add: unat_div)
  have regroup: "q * 1000000000 + r * 1000000 = (q * 1000 + r) * 1000000" for q r :: nat
    by simp
  have "unat (raw mod 1000 * 1000000) < nanos_per_sec"
    using m by (simp add: n nanos_per_sec_def unat_mod)
  then have "dur_new (ucast (raw div 1000)) (raw mod 1000 * 1000000)
      = Some (Duration (ucast (raw div 1000)) (raw mod 1000 * 1000000))"
    by (rule dur_new_small)
  moreover have "dur_ns (Duration (ucast (raw div 1000)) (raw mod 1000 * 1000000))
      = (unat raw div 1000 * 1000 + unat raw mod 1000) * 1000000"
    unfolding dur_ns_def duration.sel s n nanos_per_sec_def by (rule regroup)
  moreover have "dur_ok (Duration (ucast (raw div 1000)) (raw mod 1000 * 1000000))"
    using m by (simp add: dur_ok_def n nanos_per_sec_def unat_mod)
  ultimately show ?thesis
    by (simp only: div_mult_mod_eq) blast
qed

definition millis_duration :: "u32 \<Rightarrow> ('w, duration option) io" where
  "millis_duration raw =
     (if raw = 0 then io_ret None
      else case dur_new (ucast (raw div 1000)) (raw mod 1000 * 1000000) of
        None \<Rightarrow> io_panic | Some d \<Rightarrow> io_ret (Some d))"

lemma wp_millis_duration:
  assumes "\<And>d. dur_ok d \<Longrightarrow> dur_ns d = unat raw * 1000000 \<Longrightarrow> Q (Ok (if raw = 0 then None else Some d)) s"
  shows "wp True (millis_duration raw) Q s"
proof -
  obtain d where d: "dur_new (ucast (raw div 1000)) (raw mod 1000 * 1000000) = Some d"
    "dur_ok d" "dur_ns d = unat raw * 1000000"
    using win_timeout_of_millis [of raw] by blast
  show ?thesis
    using assms [OF d(2,3)] by (simp add: millis_duration_def d(1) io_wp split: if_splits)
qed

lemma wp_win_set_get:
  assumes "w_stores_timeout wa (win_raw self) kind"
    and "\<And>s'. wp True (millis_duration v) Q s'" and "\<And>e s'. Q (Err e) s'"
  shows "wp True (io_bind (win_setsockopt wa self (W_SOL_SOCKET (KW wa)) kind v)
    (\<lambda>_. win_timeout wa self kind)) Q s"
proof -
  let ?set = "w_setsockopt_u32 wa (win_raw self) (W_SOL_SOCKET (KW wa)) kind v 4 s"
  let ?get = "fst (w_getsockopt_u32 wa (win_raw self) (W_SOL_SOCKET (KW wa)) kind 0 4 (snd ?set))"
  have k: "win_timeout wa self kind =
      io_bind (win_getsockopt wa self (W_SOL_SOCKET (KW wa)) kind) millis_duration"
    unfolding win_timeout_def millis_duration_def [abs_def] Let_def ..
  have "fst ?set = - 1 \<or> fst ?get = - 1 \<or> fst (snd ?get) = v \<and> snd (snd ?get) = 4"
    using assms(1) unfolding w_stores_timeout_def Let_def by blast
  then show ?thesis
    using assms(2,3)
    by (elim disjE) (simp_all add: win_setsockopt_def setsockopt_def k win_getsockopt_def
        getsockopt_def io_wp win_as_inner_def split_beta)
qed

text \<open>
  C30. On Windows, setting a time limit and reading it back: zero is refused without a call,
  \<open>None\<close> comes back as \<open>None\<close>, and any other limit as itself rounded up to milliseconds,
  or as the largest number of milliseconds that 32 bits hold, never as \<open>None\<close> and never with
  a panic.
\<close>

theorem win_set_get_timeout:
  assumes "w_stores_timeout wa (win_raw self) kind" and "INFINITE (KW wa) = - 1"
  shows "(dur_ns d = 0 \<longrightarrow> win_set_timeout wa self (Some d) kind s =
        Some (Err (Custom InvalidData ''cannot set a 0 duration timeout''), s))
    \<and> wp True (io_bind (win_set_timeout wa self None kind) (\<lambda>_. win_timeout wa self kind))
        (\<lambda>r s'. case r of Ok v \<Rightarrow> v = None | Err _ \<Rightarrow> True | Panic \<Rightarrow> False) s
    \<and> wp True (io_bind (win_set_timeout wa self (Some d) kind) (\<lambda>_. win_timeout wa self kind))
        (\<lambda>r s'. case r of
             Ok v \<Rightarrow> (\<exists>d'. v = Some d' \<and> dur_ok d' \<and> dur_ns d' = 1000000 * min (dur_ceil_ms d) (2 ^ 32 - 1))
           | Err _ \<Rightarrow> True | Panic \<Rightarrow> False) s"
proof (intro conjI impI)
  define t where "t = dur2timeout (INFINITE (KW wa)) d"
  have "dur_ceil_ms d = 0 \<longleftrightarrow> dur_ns d = 0"
    by (auto simp: dur_ceil_ms_def div_eq_0_iff)
  moreover have t: "unat t = min (dur_ceil_ms d) (2 ^ 32 - 1)"
    using unat_dur2timeout [of "- 1" d] by (simp add: t_def assms(2) unat_minus_one_max)
  ultimately have zero: "t = 0 \<longleftrightarrow> dur_ns d = 0"
    using unat_eq_0 [of t] by (auto simp: min_def split: if_splits)
  show "win_set_timeout wa self (Some d) kind s =
      Some (Err (Custom InvalidData ''cannot set a 0 duration timeout''), s)" if "dur_ns d = 0"
    using zero that by (simp add: win_set_timeout_def io_defs flip: t_def)
  show "wp True (io_bind (win_set_timeout wa self None kind) (\<lambda>_. win_timeout wa self kind))
      (\<lambda>r s'. case r of Ok v \<Rightarrow> v = None | Err _ \<Rightarrow> True | Panic \<Rightarrow> False) s"
    by (simp add: win_set_timeout_def) (rule wp_win_set_get [OF assms(1)], rule wp_millis_duration, simp_all)
  show "wp True (io_bind (win_set_timeout wa self (Some d) kind) (\<lambda>_. win_timeout wa self kind))
      (\<lambda>r s'. case r of
           Ok v \<Rightarrow> (\<exists>d'. v = Some d' \<and> dur_ok d' \<and> dur_ns d' = 1000000 * min (dur_ceil_ms d) (2 ^ 32 - 1))
         | Err _ \<Rightarrow> True | Panic \<Rightarrow> False) s"
  proof (cases "dur_ns d = 0")
    case True
    then show ?thesis
      using zero by (simp add: win_set_timeout_def io_wp flip: t_def)
  next
    case False
    then have "t \<noteq> 0"
      using zero by simp
    then have "win_set_timeout wa self (Some d) kind = win_setsockopt wa self (W_SOL_SOCKET (KW wa)) kind t"
      by (simp add: win_set_timeout_def flip: t_def)
    moreover have "wp True (io_bind (win_setsockopt wa self (W_SOL_SOCKET (KW wa)) kind t)
        (\<lambda>_. win_timeout wa self kind))
      (\<lambda>r s'. case r of
           Ok v \<Rightarrow> (\<exists>d'. v = Some d' \<and> dur_ok d' \<and> dur_ns d' = 1000000 * min (dur_ceil_ms d) (2 ^ 32 - 1))
         | Err _ \<Rightarrow> True | Panic \<Rightarrow> False) s"
      by (rule wp_win_set_get [OF assms(1)], rule wp_millis_duration)
        (use \<open>t \<noteq> 0\<close> t in \<open>auto simp: mult.commute\<close>)
    ultimately show ?thesis
      by (simp only:)
  qed
qed

lemma x_stores_timeout: "kind \<noteq> 4103 \<Longrightarrow> w_stores_timeout x_api s kind"
  by (simp add: w_stores_timeout_def x_api_def x_fails_def Let_def split: list.splits)

theorem win_set_get_timeout_witness:
  "wp True (io_bind (win_set_timeout x_api (Win_Socket 4) (Some (Duration 2 1)) 4102)
       (\<lambda>_. win_timeout x_api (Win_Socket 4) 4102))
     (\<lambda>r s'. case r of Ok v \<Rightarrow> (\<exists>d'. v = Some d' \<and> dur_ok d' \<and> dur_ns d' = 2001000000)
        | Err _ \<Rightarrow> True | Panic \<Rightarrow> False) wsim_init"
proof -
  have "1000000 * min (dur_ceil_ms (Duration 2 1)) (2 ^ 32 - 1) = 2001000000"
    by (simp add: dur_ceil_ms_def dur_ns_def nanos_per_sec_def)
  moreover have "INFINITE (KW x_api) = - 1"
    by (simp add: x_api_def x_consts_def)
  moreover have "w_stores_timeout x_api (win_raw (Win_Socket 4)) 4102"
    by (rule x_stores_timeout) simp
  ultimately show ?thesis
    using win_set_get_timeout [of x_api "Win_Socket 4" 4102,
        where d = "Duration 2 1" and s = wsim_init, THEN conjunct2, THEN conjunct2]
    by (simp only:)
qed

lemma sint_small: "unat x < 2 ^ 31 \<Longrightarrow> sint x = int (unat x)" for x :: "32 word"
proof -
  assume "unat x < 2 ^ 31"
  have "sint x = signed_take_bit 31 (int (unat x))"
    by (simp add: sint_uint)
  also have "\<dots> = int (unat x)"
    using \<open>unat x < 2 ^ 31\<close> by (intro signed_take_bit_int_eq_self) (simp_all del: of_nat_unat)
  finally show ?thesis .
qed

text \<open>
  C38. The limit \<open>connect_timeout\<close> passes to \<open>select\<close> on Windows. Below \<open>2\<^sup>3\<^sup>1\<close> seconds it is the
  duration rounded down to microseconds, and at least one. The seconds are cast to 32 bits
  without a check, so a limit of a whole multiple of \<open>2\<^sup>3\<^sup>2\<close> seconds, 136 years, becomes one
  microsecond.
\<close>

theorem win_timeval_wraps:
  assumes "dur_ok d"
  shows "(unat (as_secs d) < 2 ^ 31 \<longrightarrow>
        sint (win_sec (win_timeval_of d)) * 1000000 + sint (win_usec (win_timeval_of d))
          = int (max 1 (dur_ns d div 1000)))
    \<and> win_timeval_of (Duration (4294967296 * k) 0) = Win_Timeval 0 1"
proof
  define us where "us = unat (subsec_nanos d) div 1000"
  have us: "us < 1000000"
    using assms by (simp add: us_def dur_ok_def nanos_per_sec_def)
  have total: "dur_ns d div 1000 = unat (as_secs d) * 1000000 + us"
  proof -
    have "dur_ns d = unat (subsec_nanos d) + 1000 * (unat (as_secs d) * 1000000)"
      by (simp add: dur_ns_def nanos_per_sec_def)
    then show ?thesis
      by (simp add: us_def)
  qed
  have umicros: "unat (subsec_micros d) = us"
    by (simp add: subsec_micros_def unat_div us_def)
  show "unat (as_secs d) < 2 ^ 31 \<longrightarrow>
        sint (win_sec (win_timeval_of d)) * 1000000 + sint (win_usec (win_timeval_of d))
          = int (max 1 (dur_ns d div 1000))"
  proof
    assume small: "unat (as_secs d) < 2 ^ 31"
    have secs: "unat (ucast (as_secs d) :: 32 word) = unat (as_secs d)"
      using small by (simp add: unsigned_ucast_eq take_bit_nat_eq_self_iff)
    have zero: "(ucast (as_secs d) :: 32 word) = 0 \<longleftrightarrow> unat (as_secs d) = 0"
      by (simp only: secs word_unat_eq_iff [of "ucast (as_secs d) :: 32 word"] unsigned_0)
    have mzero: "subsec_micros d = 0 \<longleftrightarrow> us = 0"
      by (simp only: umicros word_unat_eq_iff [of "subsec_micros d"] unsigned_0)
    show "sint (win_sec (win_timeval_of d)) * 1000000 + sint (win_usec (win_timeval_of d))
        = int (max 1 (dur_ns d div 1000))"
    proof (cases "unat (as_secs d) = 0 \<and> us = 0")
      case True
      then have "win_timeval_of d = Win_Timeval 0 1"
        by (simp add: win_timeval_of_def Let_def zero mzero)
      with True show ?thesis
        by (simp add: total)
    next
      case False
      then have "win_timeval_of d = Win_Timeval (ucast (as_secs d)) (subsec_micros d)"
        by (auto simp: win_timeval_of_def Let_def zero mzero)
      moreover have "1 \<le> unat (as_secs d) * 1000000 + us"
        using False by (cases "unat (as_secs d)") auto
      ultimately show ?thesis
        using small us by (simp add: sint_small secs umicros total max_def)
    qed
  qed
  have "4294967296 * k = push_bit 32 k"
    by (simp add: push_bit_eq_mult mult.commute)
  then have "(ucast (4294967296 * k) :: 32 word) = 0"
    by (simp only:) (rule bit_word_eqI, simp add: bit_simps)
  then show "win_timeval_of (Duration (4294967296 * k) 0) = Win_Timeval 0 1"
    by (simp add: win_timeval_of_def subsec_micros_def)
qed

theorem win_timeval_wraps_witness:
  "sint (win_sec (win_timeval_of (Duration 2 1500))) * 1000000 + sint (win_usec (win_timeval_of (Duration 2 1500)))
      = 2000001
    \<and> win_timeval_of (Duration 4294967296 0) = Win_Timeval 0 1"
  using win_timeval_wraps [of "Duration 2 1500" 1]
  by (simp add: dur_ok_def dur_ns_def nanos_per_sec_def)

section \<open>Sockets are neither leaked nor inherited\<close>

text \<open>
  On Windows creating, accepting and duplicating a socket leaks nothing: on every path,
  including that of a flag that cannot be cleared, the sockets open afterwards are those
  from before and, on success, the one inside the result.
\<close>

theorem win_sockets_no_leak:
  assumes "winsock_ok wa V"
  shows "acquires (\<lambda>s. w_opened V (fst s)) (win_sock_new wa protocol) (\<lambda>s. {win_raw s})
    \<and> acquires (w_opened V) (win_sock_accept wa self) (\<lambda>r. {win_raw (fst r)})
    \<and> acquires (w_opened V) (win_sock_duplicate wa self) (\<lambda>s. {win_raw s})"
  by (simp add: acquires_win_sock_new acquires_win_sock_accept acquires_win_sock_duplicate assms)

theorem win_sockets_no_leak_witness:
  "acquires (\<lambda>s. set (x_open (fst s))) (win_sock_new x_api RFCOMM) (\<lambda>s. {win_raw s})
    \<and> acquires (\<lambda>w. set (x_open w)) (win_sock_accept x_api (Win_Socket 4)) (\<lambda>r. {win_raw (fst r)})"
  using win_sockets_no_leak [OF x_winsock_ok, of RFCOMM "Win_Socket 4"]
  by (simp add: x_view_def)

lemma triple_win_no_inherit:
  assumes "winsock_ok wa V"
  shows "triple (\<lambda>_. True) (win_set_no_inherit wa s) (\<lambda>_ w. win_raw s \<notin> w_inherited V w)"
  using winsock_no_inherit [OF assms] by (simp add: triple_def win_set_no_inherit_def io_wp)

lemma triple_win_owned_no_inherit:
  assumes "winsock_ok wa V"
  shows "triple (\<lambda>_. True) (with_drop d (io_bind (win_set_no_inherit wa s) (\<lambda>_. io_ret s)))
    (\<lambda>s w. win_raw s \<notin> w_inherited V w)"
  by (rule triple_with_drop, rule triple_bind [OF triple_win_no_inherit [OF assms]], rule triple_ret)

text \<open>
  C26. No socket the Windows backend creates, accepts or duplicates is inherited by a child
  process.
\<close>

theorem win_sockets_not_inherited:
  assumes "winsock_ok wa V"
  shows "triple (\<lambda>_. True) (win_sock_new wa protocol) (\<lambda>s w. win_raw s \<notin> w_inherited V (fst w))
    \<and> triple (\<lambda>_. True) (win_sock_accept wa self) (\<lambda>r w. win_raw (fst r) \<notin> w_inherited V w)
    \<and> triple (\<lambda>_. True) (win_sock_duplicate wa self) (\<lambda>s w. win_raw s \<notin> w_inherited V w)"
proof (intro conjI)
  note owned = triple_win_owned_no_inherit [OF assms]
  show "triple (\<lambda>_. True) (win_sock_new wa protocol) (\<lambda>s w. win_raw s \<notin> w_inherited V (fst w))"
    unfolding win_sock_new_def
    by (rule triple_bind [OF triple_top], cases protocol)
      (simp_all add: triple_err triple_on_world [where R = "\<lambda>_. True", OF triple_bind [OF triple_top owned]])
  show "triple (\<lambda>_. True) (win_sock_duplicate wa self) (\<lambda>s w. win_raw s \<notin> w_inherited V w)"
    unfolding win_sock_duplicate_def by (rule triple_bind [OF triple_top owned])
  have flag: "triple (\<lambda>_. True) (on_world (win_set_no_inherit wa s)) (\<lambda>_ w. win_raw s \<notin> w_inherited V (fst w))"
    for s by (rule triple_on_world [where R = "\<lambda>_. True", OF triple_win_no_inherit [OF assms]])
  have get: "triple (\<lambda>w. win_raw s \<notin> w_inherited V (fst w)) (io_bind (io_get f) (\<lambda>a. io_ret (s, a)))
      (\<lambda>r w. win_raw (fst r) \<notin> w_inherited V (fst w))"
    for s and f :: "'a \<times> u8 list \<times> 32 word \<Rightarrow> bt_addr"
    by (simp add: triple_def io_wp)
  show "triple (\<lambda>_. True) (win_sock_accept wa self) (\<lambda>r w. win_raw (fst r) \<notin> w_inherited V w)"
    unfolding win_sock_accept_def
    by (rule triple_locals, rule triple_bind [OF triple_top], rule triple_with_drop,
        rule triple_bind [OF flag get])
qed

theorem win_sockets_not_inherited_witness:
  "triple (\<lambda>_. True) (win_sock_new x_api RFCOMM) (\<lambda>s w. win_raw s \<notin> set (x_inherit (fst w)))"
  using win_sockets_not_inherited [OF x_winsock_ok, of RFCOMM] by simp

section \<open>Receiving\<close>

lemma unat_win_len: "length buf < 2 ^ 64 \<Longrightarrow> unat (win_len buf) = min (length buf) (2 ^ 31 - 1)"
proof -
  assume "length buf < 2 ^ 64"
  then have "unat (min (buf_len buf) 2147483647) = min (length buf) (2 ^ 31 - 1)"
    by (auto simp: buf_len_def min_def word_le_nat_alt unat_of_nat_small)
  moreover from this have "unat (ucast (min (buf_len buf) 2147483647) :: c_int)
      = unat (min (buf_len buf) 2147483647)"
    by (simp add: unsigned_ucast_eq take_bit_nat_eq_self_iff)
  ultimately show ?thesis
    by (simp add: win_len_def)
qed

lemma unat_scast_pos: "0 \<le> sint n \<Longrightarrow> unat (scast n :: usize) = nat (sint n)" for n :: c_int
proof -
  assume pos: "0 \<le> sint n"
  have "sint (scast n :: usize) = sint n"
    by (rule sint_up_scast) (simp add: is_up)
  moreover have "sint n < 2 ^ 31"
    using sint_lt [of n] by simp
  ultimately have "uint (scast n :: usize) = sint n"
    using pos by (simp add: uint_sint take_bit_int_eq_self)
  then show ?thesis
    by (simp flip: nat_uint_eq)
qed

text \<open>
  Receiving on Windows, on every branch: the call is offered no more than the buffer
  holds and no more than an \<open>int\<close> can say; a socket that was shut down reads as the end of
  the stream, every other failure is the error code of the call, and a success is the number
  of bytes the call reports, never more than the buffer holds.
\<close>

theorem win_recv_result:
  assumes "length buf < 2 ^ 64"
    and "((n, buf'), w') = w_recv wa (win_raw self) buf (win_len buf) fl w"
    and "n = - 1 \<or> 0 \<le> sint n \<and> sint n \<le> sint (win_len buf)"
  shows "unat (win_len buf) = min (length buf) (2 ^ 31 - 1)
    \<and> (\<exists>r. win_recv_with_flags wa self fl (w, buf) = Some (r, (w', buf'))
        \<and> (n = - 1 \<and> wsa_error wa w' = WSAESHUTDOWN (KW wa) \<longrightarrow> r = Ok 0)
        \<and> (n = - 1 \<and> wsa_error wa w' \<noteq> WSAESHUTDOWN (KW wa) \<longrightarrow> r = Err (Os (wsa_error wa w')))
        \<and> (n \<noteq> - 1 \<longrightarrow> (\<exists>k. r = Ok k \<and> int (unat k) = sint n \<and> unat k \<le> length buf)))"
proof
  show len: "unat (win_len buf) = min (length buf) (2 ^ 31 - 1)"
    by (rule unat_win_len [OF assms(1)])
  then have "sint (win_len buf) = int (min (length buf) (2 ^ 31 - 1))"
    by (simp add: sint_small)
  then have k: "int (unat (scast n :: usize)) = sint n \<and> unat (scast n :: usize) \<le> length buf" if "n \<noteq> - 1"
    using that assms(3) unat_scast_pos [of n] by auto
  have call: "w_recv wa (win_raw self) buf (win_len buf) fl w = ((n, buf'), w')"
    by (rule assms(2) [symmetric])
  show "\<exists>r. win_recv_with_flags wa self fl (w, buf) = Some (r, (w', buf'))
        \<and> (n = - 1 \<and> wsa_error wa w' = WSAESHUTDOWN (KW wa) \<longrightarrow> r = Ok 0)
        \<and> (n = - 1 \<and> wsa_error wa w' \<noteq> WSAESHUTDOWN (KW wa) \<longrightarrow> r = Err (Os (wsa_error wa w')))
        \<and> (n \<noteq> - 1 \<longrightarrow> (\<exists>k. r = Ok k \<and> int (unat k) = sint n \<and> unat k \<le> length buf))"
  proof (cases "n = - 1")
    case True
    then show ?thesis
      by (simp add: win_recv_with_flags_def io_defs out_call_def call last_error_def)
  next
    case False
    then have "win_recv_with_flags wa self fl (w, buf) = Some (Ok (scast n), (w', buf'))"
      by (simp add: win_recv_with_flags_def io_defs out_call_def call)
    with False k show ?thesis by blast
  qed
qed

theorem win_recv_result_witness:
  "\<exists>r. win_recv_with_flags x_api (Win_Socket 4) 0 (wsim_init\<lparr>x_script := [10058]\<rparr>, [0, 0])
      = Some (r, (wsim_init\<lparr>x_error := 10058\<rparr>, [0, 0])) \<and> r = Ok 0"
proof -
  have "((- 1, [0, 0]), wsim_init\<lparr>x_error := 10058\<rparr>)
      = w_recv x_api (win_raw (Win_Socket 4)) [0, 0] (win_len [0, 0]) 0 (wsim_init\<lparr>x_script := [10058]\<rparr>)"
    by (simp add: x_api_def x_recv_def x_fails_def wsim_init_def)
  moreover have "wsa_error x_api (wsim_init\<lparr>x_error := 10058\<rparr>) = WSAESHUTDOWN (KW x_api)"
    by (simp add: x_api_def x_consts_def)
  ultimately show ?thesis
    using win_recv_result [of "[0, 0]" "- 1" "[0, 0]" "wsim_init\<lparr>x_error := 10058\<rparr>" x_api "Win_Socket 4" 0
        "wsim_init\<lparr>x_script := [10058]\<rparr>"] by auto
qed

end
