(* ===== verification/Bt_Resolve.thy ===== *)
theory Bt_Resolve
  imports Bt_Addr Ownership
begin

text \<open>
  Trying several addresses in turn (\<open>each_addr\<close> of \<open>src/bt/mod.rs\<close>), with the contract of
  the attempts as a locale: what one attempt promises about the handles it creates carries
  over to the whole.

  The iterator of the source is read as the finite list of the addresses it yields.
\<close>

section \<open>The function\<close>

definition no_address :: io_error where
  "no_address = Custom InvalidInput ''could not resolve to any addresses''"

fun each_addr_from :: "io_error option \<Rightarrow> 'a list \<Rightarrow> ('a \<Rightarrow> ('s, 'b) io) \<Rightarrow> ('s, 'b) io" where
  "each_addr_from last_err [] f = io_err (case last_err of Some e \<Rightarrow> e | None \<Rightarrow> no_address)"
| "each_addr_from last_err (addr # addrs) f =
     io_match (f addr) io_ret (\<lambda>e. each_addr_from (Some e) addrs f)"

definition each_addr :: "'a list \<Rightarrow> ('a \<Rightarrow> ('s, 'b) io) \<Rightarrow> ('s, 'b) io" where
  "each_addr addrs f = each_addr_from None addrs f"

section \<open>Its meaning\<close>

text \<open>
  \<open>rejects f s l as s' l'\<close>: the attempts on the addresses \<open>as\<close>, one after the other from the
  state \<open>s\<close>, all fail and leave \<open>s'\<close>; \<open>l'\<close> is the error of the last of them, or \<open>l\<close> if there
  is none.
\<close>

inductive rejects ::
    "('a \<Rightarrow> ('s, 'b) io) \<Rightarrow> 's \<Rightarrow> io_error option \<Rightarrow> 'a list \<Rightarrow> 's \<Rightarrow> io_error option \<Rightarrow> bool"
  for f where
  rejects_none: "rejects f s l [] s l"
| rejects_more: "f a s = Some (Err e, s1) \<Longrightarrow> rejects f s1 (Some e) as s2 l2 \<Longrightarrow>
     rejects f s l (a # as) s2 l2"

inductive_simps rejects_Nil [simp]: "rejects f s l [] s' l'"
inductive_simps rejects_Cons: "rejects f s l (a # as) s' l'"

lemma rejects_Some:
  "rejects f s l as s' l' \<Longrightarrow> as \<noteq> [] \<or> l \<noteq> None \<Longrightarrow> l' \<noteq> None"
  by (induction rule: rejects.induct) auto

lemma each_addr_from_Ok:
  "each_addr_from l as f s = Some (Ok v, s') \<longleftrightarrow>
     (\<exists>pre a post s1 l1. as = pre @ a # post \<and> rejects f s l pre s1 l1 \<and> f a s1 = Some (Ok v, s'))"
proof (induction as arbitrary: l s)
  case Nil
  then show ?case by (simp add: io_err_def)
next
  case (Cons a as)
  have run: "each_addr_from l (a # as) f s = Some (Ok v, s') \<longleftrightarrow>
      f a s = Some (Ok v, s') \<or> (\<exists>e s1. f a s = Some (Err e, s1)
        \<and> each_addr_from (Some e) as f s1 = Some (Ok v, s'))"
    by (auto simp: io_match_def io_ret_def split: option.split outcome.split)
  have split: "(\<exists>pre b post s1 l1. a # as = pre @ b # post \<and> rejects f s l pre s1 l1 \<and> f b s1 = Some (Ok v, s'))
      \<longleftrightarrow> f a s = Some (Ok v, s') \<or> (\<exists>e s0. f a s = Some (Err e, s0) \<and>
        (\<exists>pre b post s1 l1. as = pre @ b # post \<and> rejects f s0 (Some e) pre s1 l1 \<and> f b s1 = Some (Ok v, s')))"
    (is "?lhs \<longleftrightarrow> ?rhs")
  proof
    assume ?lhs
    then obtain pre b post s1 l1 where *: "a # as = pre @ b # post" "rejects f s l pre s1 l1"
      "f b s1 = Some (Ok v, s')"
      by blast
    show ?rhs
    proof (cases pre)
      case Nil
      with * show ?rhs by simp
    next
      case (Cons c pre')
      with * obtain e s0 where "f a s = Some (Err e, s0)" "as = pre' @ b # post"
        "rejects f s0 (Some e) pre' s1 l1"
        by (auto simp: rejects_Cons)
      with *(3) show ?rhs by blast
    qed
  next
    assume ?rhs
    then show ?lhs
    proof
      assume "f a s = Some (Ok v, s')"
      then show ?lhs
        by (intro exI [of _ "[]"] exI [of _ a] exI [of _ as] exI [of _ s] exI [of _ l]) simp
    next
      assume "\<exists>e s0. f a s = Some (Err e, s0) \<and>
        (\<exists>pre b post s1 l1. as = pre @ b # post \<and> rejects f s0 (Some e) pre s1 l1 \<and> f b s1 = Some (Ok v, s'))"
      then obtain e s0 pre b post s1 l1 where "f a s = Some (Err e, s0)" "as = pre @ b # post"
        "rejects f s0 (Some e) pre s1 l1" "f b s1 = Some (Ok v, s')"
        by blast
      then show ?lhs
        by (intro exI [of _ "a # pre"] exI [of _ b] exI [of _ post] exI [of _ s1] exI [of _ l1])
          (auto simp: rejects_Cons)
    qed
  qed
  show ?case
    unfolding run split Cons.IH ..
qed

lemma each_addr_from_Err:
  "each_addr_from l as f s = Some (Err e, s') \<longleftrightarrow>
     (\<exists>l'. rejects f s l as s' l' \<and> e = (case l' of Some e \<Rightarrow> e | None \<Rightarrow> no_address))"
proof (induction as arbitrary: l s)
  case Nil
  then show ?case by (auto simp: io_err_def)
next
  case (Cons a as)
  have "each_addr_from l (a # as) f s = Some (Err e, s') \<longleftrightarrow>
      (\<exists>d s1. f a s = Some (Err d, s1) \<and> each_addr_from (Some d) as f s1 = Some (Err e, s'))"
    by (auto simp: io_match_def io_ret_def split: option.split outcome.split)
  then show ?case
    unfolding Cons.IH rejects_Cons by blast
qed

text \<open>
  C6. Several addresses are tried in their order until one succeeds: the result is the
  success of the first address whose attempt succeeds, all before it having failed and none
  after it being tried; when all fail it is the error of the last one; when there is no
  address it is an error that says so, without any attempt.
\<close>

theorem each_addr_spec:
  "(each_addr addrs f s = Some (Ok v, s') \<longleftrightarrow>
      (\<exists>pre a post s1 l1. addrs = pre @ a # post \<and> rejects f s None pre s1 l1 \<and> f a s1 = Some (Ok v, s')))
   \<and> (each_addr addrs f s = Some (Err e, s') \<longleftrightarrow>
      rejects f s None addrs s' (Some e) \<or> addrs = [] \<and> s' = s \<and> e = no_address)"
proof -
  have "l' = None \<longleftrightarrow> addrs = []" if "rejects f s None addrs s' l'" for l'
    using that rejects_Some [OF that] by (cases addrs) auto
  then have "(\<exists>l'. rejects f s None addrs s' l' \<and> e = (case l' of Some e \<Rightarrow> e | None \<Rightarrow> no_address))
      \<longleftrightarrow> rejects f s None addrs s' (Some e) \<or> addrs = [] \<and> s' = s \<and> e = no_address"
    by (cases addrs) (auto split: option.splits)
  then show ?thesis
    unfolding each_addr_def each_addr_from_Ok each_addr_from_Err by blast
qed

text \<open>What every attempt establishes for its address holds of the result for some address.\<close>

lemma triple_each_addr:
  assumes "\<And>a. a \<in> set as \<Longrightarrow> triple (\<lambda>_. True) (f a) (Q a)"
  shows "triple (\<lambda>_. True) (each_addr as f) (\<lambda>v s. \<exists>a\<in>set as. Q a v s)"
proof -
  have "triple (\<lambda>_. True) (each_addr_from l as' f) (\<lambda>v s. \<exists>a\<in>set as. Q a v s)"
    if "set as' \<subseteq> set as" for l as'
    using that
  proof (induction as' arbitrary: l)
    case Nil
    then show ?case by (simp add: triple_err)
  next
    case (Cons a as')
    then have "triple (\<lambda>_. True) (f a) (Q a)" and "a \<in> set as"
      using assms by simp_all
    with Cons show ?case
      unfolding each_addr_from.simps
      by (intro triple_match [where R' = "Q a"] triple_ret) auto
  qed
  then show ?thesis
    by (simp add: each_addr_def)
qed

section \<open>The contract of the attempts\<close>

text \<open>
  An operation that creates one handle per success, for every value \<open>p\<close> of the parameters
  the program is built and run with for which \<open>ok p\<close> says that the platform behaves.
\<close>

locale handle_source =
  fixes ok :: "'p \<Rightarrow> bool"
    and opn :: "'p \<Rightarrow> 's \<Rightarrow> 'h set"
    and attempt :: "'p \<Rightarrow> 'a \<Rightarrow> ('s, 'b) io"
    and handle :: "'p \<Rightarrow> 'b \<Rightarrow> 'h"
  assumes attempt_acquires: "ok p \<Longrightarrow> acquires (opn p) (attempt p a) (\<lambda>b. {handle p b})"
begin

lemma each_from_acquires:
  assumes "ok p"
  shows "acquires (opn p) (each_addr_from l as (attempt p)) (\<lambda>b. {handle p b})"
proof (induction as arbitrary: l)
  case Nil
  then show ?case by (auto intro: acquires_err)
next
  case (Cons a as)
  show ?case
    unfolding each_addr_from.simps
    by (rule acquires_match_owned [OF attempt_acquires [OF assms]]) (auto intro: Cons.IH)
qed

text \<open>A success owns exactly one new handle; the failed attempts have closed theirs.\<close>

lemma each_acquires:
  "ok p \<Longrightarrow> acquires (opn p) (each_addr as (attempt p)) (\<lambda>b. {handle p b})"
  unfolding each_addr_def by (rule each_from_acquires)

end

end
