(* ===== verification/Common_Bt.thy ===== *)
theory Common_Bt
  imports Common_Sockopt Bt_Resolve
begin

text \<open>
  Listeners and streams above the backends (\<open>src/sys_common/bt.rs\<close>). What the code imports
  from \<open>crate::sys::bt\<close> is a record: the Unix and the Windows backend each give one. Every
  function of the file is a definition over that record, and the laws of a backend are a
  locale in which the ownership of sockets is proved once for both.
\<close>

section \<open>The interface of a backend\<close>

text \<open>
  \<open>'s\<close> is the state (the world and the statics of the backend), \<open>'k\<close> the type \<open>Socket\<close> and
  \<open>'h\<close> the raw handle inside it. The constants are those of the module \<open>btc\<close>; \<open>wrlen_max\<close>
  is the largest value of its type \<open>wrlen_t\<close>. \<open>be_send\<close> and \<open>be_sendto\<close> are the calls wrapped
  in \<open>cvt\<close> with the result as a \<open>usize\<close>, since the backends differ in the integer types.
\<close>

record btc_consts =
  on_windows :: bool
  nosignal :: c_int
  sol_socket :: c_int
  so_reuseaddr :: c_int
  so_rcvtimeo :: c_int
  so_sndtimeo :: c_int
  storage_size :: "32 word"
  wrlen_max :: usize

record ('s, 'k, 'h) backend =
  btc :: btc_consts
  be_show :: "'h \<Rightarrow> string"
  be_as_inner :: "'k \<Rightarrow> 'h"
  be_drop :: "'k \<Rightarrow> 's \<Rightarrow> 's"
  be_cvt :: "c_int \<Rightarrow> ('s, c_int) io"
  be_cvt_r :: "('s, c_int) call \<Rightarrow> ('s, c_int) io"
  be_into :: "bt_addr \<Rightarrow> u8 list \<times> 32 word"
  be_from :: "u8 list \<Rightarrow> bt_addr"
  be_setsockopt_int :: "'k \<Rightarrow> c_int \<Rightarrow> c_int \<Rightarrow> c_int \<Rightarrow> ('s, unit) io"
  be_bind :: "'h \<Rightarrow> u8 list \<Rightarrow> 32 word \<Rightarrow> ('s, c_int) call"
  be_listen :: "'h \<Rightarrow> c_int \<Rightarrow> ('s, c_int) call"
  be_connect :: "'h \<Rightarrow> u8 list \<Rightarrow> 32 word \<Rightarrow> ('s, c_int) call"
  be_getsockname :: "'h \<Rightarrow> u8 list \<Rightarrow> 32 word \<Rightarrow> ('s, c_int \<times> u8 list \<times> 32 word) call"
  be_getpeername :: "'h \<Rightarrow> u8 list \<Rightarrow> 32 word \<Rightarrow> ('s, c_int \<times> u8 list \<times> 32 word) call"
  be_send :: "'h \<Rightarrow> u8 list \<Rightarrow> usize \<Rightarrow> c_int \<Rightarrow> ('s, usize) io"
  be_sendto :: "'h \<Rightarrow> u8 list \<Rightarrow> usize \<Rightarrow> c_int \<Rightarrow> u8 list \<Rightarrow> 32 word \<Rightarrow> ('s, usize) io"
  be_new :: "bt_protocol \<Rightarrow> ('s, 'k) io"
  be_accept :: "'k \<Rightarrow> ('s, 'k \<times> bt_addr) io"
  be_connect_timeout :: "'k \<Rightarrow> bt_addr \<Rightarrow> duration \<Rightarrow> ('s, unit) io"
  be_duplicate :: "'k \<Rightarrow> ('s, 'k) io"
  be_peek :: "'k \<Rightarrow> ('s \<times> u8 list, usize) io"
  be_peek_from :: "'k \<Rightarrow> ('s \<times> u8 list, usize \<times> bt_addr) io"
  be_read :: "'k \<Rightarrow> ('s \<times> u8 list, usize) io"
  be_recv_from :: "'k \<Rightarrow> ('s \<times> u8 list, usize \<times> bt_addr) io"
  be_timeout :: "'k \<Rightarrow> c_int \<Rightarrow> ('s, duration option) io"
  be_set_timeout :: "'k \<Rightarrow> duration option \<Rightarrow> c_int \<Rightarrow> ('s, unit) io"
  be_shutdown :: "'k \<Rightarrow> shutdown_how \<Rightarrow> ('s, unit) io"
  be_set_nonblocking :: "'k \<Rightarrow> bool \<Rightarrow> ('s, unit) io"
  be_take_error :: "'k \<Rightarrow> ('s, io_error option) io"

definition be_sockname ::
    "('s, 'k, 'h) backend \<Rightarrow> (u8 list \<Rightarrow> 32 word \<Rightarrow> ('s, c_int \<times> u8 list \<times> 32 word) call) \<Rightarrow>
     ('s, bt_addr) io" where
  "be_sockname B = sockname (be_cvt B) (storage_size (btc B)) (be_from B)"

section \<open>Listeners\<close>

record 'k sys_listener =
  l_inner :: 'k
  l_protocol :: bt_protocol

record 'k sys_stream =
  s_inner :: 'k
  s_protocol :: bt_protocol

definition sys_bind ::
    "('s, 'k, 'h) backend \<Rightarrow> bt_addr \<Rightarrow> bt_protocol \<Rightarrow> ('s, 'k sys_listener) io" where
  "sys_bind B addr protocol =
     io_bind (be_new B protocol) (\<lambda>socket. with_drop (be_drop B socket)
       (io_bind
         (if \<not> on_windows (btc B)
          then be_setsockopt_int B socket (sol_socket (btc B)) (so_reuseaddr (btc B)) 1
          else io_ret ()) (\<lambda>_.
        case be_into B addr of (addr, len) \<Rightarrow>
        io_bind (io_bind (io_call (be_bind B (be_as_inner B socket) addr len)) (be_cvt B)) (\<lambda>_.
        io_bind (io_bind (io_call (be_listen B (be_as_inner B socket) 128)) (be_cvt B)) (\<lambda>_.
          io_ret \<lparr>l_inner = socket, l_protocol = protocol\<rparr>)))))"

definition sys_listener_accept ::
    "('s, 'k, 'h) backend \<Rightarrow> 'k sys_listener \<Rightarrow> ('s, 'k sys_stream \<times> bt_addr) io" where
  "sys_listener_accept B self =
     io_map (\<lambda>(socket, addr). (\<lparr>s_inner = socket, s_protocol = l_protocol self\<rparr>, addr))
       (be_accept B (l_inner self))"

definition sys_listener_set_nonblocking ::
    "('s, 'k, 'h) backend \<Rightarrow> 'k sys_listener \<Rightarrow> bool \<Rightarrow> ('s, unit) io" where
  "sys_listener_set_nonblocking B self nonblocking = be_set_nonblocking B (l_inner self) nonblocking"

definition sys_listener_local_addr ::
    "('s, 'k, 'h) backend \<Rightarrow> 'k sys_listener \<Rightarrow> ('s, bt_addr) io" where
  "sys_listener_local_addr B self =
     be_sockname B (\<lambda>addr len. be_getsockname B (be_as_inner B (l_inner self)) addr len)"

definition sys_listener_take_error ::
    "('s, 'k, 'h) backend \<Rightarrow> 'k sys_listener \<Rightarrow> ('s, io_error option) io" where
  "sys_listener_take_error B self = be_take_error B (l_inner self)"

definition sys_listener_protocol :: "'k sys_listener \<Rightarrow> bt_protocol" where
  "sys_listener_protocol self = l_protocol self"

definition sys_listener_socket :: "'k sys_listener \<Rightarrow> 'k" where
  "sys_listener_socket self = l_inner self"

definition sys_listener_into_socket :: "'k sys_listener \<Rightarrow> 'k" where
  "sys_listener_into_socket self = l_inner self"

definition sys_listener_duplicate ::
    "('s, 'k, 'h) backend \<Rightarrow> 'k sys_listener \<Rightarrow> ('s, 'k sys_listener) io" where
  "sys_listener_duplicate B self =
     io_map (\<lambda>s. \<lparr>l_inner = s, l_protocol = l_protocol self\<rparr>) (be_duplicate B (l_inner self))"

text \<open>
  The \<open>Debug\<close> output, in the compact form of \<open>debug_struct\<close>: the address if it can be
  determined, and the raw handle under the name of the platform.
\<close>

definition debug_struct :: "string \<Rightarrow> (string \<times> string) list \<Rightarrow> string" where
  "debug_struct name entries =
     name @ (case map (\<lambda>(n, v). n @ '': '' @ v) entries of
               [] \<Rightarrow> ''''
             | x # xs \<Rightarrow> '' { '' @ x @ concat (map (\<lambda>y. '', '' @ y) xs) @ '' }'')"

definition sys_debug ::
    "('s, 'k, 'h) backend \<Rightarrow> string \<Rightarrow> ('s, bt_addr) io \<Rightarrow> 'k \<Rightarrow> ('s, string) io" where
  "sys_debug B struct_name local_addr inner =
     (let handle_field = (if on_windows (btc B) then ''socket'' else ''fd'',
                          be_show B (be_as_inner B inner))
      in io_match local_addr
           (\<lambda>addr. io_ret (debug_struct struct_name [(''addr'', debug_fmt addr), handle_field]))
           (\<lambda>_. io_ret (debug_struct struct_name [handle_field])))"

definition sys_listener_debug :: "('s, 'k, 'h) backend \<Rightarrow> 'k sys_listener \<Rightarrow> ('s, string) io" where
  "sys_listener_debug B self =
     sys_debug B ''BtListener'' (sys_listener_local_addr B self) (l_inner self)"

section \<open>Streams\<close>

definition sys_connect ::
    "('s, 'k, 'h) backend \<Rightarrow> bt_addr \<Rightarrow> bt_protocol \<Rightarrow> ('s, 'k sys_stream) io" where
  "sys_connect B addr protocol =
     (case be_into B addr of (addr, len) \<Rightarrow>
      io_bind (be_new B protocol) (\<lambda>socket. with_drop (be_drop B socket)
        (io_bind (be_cvt_r B (be_connect B (be_as_inner B socket) addr len)) (\<lambda>_.
          io_ret \<lparr>s_inner = socket, s_protocol = protocol\<rparr>))))"

definition sys_connect_timeout ::
    "('s, 'k, 'h) backend \<Rightarrow> bt_addr \<Rightarrow> bt_protocol \<Rightarrow> duration \<Rightarrow> ('s, 'k sys_stream) io" where
  "sys_connect_timeout B addr protocol timeout =
     io_bind (be_new B protocol) (\<lambda>socket. with_drop (be_drop B socket)
       (io_bind (be_connect_timeout B socket addr timeout) (\<lambda>_.
          io_ret \<lparr>s_inner = socket, s_protocol = protocol\<rparr>)))"

definition sys_peek :: "('s, 'k, 'h) backend \<Rightarrow> 'k sys_stream \<Rightarrow> ('s \<times> u8 list, usize) io" where
  "sys_peek B self = be_peek B (s_inner self)"

definition sys_peek_from ::
    "('s, 'k, 'h) backend \<Rightarrow> 'k sys_stream \<Rightarrow> ('s \<times> u8 list, usize \<times> bt_addr) io" where
  "sys_peek_from B self = be_peek_from B (s_inner self)"

definition sys_recv :: "('s, 'k, 'h) backend \<Rightarrow> 'k sys_stream \<Rightarrow> ('s \<times> u8 list, usize) io" where
  "sys_recv B self = be_read B (s_inner self)"

definition sys_recv_from ::
    "('s, 'k, 'h) backend \<Rightarrow> 'k sys_stream \<Rightarrow> ('s \<times> u8 list, usize \<times> bt_addr) io" where
  "sys_recv_from B self = be_recv_from B (s_inner self)"

text \<open>The length passed on is capped at the largest \<open>wrlen_t\<close>.\<close>

definition wr_len :: "('s, 'k, 'h) backend \<Rightarrow> u8 list \<Rightarrow> usize" where
  "wr_len B buf = min (buf_len buf) (wrlen_max (btc B))"

definition sys_send :: "('s, 'k, 'h) backend \<Rightarrow> 'k sys_stream \<Rightarrow> u8 list \<Rightarrow> ('s, usize) io" where
  "sys_send B self buf =
     be_send B (be_as_inner B (s_inner self)) buf (wr_len B buf) (nosignal (btc B))"

definition sys_send_to ::
    "('s, 'k, 'h) backend \<Rightarrow> 'k sys_stream \<Rightarrow> u8 list \<Rightarrow> bt_addr \<Rightarrow> ('s, usize) io" where
  "sys_send_to B self buf dst =
     (case be_into B dst of (addr, addrlen) \<Rightarrow>
        be_sendto B (be_as_inner B (s_inner self)) buf (wr_len B buf) (nosignal (btc B)) addr addrlen)"

definition sys_shutdown :: "('s, 'k, 'h) backend \<Rightarrow> 'k sys_stream \<Rightarrow> shutdown_how \<Rightarrow> ('s, unit) io" where
  "sys_shutdown B self how = be_shutdown B (s_inner self) how"

definition sys_read_timeout :: "('s, 'k, 'h) backend \<Rightarrow> 'k sys_stream \<Rightarrow> ('s, duration option) io" where
  "sys_read_timeout B self = be_timeout B (s_inner self) (so_rcvtimeo (btc B))"

definition sys_set_read_timeout ::
    "('s, 'k, 'h) backend \<Rightarrow> 'k sys_stream \<Rightarrow> duration option \<Rightarrow> ('s, unit) io" where
  "sys_set_read_timeout B self dur = be_set_timeout B (s_inner self) dur (so_rcvtimeo (btc B))"

definition sys_write_timeout :: "('s, 'k, 'h) backend \<Rightarrow> 'k sys_stream \<Rightarrow> ('s, duration option) io" where
  "sys_write_timeout B self = be_timeout B (s_inner self) (so_sndtimeo (btc B))"

definition sys_set_write_timeout ::
    "('s, 'k, 'h) backend \<Rightarrow> 'k sys_stream \<Rightarrow> duration option \<Rightarrow> ('s, unit) io" where
  "sys_set_write_timeout B self dur = be_set_timeout B (s_inner self) dur (so_sndtimeo (btc B))"

definition sys_set_nonblocking :: "('s, 'k, 'h) backend \<Rightarrow> 'k sys_stream \<Rightarrow> bool \<Rightarrow> ('s, unit) io" where
  "sys_set_nonblocking B self nonblocking = be_set_nonblocking B (s_inner self) nonblocking"

definition sys_local_addr :: "('s, 'k, 'h) backend \<Rightarrow> 'k sys_stream \<Rightarrow> ('s, bt_addr) io" where
  "sys_local_addr B self =
     be_sockname B (\<lambda>addr len. be_getsockname B (be_as_inner B (s_inner self)) addr len)"

definition sys_peer_addr :: "('s, 'k, 'h) backend \<Rightarrow> 'k sys_stream \<Rightarrow> ('s, bt_addr) io" where
  "sys_peer_addr B self =
     be_sockname B (\<lambda>addr len. be_getpeername B (be_as_inner B (s_inner self)) addr len)"

definition sys_take_error :: "('s, 'k, 'h) backend \<Rightarrow> 'k sys_stream \<Rightarrow> ('s, io_error option) io" where
  "sys_take_error B self = be_take_error B (s_inner self)"

definition sys_protocol :: "'k sys_stream \<Rightarrow> bt_protocol" where
  "sys_protocol self = s_protocol self"

definition sys_socket :: "'k sys_stream \<Rightarrow> 'k" where
  "sys_socket self = s_inner self"

definition sys_into_socket :: "'k sys_stream \<Rightarrow> 'k" where
  "sys_into_socket self = s_inner self"

definition sys_duplicate :: "('s, 'k, 'h) backend \<Rightarrow> 'k sys_stream \<Rightarrow> ('s, 'k sys_stream) io" where
  "sys_duplicate B self =
     io_map (\<lambda>s. \<lparr>s_inner = s, s_protocol = s_protocol self\<rparr>) (be_duplicate B (s_inner self))"

definition sys_stream_debug :: "('s, 'k, 'h) backend \<Rightarrow> 'k sys_stream \<Rightarrow> ('s, string) io" where
  "sys_stream_debug B self = sys_debug B ''BtStream'' (sys_local_addr B self) (s_inner self)"

section \<open>The laws of a backend\<close>

text \<open>
  What a backend promises about sockets, for every value \<open>p\<close> of the parameters (the C
  library and the target, or the Windows API) for which \<open>ok p\<close> says that the platform
  behaves as documented: who creates a socket owns it, dropping it closes it, and the other
  operations leave the open sockets alone.
\<close>

locale socket_backend =
  fixes B :: "'p \<Rightarrow> ('s, 'k, 'h) backend"
    and ok :: "'p \<Rightarrow> bool"
    and opn :: "'p \<Rightarrow> 's \<Rightarrow> 'h set"
  assumes new_acquires:
      "ok p \<Longrightarrow> acquires (opn p) (be_new (B p) pr) (\<lambda>k. {be_as_inner (B p) k})"
    and accept_acquires:
      "ok p \<Longrightarrow> acquires (opn p) (be_accept (B p) k) (\<lambda>r. {be_as_inner (B p) (fst r)})"
    and duplicate_acquires:
      "ok p \<Longrightarrow> acquires (opn p) (be_duplicate (B p) k) (\<lambda>k. {be_as_inner (B p) k})"
    and drop_closes: "ok p \<Longrightarrow> opn p (be_drop (B p) k s) = opn p s - {be_as_inner (B p) k}"
    and setsockopt_leaves: "ok p \<Longrightarrow> leaves (opn p) (be_setsockopt_int (B p) k l x v)"
    and cvt_leaves: "ok p \<Longrightarrow> leaves (opn p) (be_cvt (B p) r)"
    and bind_leaves: "ok p \<Longrightarrow> opn p (snd (be_bind (B p) h a n s)) = opn p s"
    and listen_leaves: "ok p \<Longrightarrow> opn p (snd (be_listen (B p) h i s)) = opn p s"
    and connect_leaves: "ok p \<Longrightarrow> leaves (opn p) (be_cvt_r (B p) (be_connect (B p) h a n))"
    and connect_timeout_leaves: "ok p \<Longrightarrow> leaves (opn p) (be_connect_timeout (B p) k addr d)"
begin

text \<open>A socket that a local variable owns while the rest of a constructor runs.\<close>

lemma owned_acquires:
  assumes "ok p" and "\<And>k. leaves (opn p) (m k)"
    and "\<And>k. own (f k) = {be_as_inner (B p) k}"
  shows "acquires (opn p)
    (io_bind (be_new (B p) pr) (\<lambda>k. with_drop (be_drop (B p) k) (io_bind (m k) (\<lambda>_. io_ret (f k))))) own"
  by (rule acquires_owned [OF new_acquires [OF assms(1)]])
    (rule transfers_bind [OF assms(2)], rule transfers_ret, rule assms(3), rule drop_closes [OF assms(1)])

lemma bind_acquires:
  assumes "ok p"
  shows "acquires (opn p) (sys_bind (B p) addr pr) (\<lambda>l. {be_as_inner (B p) (l_inner l)})"
proof -
  obtain a n where into: "be_into (B p) addr = (a, n)"
    by (cases "be_into (B p) addr")
  have "leaves (opn p)
      (io_bind (if c then be_setsockopt_int (B p) k l x v else io_ret ()) (\<lambda>_.
        io_bind (io_bind (io_call (be_bind (B p) h a n)) (be_cvt (B p))) (\<lambda>_.
          io_bind (io_call (be_listen (B p) h i)) (be_cvt (B p)))))" for c k l x v h i
    using assms
    by (auto intro!: acquires_bind setsockopt_leaves cvt_leaves leaves_call bind_leaves listen_leaves)
  then have "acquires (opn p) (io_bind (be_new (B p) pr) (\<lambda>socket. with_drop (be_drop (B p) socket)
      (io_bind (io_bind
        (if \<not> on_windows (btc (B p))
         then be_setsockopt_int (B p) socket (sol_socket (btc (B p))) (so_reuseaddr (btc (B p))) 1
         else io_ret ()) (\<lambda>_.
        io_bind (io_bind (io_call (be_bind (B p) (be_as_inner (B p) socket) a n)) (be_cvt (B p))) (\<lambda>_.
        io_bind (io_call (be_listen (B p) (be_as_inner (B p) socket) 128)) (be_cvt (B p))))) (\<lambda>_.
          io_ret \<lparr>l_inner = socket, l_protocol = pr\<rparr>))))
      (\<lambda>l. {be_as_inner (B p) (l_inner l)})"
    by (rule owned_acquires [OF assms]) simp
  then show ?thesis
    by (simp add: sys_bind_def into io_bind_assoc)
qed

lemma sys_connect_acquires:
  assumes "ok p"
  shows "acquires (opn p) (sys_connect (B p) addr pr) (\<lambda>c. {be_as_inner (B p) (s_inner c)})"
proof -
  obtain a n where into: "be_into (B p) addr = (a, n)"
    by (cases "be_into (B p) addr")
  show ?thesis
    unfolding sys_connect_def into prod.case
    by (rule owned_acquires [OF assms connect_leaves [OF assms]]) simp
qed

lemma sys_connect_timeout_acquires:
  assumes "ok p"
  shows "acquires (opn p) (sys_connect_timeout (B p) addr pr d) (\<lambda>c. {be_as_inner (B p) (s_inner c)})"
  unfolding sys_connect_timeout_def
  by (rule owned_acquires [OF assms connect_timeout_leaves [OF assms]]) simp

lemma listener_accept_acquires:
  "ok p \<Longrightarrow> acquires (opn p) (sys_listener_accept (B p) l) (\<lambda>r. {be_as_inner (B p) (s_inner (fst r))})"
  unfolding sys_listener_accept_def by (rule acquires_map [OF accept_acquires]) (auto split: prod.split)

lemma duplicates_acquire:
  assumes "ok p"
  shows "acquires (opn p) (sys_listener_duplicate (B p) l) (\<lambda>l. {be_as_inner (B p) (l_inner l)})"
    and "acquires (opn p) (sys_duplicate (B p) c) (\<lambda>c. {be_as_inner (B p) (s_inner c)})"
  unfolding sys_listener_duplicate_def sys_duplicate_def
  by (rule acquires_map [OF duplicate_acquires [OF assms]], simp)+

end

text \<open>The attempts of \<open>bind\<close> and of \<open>connect\<close> keep the contract of \<open>each_addr\<close>.\<close>

sublocale socket_backend \<subseteq> binds: handle_source
  "\<lambda>(p, pr). ok p" "\<lambda>(p, pr). opn p" "\<lambda>(p, pr) addr. sys_bind (B p) addr pr"
  "\<lambda>(p, pr) l. be_as_inner (B p) (l_inner l)"
  by unfold_locales (auto intro!: bind_acquires)

sublocale socket_backend \<subseteq> connects: handle_source
  "\<lambda>(p, pr). ok p" "\<lambda>(p, pr). opn p" "\<lambda>(p, pr) addr. sys_connect (B p) addr pr"
  "\<lambda>(p, pr) c. be_as_inner (B p) (s_inner c)"
  by unfold_locales (auto intro!: sys_connect_acquires)

section \<open>Names of sockets\<close>

text \<open>
  What the documentation of the socket calls says of names, with \<open>loc\<close> and \<open>peer\<close> the name a
  socket is bound and connected to in a state: a call that succeeds sets the name to the
  bytes it was given, listening keeps it, and the two queries write it to the start of a
  buffer that has room for it.
\<close>

definition names_ok ::
    "('s, 'k, 'h) backend \<Rightarrow> ('s \<Rightarrow> 'h \<Rightarrow> u8 list option) \<Rightarrow> ('s \<Rightarrow> 'h \<Rightarrow> u8 list option) \<Rightarrow> bool" where
  "names_ok B loc peer \<longleftrightarrow>
     (\<forall>h a n s. fst (be_bind B h a n s) \<noteq> - 1 \<longrightarrow> loc (snd (be_bind B h a n s)) h = Some (take (unat n) a))
   \<and> (\<forall>h i s. loc (snd (be_listen B h i s)) = loc s)
   \<and> (\<forall>h a n s. fst (be_connect B h a n s) \<noteq> - 1 \<longrightarrow>
        peer (snd (be_connect B h a n s)) h = Some (take (unat n) a))
   \<and> (\<forall>h b n s name. loc s h = Some name \<and> length name \<le> length b \<longrightarrow>
        (let r = fst (be_getsockname B h b n s) in fst r = - 1 \<or> (\<exists>rest. fst (snd r) = name @ rest)))
   \<and> (\<forall>h b n s name. peer s h = Some name \<and> length name \<le> length b \<longrightarrow>
        (let r = fst (be_getpeername B h b n s) in fst r = - 1 \<or> (\<exists>rest. fst (snd r) = name @ rest)))"

lemma names_okD:
  assumes "names_ok B loc peer"
  shows "fst (be_bind B h a n s) \<noteq> - 1 \<Longrightarrow> loc (snd (be_bind B h a n s)) h = Some (take (unat n) a)"
    and "loc (snd (be_listen B h i s)) = loc s"
    and "fst (be_connect B h a n s) \<noteq> - 1 \<Longrightarrow> peer (snd (be_connect B h a n s)) h = Some (take (unat n) a)"
    and "loc s h = Some name \<Longrightarrow> length name \<le> length b \<Longrightarrow> fst (fst (be_getsockname B h b n s)) \<noteq> - 1 \<Longrightarrow>
      \<exists>rest. fst (snd (fst (be_getsockname B h b n s))) = name @ rest"
    and "peer s h = Some name \<Longrightarrow> length name \<le> length b \<Longrightarrow> fst (fst (be_getpeername B h b n s)) \<noteq> - 1 \<Longrightarrow>
      \<exists>rest. fst (snd (fst (be_getpeername B h b n s))) = name @ rest"
  using assms unfolding names_ok_def Let_def by metis+

text \<open>The bytes of an address, as long as the length passed along says.\<close>

definition addr_bytes :: "('s, 'k, 'h) backend \<Rightarrow> bt_addr \<Rightarrow> u8 list" where
  "addr_bytes B a = take (unat (snd (be_into B a))) (fst (be_into B a))"

definition denotes :: "('s, 'k, 'h) backend \<Rightarrow> u8 list \<Rightarrow> bt_addr \<Rightarrow> bool" where
  "denotes B name a \<longleftrightarrow> length name \<le> unat (storage_size (btc B)) \<and> (\<forall>rest. be_from B (name @ rest) = a)"

text \<open>
  A pair of conversions between addresses and memory: whatever follows the bytes the length
  covers, reading gives the address that was written. Beside them, what \<open>cvt\<close> and \<open>cvt_r\<close>
  make of a result.
\<close>

locale addr_codec =
  fixes B :: "'p \<Rightarrow> ('s, 'k, 'h) backend"
    and layout :: "'p \<Rightarrow> bool"
    and le :: "'p \<Rightarrow> 's \<Rightarrow> io_error"
  assumes from_into: "layout p \<Longrightarrow> be_into (B p) a = (mem, n) \<Longrightarrow> be_from (B p) (take (unat n) mem @ rest) = a"
    and into_fits: "layout p \<Longrightarrow> be_into (B p) a = (mem, n) \<Longrightarrow> n \<le> storage_size (btc (B p))"
    and cvt_is: "be_cvt (B p) r s = (if r = - 1 then Some (Err (le p s), s) else Some (Ok r, s))"
    and cvt_r_after: "(\<And>s. fst (c s) \<noteq> - 1 \<Longrightarrow> P (snd (c s))) \<Longrightarrow>
      triple (\<lambda>_. True) (be_cvt_r (B p) c) (\<lambda>_. P)"
begin

lemma wp_be_cvt: "wp t (be_cvt (B p) r) Q s = (if r = - 1 then Q (Err (le p s)) s else Q (Ok r) s)"
  by (simp add: wp_def cvt_is)

lemma triple_call_cvt:
  assumes "\<And>s. R s \<Longrightarrow> fst (c s) \<noteq> - 1 \<Longrightarrow> P (snd (c s))"
  shows "triple R (io_bind (io_call c) (be_cvt (B p))) (\<lambda>_. P)"
  using assms by (simp add: triple_def io_wp wp_be_cvt)

text \<open>
  The bytes \<open>name\<close> denote an address if reading them back gives it, whatever follows them. A
  query that writes them to the start of its buffer gives the address back.
\<close>

lemma triple_sockname:
  assumes "denotes (B p) name addr"
    and "\<And>b len s. R s \<Longrightarrow> length name \<le> length b \<Longrightarrow> fst (fst (f b len s)) \<noteq> - 1 \<Longrightarrow>
      \<exists>rest. fst (snd (fst (f b len s))) = name @ rest"
  shows "triple R (be_sockname (B p) f) (\<lambda>a _. a = addr)"
proof (rule tripleI)
  fix s
  assume "R s"
  let ?size = "storage_size (btc (B p))"
  let ?r = "fst (f (replicate (unat ?size) 0) ?size s)"
  have "fst ?r \<noteq> - 1 \<Longrightarrow> be_from (B p) (fst (snd ?r)) = addr"
    using assms(2) [OF \<open>R s\<close>] assms(1) unfolding denotes_def by (metis length_replicate)
  then show "wp True (be_sockname (B p) f) (\<lambda>r s'. case r of Ok a \<Rightarrow> a = addr | _ \<Rightarrow> True) s"
    by (simp add: be_sockname_def sockname_def io_wp wp_be_cvt split_beta)
qed

lemma addr_bytes_denotes: "layout p \<Longrightarrow> denotes (B p) (addr_bytes (B p) addr) addr"
  using from_into [of p addr "fst (be_into (B p) addr)" "snd (be_into (B p) addr)"]
    into_fits [of p addr "fst (be_into (B p) addr)" "snd (be_into (B p) addr)"]
  by (simp add: denotes_def addr_bytes_def word_le_nat_alt min.coboundedI2)

lemma bind_names:
  assumes "names_ok (B p) loc peer"
  shows "triple (\<lambda>_. True) (sys_bind (B p) addr pr)
    (\<lambda>l s. loc s (be_as_inner (B p) (l_inner l)) = Some (addr_bytes (B p) addr))"
proof -
  obtain mem n where into: "be_into (B p) addr = (mem, n)"
    by (cases "be_into (B p) addr")
  then have name: "addr_bytes (B p) addr = take (unat n) mem"
    by (simp add: addr_bytes_def)
  let ?bound = "\<lambda>h s. loc s h = Some (take (unat n) mem)"
  have bind_call: "triple (\<lambda>_. True) (io_bind (io_call (be_bind (B p) h mem n)) (be_cvt (B p))) (\<lambda>_. ?bound h)" for h
    by (rule triple_call_cvt) (rule names_okD(1) [OF assms])
  have listen_call: "triple (?bound h) (io_bind (io_call (be_listen (B p) h i)) (be_cvt (B p))) (\<lambda>_. ?bound h)"
    for h i by (rule triple_call_cvt) (simp add: names_okD(2) [OF assms])
  show ?thesis
    unfolding sys_bind_def into prod.case name
    by (rule triple_bind [OF triple_top], rule triple_with_drop, rule triple_bind [OF triple_top],
        rule triple_bind [OF bind_call], rule triple_bind [OF listen_call], rule triple_ret) simp
qed

lemma connect_names:
  assumes "names_ok (B p) loc peer"
  shows "triple (\<lambda>_. True) (sys_connect (B p) addr pr)
    (\<lambda>c s. peer s (be_as_inner (B p) (s_inner c)) = Some (addr_bytes (B p) addr))"
proof -
  obtain mem n where into: "be_into (B p) addr = (mem, n)"
    by (cases "be_into (B p) addr")
  then have name: "addr_bytes (B p) addr = take (unat n) mem"
    by (simp add: addr_bytes_def)
  have connect_call: "triple (\<lambda>_. True) (be_cvt_r (B p) (be_connect (B p) h mem n))
      (\<lambda>_ s. peer s h = Some (take (unat n) mem))" for h
    by (rule cvt_r_after) (rule names_okD(3) [OF assms])
  show ?thesis
    unfolding sys_connect_def into prod.case name
    by (rule triple_bind [OF triple_top], rule triple_with_drop, rule triple_bind [OF connect_call],
        rule triple_ret) simp
qed

lemma peer_reported:
  assumes "names_ok (B p) loc peer" and "denotes (B p) name addr"
  shows "triple (\<lambda>s. peer s (be_as_inner (B p) (s_inner c)) = Some name) (sys_peer_addr (B p) c) (\<lambda>a _. a = addr)"
  unfolding sys_peer_addr_def
  by (rule triple_sockname [OF assms(2)], erule names_okD [OF assms(1)], assumption+)

lemma names_reported:
  assumes "layout p" and "names_ok (B p) loc peer"
  shows "triple (\<lambda>s. loc s (be_as_inner (B p) (l_inner l)) = Some (addr_bytes (B p) addr))
      (sys_listener_local_addr (B p) l) (\<lambda>a _. a = addr)"
    and "triple (\<lambda>s. peer s (be_as_inner (B p) (s_inner c)) = Some (addr_bytes (B p) addr))
      (sys_peer_addr (B p) c) (\<lambda>a _. a = addr)"
  unfolding sys_listener_local_addr_def
  by (rule triple_sockname [OF addr_bytes_denotes [OF assms(1)]], erule names_okD [OF assms(2)], assumption+)
    (rule peer_reported [OF assms(2) addr_bytes_denotes [OF assms(1)]])

end

text \<open>
  A backend whose \<open>accept\<close> reports the address of the caller, for the views \<open>peer\<close> of the names
  of peers that \<open>accepts\<close> says are kept as documented: the name the new socket has from then on
  denotes the address returned.
\<close>

locale accepting_backend = addr_codec B layout le
  for B :: "'p \<Rightarrow> ('s, 'k, 'h) backend" and layout :: "'p \<Rightarrow> bool" and le :: "'p \<Rightarrow> 's \<Rightarrow> io_error" +
  fixes accepts :: "'p \<Rightarrow> ('s \<Rightarrow> 'h \<Rightarrow> u8 list option) \<Rightarrow> bool"
  assumes accept_names: "layout p \<Longrightarrow> accepts p peer \<Longrightarrow>
      triple (\<lambda>_. True) (be_accept (B p) k)
        (\<lambda>r s. \<exists>name. peer s (be_as_inner (B p) (fst r)) = Some name \<and> denotes (B p) name (snd r))"
begin

lemma accept_then_peer:
  assumes "layout p" and "names_ok (B p) loc peer" and "accepts p peer"
  shows "triple (\<lambda>_. True)
    (io_bind (sys_listener_accept (B p) l) (\<lambda>(c, a). io_map (\<lambda>b. (a, b)) (sys_peer_addr (B p) c)))
    (\<lambda>(a, b) _. b = a)"
proof -
  have query: "triple (\<lambda>s. \<exists>name. peer s (be_as_inner (B p) k) = Some name \<and> denotes (B p) name a)
      (sys_peer_addr (B p) \<lparr>s_inner = k, s_protocol = pr\<rparr>) (\<lambda>b _. b = a)" for k a pr
  proof (rule tripleI, elim exE conjE)
    fix s name
    assume "peer s (be_as_inner (B p) k) = Some name" and "denotes (B p) name a"
    from tripleD [OF peer_reported [OF assms(2) this(2), where c = "\<lparr>s_inner = k, s_protocol = pr\<rparr>"]] this(1)
    show "wp True (sys_peer_addr (B p) \<lparr>s_inner = k, s_protocol = pr\<rparr>)
        (\<lambda>r s'. case r of Ok b \<Rightarrow> b = a | _ \<Rightarrow> True) s"
      by simp
  qed
  show ?thesis
    unfolding sys_listener_accept_def io_map_def io_bind_assoc
    by (rule triple_bind [OF accept_names [OF assms(1,3)]])
      (auto intro!: triple_bind [OF query] triple_ret split: prod.split)
qed

end

end
