(* ===== verification/Backends.thy ===== *)
theory Backends
  imports Unix_Connect Win_Correct Common_Bt
begin

text \<open>
  The two backends as values of the interface of \<open>Common_Bt\<close>, with the interpretations of its
  locales. The state is the world with the static of the backend: \<open>TRY_CLOEXEC\<close> on Unix,
  \<open>START\<close> on Windows.
\<close>

section \<open>Lifting to the state with the static\<close>

definition call_on_world :: "('w, 'a) call \<Rightarrow> ('w \<times> 'st, 'a) call" where
  "call_on_world c s = (let r = c (fst s) in (fst r, (snd r, snd s)))"

definition with_static :: "('w \<times> 'buf, 'a) io \<Rightarrow> (('w \<times> 'st) \<times> 'buf, 'a) io" where
  "with_static m s =
     (case m (fst (fst s), snd s) of
        None \<Rightarrow> None
      | Some (r, (w, buf)) \<Rightarrow> Some (r, ((w, snd (fst s)), buf)))"

definition drop_on_world :: "('w \<Rightarrow> 'w) \<Rightarrow> 'w \<times> 'st \<Rightarrow> 'w \<times> 'st" where
  "drop_on_world d s = (d (fst s), snd s)"

lemma call_on_world_simps [simp]:
  "fst (call_on_world c s) = fst (c (fst s))"
  "snd (call_on_world c s) = (snd (c (fst s)), snd s)"
  by (simp_all add: call_on_world_def Let_def)

lemma wp_with_static [io_wp]:
  "wp t (with_static m) Q s = wp t m (\<lambda>r s'. Q r ((fst s', snd (fst s)), snd s')) (fst (fst s), snd s)"
  by (simp add: wp_def with_static_def split: option.split prod.split)

text \<open>Decimal digits, as the formatting of integers prints them.\<close>

fun show_nat :: "nat \<Rightarrow> string" where
  "show_nat n =
     (if n < 10 then [char_of (48 + n)] else show_nat (n div 10) @ [char_of (48 + n mod 10)])"

definition show_int :: "int \<Rightarrow> string" where
  "show_int i = (if i < 0 then ''-'' @ show_nat (nat (- i)) else show_nat (nat i))"

section \<open>Unix\<close>

definition msg_nosignal :: "'w libc \<Rightarrow> target \<Rightarrow> c_int" where
  "msg_nosignal lc tgt =
     (if os tgt \<in> {Linux, Android, DragonFly, FreeBSD, OpenBSD, NetBSD, Haiku, Bitrig}
      then MSG_NOSIGNAL (K lc) else 0)"

definition unix_btc :: "'w libc \<Rightarrow> target \<Rightarrow> btc_consts" where
  "unix_btc lc tgt =
     \<lparr>on_windows = is_windows tgt, nosignal = msg_nosignal lc tgt, sol_socket = SOL_SOCKET (K lc),
      so_reuseaddr = SO_REUSEADDR (K lc), so_rcvtimeo = SO_RCVTIMEO (K lc),
      so_sndtimeo = SO_SNDTIMEO (K lc), storage_size = size_storage lc, wrlen_max = - 1\<rparr>"

definition unix_backend :: "'w libc \<Rightarrow> target \<Rightarrow> ('w \<times> bool, unix_socket, c_int) backend" where
  "unix_backend lc tgt =
     \<lparr>btc = unix_btc lc tgt,
      be_show = (\<lambda>fd. show_int (sint fd)),
      be_as_inner = sock_as_inner,
      be_drop = (\<lambda>s. drop_on_world (sock_drop lc s)),
      be_cvt = (\<lambda>r. on_world (cvt (last_os_error lc) r)),
      be_cvt_r = cvt_r (kind_of lc) (le_local lc),
      be_into = unix_to_storage lc,
      be_from = unix_from_storage lc,
      be_setsockopt_int = (\<lambda>s l x v. on_world (unix_setsockopt_int lc s l x v)),
      be_bind = (\<lambda>fd a n. call_on_world (c_bind lc fd a n)),
      be_listen = (\<lambda>fd n. call_on_world (c_listen lc fd n)),
      be_connect = (\<lambda>fd a n. call_on_world (c_connect lc fd a n)),
      be_getsockname = (\<lambda>fd a n. call_on_world (c_getsockname lc fd a n)),
      be_getpeername = (\<lambda>fd a n. call_on_world (c_getpeername lc fd a n)),
      be_send = (\<lambda>fd buf n fl. on_world (io_map ucast (cvt_call lc (c_send lc fd buf n fl)))),
      be_sendto = (\<lambda>fd buf n fl a an.
        on_world (io_map ucast (cvt_call lc (c_sendto lc fd buf n fl a an)))),
      be_new = (\<lambda>pr. on_world (sock_new lc tgt pr)),
      be_accept = (\<lambda>s. on_world (sock_accept lc tgt s)),
      be_connect_timeout = (\<lambda>s a d. on_world (sock_connect_timeout lc s a d)),
      be_duplicate = (\<lambda>s. sock_duplicate lc tgt s),
      be_peek = (\<lambda>s. with_static (sock_peek lc s)),
      be_peek_from = (\<lambda>s. with_static (sock_peek_from lc s)),
      be_read = (\<lambda>s. with_static (sock_read lc s)),
      be_recv_from = (\<lambda>s. with_static (sock_recv_from lc s)),
      be_timeout = (\<lambda>s k. on_world (sock_timeout lc tgt s k)),
      be_set_timeout = (\<lambda>s d k. on_world (sock_set_timeout lc s d k)),
      be_shutdown = (\<lambda>s how. on_world (sock_shutdown lc s how)),
      be_set_nonblocking = (\<lambda>s b. on_world (sock_set_nonblocking lc s b)),
      be_take_error = (\<lambda>s. on_world (sock_take_error lc s))\<rparr>"

section \<open>Windows\<close>

definition win_btc :: "'w winapi \<Rightarrow> btc_consts" where
  "win_btc wa =
     \<lparr>on_windows = True, nosignal = 0, sol_socket = W_SOL_SOCKET (KW wa),
      so_reuseaddr = W_SO_REUSEADDR (KW wa), so_rcvtimeo = W_SO_RCVTIMEO (KW wa),
      so_sndtimeo = W_SO_SNDTIMEO (KW wa), storage_size = size_storage_lh (MW wa),
      wrlen_max = 2147483647\<rparr>"

definition win_backend :: "'w winapi \<Rightarrow> ('w \<times> bool, win_socket, win_socket_handle) backend" where
  "win_backend wa =
     \<lparr>btc = win_btc wa,
      be_show = (\<lambda>h. show_nat (unat h)),
      be_as_inner = win_as_inner,
      be_drop = (\<lambda>s. drop_on_world (win_drop wa s)),
      be_cvt = (\<lambda>r. on_world (win_cvt wa r)),
      be_cvt_r = (\<lambda>c. io_bind (io_call c) (\<lambda>r. on_world (win_cvt wa r))),
      be_into = win_to_storage wa,
      be_from = win_from_storage (MW wa),
      be_setsockopt_int = (\<lambda>s l x v. on_world (win_setsockopt wa s l x v)),
      be_bind = (\<lambda>h a n. call_on_world (w_bind wa h a n)),
      be_listen = (\<lambda>h n. call_on_world (w_listen wa h n)),
      be_connect = (\<lambda>h a n. call_on_world (w_connect wa h a n)),
      be_getsockname = (\<lambda>h a n. call_on_world (w_getsockname wa h a n)),
      be_getpeername = (\<lambda>h a n. call_on_world (w_getpeername wa h a n)),
      be_send = (\<lambda>h buf n fl.
        on_world (io_map scast (io_bind (io_call (w_send wa h buf (ucast n) fl)) (win_cvt wa)))),
      be_sendto = (\<lambda>h buf n fl a an.
        on_world (io_map scast (io_bind (io_call (w_sendto wa h buf (ucast n) fl a an)) (win_cvt wa)))),
      be_new = win_sock_new wa,
      be_accept = (\<lambda>s. on_world (win_sock_accept wa s)),
      be_connect_timeout = (\<lambda>s a d. on_world (win_connect_timeout wa s a d)),
      be_duplicate = (\<lambda>s. on_world (win_sock_duplicate wa s)),
      be_peek = (\<lambda>s. with_static (win_peek wa s)),
      be_peek_from = (\<lambda>s. with_static (win_peek_from wa s)),
      be_read = (\<lambda>s. with_static (win_read wa s)),
      be_recv_from = (\<lambda>s. with_static (win_recv_from wa s)),
      be_timeout = (\<lambda>s k. on_world (win_timeout wa s k)),
      be_set_timeout = (\<lambda>s d k. on_world (win_set_timeout wa s d k)),
      be_shutdown = (\<lambda>s how. on_world (win_shutdown wa s how)),
      be_set_nonblocking = (\<lambda>s b. on_world (win_set_nonblocking wa s b)),
      be_take_error = (\<lambda>s. on_world (win_take_error wa s))\<rparr>"

section \<open>The laws hold of Unix\<close>

lemma leaves_unix_connect:
  assumes "kernel_ok lc V"
  shows "leaves (\<lambda>s. opened V (fst s))
    (cvt_r (kind_of lc) (le_local lc) (call_on_world (c_connect lc fd a n)))"
proof (rule acquiresI)
  fix s :: "'a \<times> 'b"
  show "wp True (cvt_r (kind_of lc) (le_local lc) (call_on_world (c_connect lc fd a n)))
      (\<lambda>r s'. case r of Ok a \<Rightarrow> {} \<inter> opened V (fst s) = {} \<and> opened V (fst s') = {} \<union> opened V (fst s)
        | _ \<Rightarrow> opened V (fst s') = opened V (fst s)) s"
    by (rule wp_cvt_r [where I = "\<lambda>s'. opened V (fst s') = opened V (fst s)"])
      (simp_all add: io_wp kernel_neutral_views [OF assms])
qed

interpretation unix_sockets: socket_backend
  "\<lambda>(lc, tgt, V). unix_backend lc tgt" "\<lambda>(lc, tgt, V). kernel_ok lc V"
  "\<lambda>(lc, tgt, V) s. opened V (fst s)"
  by unfold_locales
    (auto simp: unix_backend_def drop_on_world_def sock_drop_opened sock_as_inner_def kernel_neutral_views
      intro!: acquires_on_world acquires_sock_new acquires_sock_accept acquires_sock_duplicate
        leaves_unix_sockopts leaves_cvt leaves_unix_connect leaves_connect_timeout)

interpretation unix_codec: addr_codec
  "\<lambda>(lc, tgt). unix_backend lc tgt" "\<lambda>(lc, tgt). rc_layout_ok lc" "\<lambda>(lc, tgt). le_local lc"
proof unfold_locales
  fix p :: "'a libc \<times> target" and a mem rest and n :: "32 word" and r :: c_int and s :: "'a \<times> bool"
    and c :: "('a \<times> bool, c_int) call" and P
  obtain lc tgt where p: "p = (lc, tgt)"
    by (cases p)
  note defs = p unix_backend_def unix_btc_def unix_to_storage_def unix_from_storage_def write_rc_def
    rc_layout_ok_def Let_def
  show "be_from (case p of (lc, tgt) \<Rightarrow> unix_backend lc tgt) (take (unat n) mem @ rest) = a"
    if "case p of (lc, tgt) \<Rightarrow> rc_layout_ok lc" and "be_into (case p of (lc, tgt) \<Rightarrow> unix_backend lc tgt) a = (mem, n)"
    using that by (cases a) (auto simp: defs)
  show "n \<le> storage_size (btc (case p of (lc, tgt) \<Rightarrow> unix_backend lc tgt))"
    if "case p of (lc, tgt) \<Rightarrow> rc_layout_ok lc" and "be_into (case p of (lc, tgt) \<Rightarrow> unix_backend lc tgt) a = (mem, n)"
    using that by (auto simp: defs)
  show "be_cvt (case p of (lc, tgt) \<Rightarrow> unix_backend lc tgt) r s
      = (if r = - 1 then Some (Err ((case p of (lc, tgt) \<Rightarrow> le_local lc) s), s) else Some (Ok r, s))"
    by (cases s) (simp add: defs cvt_def is_minus_one_def le_local_def io_defs)
  show "triple (\<lambda>_. True) (be_cvt_r (case p of (lc, tgt) \<Rightarrow> unix_backend lc tgt) c) (\<lambda>_. P)"
    if "\<And>s. fst (c s) \<noteq> - 1 \<Longrightarrow> P (snd (c s))"
    by (rule tripleI, simp add: defs, rule wp_cvt_r [where I = "\<lambda>_. True"]) (auto simp: io_wp that)
qed

section \<open>The laws hold of Windows\<close>

lemma leaves_win_sockopts:
  assumes "winsock_ok wa V"
  shows "leaves (w_opened V) (win_setsockopt wa s l x v)"
    and "leaves (w_opened V) (win_getsockopt wa s l x)"
  unfolding win_setsockopt_def win_getsockopt_def
  by (auto intro!: leaves_setsockopt leaves_getsockopt leaves_win_cvt simp: winsock_views [OF assms])

lemma leaves_win_set_nonblocking:
  assumes "winsock_ok wa V"
  shows "leaves (w_opened V) (win_set_nonblocking wa s b)"
  unfolding win_set_nonblocking_def Let_def
  by (auto intro!: acquires_bind leaves_w_neutral winsock_neutral [OF assms] leaves_win_cvt)

lemma leaves_win_await:
  assumes "winsock_ok wa V"
  shows "leaves (w_opened V) (win_await wa s d)"
  unfolding win_await_def win_take_error_def Let_def
  by (auto intro!: acquires_bind leaves_w_neutral winsock_neutral [OF assms] leaves_win_cvt
      leaves_win_sockopts [OF assms] acquires_ret acquires_err split: prod.split option.split)

lemma leaves_result: "leaves op m \<Longrightarrow> leaves op (io_result m)"
  unfolding io_result_def by (auto intro!: acquires_match)

lemma leaves_win_connect_timeout:
  assumes "winsock_ok wa V"
  shows "leaves (w_opened V) (win_connect_timeout wa s addr d)"
  unfolding win_connect_timeout_def
  by (auto intro!: acquires_bind leaves_win_set_nonblocking [OF assms] leaves_result leaves_w_neutral
      winsock_neutral [OF assms] leaves_win_cvt leaves_win_await [OF assms] acquires_ret acquires_err
      split: sum.split)

interpretation win_sockets: socket_backend
  "\<lambda>(wa, V). win_backend wa" "\<lambda>(wa, V). winsock_ok wa V" "\<lambda>(wa, V) s. w_opened V (fst s)"
  by unfold_locales
    (auto simp: win_backend_def drop_on_world_def winsock_close win_as_inner_def winsock_views
      intro!: acquires_on_world acquires_win_sock_new acquires_win_sock_accept acquires_win_sock_duplicate
        leaves_win_sockopts leaves_win_cvt leaves_win_connect_timeout acquires_bind leaves_call)

interpretation win_codec: addr_codec
  "\<lambda>wa. win_backend wa" "\<lambda>wa. bth_layout_ok (MW wa)" "\<lambda>wa s. last_error wa (fst s)"
proof unfold_locales
  fix wa :: "'a winapi" and a mem rest and n :: "32 word" and r :: c_int and s :: "'a \<times> bool"
    and c :: "('a \<times> bool, c_int) call" and P
  show "be_from (win_backend wa) (take (unat n) mem @ rest) = a"
    if layout: "bth_layout_ok (MW wa)" and "be_into (win_backend wa) a = (mem, n)"
  proof -
    define sab where "sab = (bth_of_bytes (MW wa) (storage_of_family (MW wa) (AF_BTH (KW wa))))
      \<lparr>btAddr := addr_to_u64 (MW wa) a, serviceClassId := RFCOMM_PROTOCOL_UUID (KW wa)\<rparr>"
    have "take (unat n) mem = bth_bytes (MW wa) sab"
      using that by (auto simp: win_to_storage_def write_bth_def bth_layout_ok_def sab_def win_backend_def Let_def)
    moreover have "bth_addr (MW wa) sab = a"
      by (rule bth_addr_to_u64 [OF layout]) (simp add: sab_def)
    ultimately show ?thesis
      using layout by (simp add: win_backend_def win_from_storage_def bth_layout_ok_def)
  qed
  show "n \<le> storage_size (btc (win_backend wa))"
    if "bth_layout_ok (MW wa)" and "be_into (win_backend wa) a = (mem, n)"
    using that by (auto simp: win_backend_def win_btc_def win_to_storage_def bth_layout_ok_def Let_def)
  show "be_cvt (win_backend wa) r s
      = (if r = - 1 then Some (Err (last_error wa (fst s)), s) else Some (Ok r, s))"
    by (cases s) (simp add: win_backend_def win_cvt_def win_is_minus_one_def io_defs)
  show "triple (\<lambda>_. True) (be_cvt_r (win_backend wa) c) (\<lambda>_. P)"
    if "\<And>s. fst (c s) \<noteq> - 1 \<Longrightarrow> P (snd (c s))"
    by (rule tripleI) (simp add: win_backend_def io_wp that)
qed

end
