(* ===== verification/Bt_Api.thy ===== *)
theory Bt_Api
  imports Backends
begin

text \<open>
  The public interface (\<open>src/bt/mod.rs\<close>): \<open>BtListener\<close> and \<open>BtStream\<close> wrap the values of
  \<open>src/sys_common/bt.rs\<close>, trying several addresses where the operation takes an iterator,
  and implement \<open>Read\<close>, \<open>Write\<close> and the conversions.
\<close>

datatype 'k bt_listener = BtListener (listener_inner: "'k sys_listener")

datatype 'k bt_stream = BtStream (stream_inner: "'k sys_stream")

section \<open>Listeners\<close>

definition listener_bind ::
    "('s, 'k, 'h) backend \<Rightarrow> bt_addr list \<Rightarrow> bt_protocol \<Rightarrow> ('s, 'k bt_listener) io" where
  "listener_bind B addrs protocol =
     io_map BtListener (each_addr addrs (\<lambda>addr. sys_bind B addr protocol))"

definition listener_accept ::
    "('s, 'k, 'h) backend \<Rightarrow> 'k bt_listener \<Rightarrow> ('s, 'k bt_stream \<times> bt_addr) io" where
  "listener_accept B self =
     io_map (\<lambda>(a, b). (BtStream a, b)) (sys_listener_accept B (listener_inner self))"

definition listener_local_addr :: "('s, 'k, 'h) backend \<Rightarrow> 'k bt_listener \<Rightarrow> ('s, bt_addr) io" where
  "listener_local_addr B self = sys_listener_local_addr B (listener_inner self)"

definition listener_protocol :: "'k bt_listener \<Rightarrow> bt_protocol" where
  "listener_protocol self = sys_listener_protocol (listener_inner self)"

definition listener_take_error :: "('s, 'k, 'h) backend \<Rightarrow> 'k bt_listener \<Rightarrow> ('s, io_error option) io" where
  "listener_take_error B self = sys_listener_take_error B (listener_inner self)"

definition listener_set_nonblocking ::
    "('s, 'k, 'h) backend \<Rightarrow> 'k bt_listener \<Rightarrow> bool \<Rightarrow> ('s, unit) io" where
  "listener_set_nonblocking B self nonblocking =
     sys_listener_set_nonblocking B (listener_inner self) nonblocking"

definition listener_try_clone :: "('s, 'k, 'h) backend \<Rightarrow> 'k bt_listener \<Rightarrow> ('s, 'k bt_listener) io" where
  "listener_try_clone B self = io_map BtListener (sys_listener_duplicate B (listener_inner self))"

definition listener_debug :: "('s, 'k, 'h) backend \<Rightarrow> 'k bt_listener \<Rightarrow> ('s, string) io" where
  "listener_debug B self = sys_listener_debug B (listener_inner self)"

definition listener_as_inner :: "'k bt_listener \<Rightarrow> 'k sys_listener" where
  "listener_as_inner self = listener_inner self"

definition listener_from_inner :: "'k sys_listener \<Rightarrow> 'k bt_listener" where
  "listener_from_inner inner = BtListener inner"

definition listener_into_inner :: "'k bt_listener \<Rightarrow> 'k sys_listener" where
  "listener_into_inner self = listener_inner self"

section \<open>Streams\<close>

definition stream_connect ::
    "('s, 'k, 'h) backend \<Rightarrow> bt_addr list \<Rightarrow> bt_protocol \<Rightarrow> ('s, 'k bt_stream) io" where
  "stream_connect B addrs protocol =
     io_map BtStream (each_addr addrs (\<lambda>addr. sys_connect B addr protocol))"

definition stream_connect_timeout ::
    "('s, 'k, 'h) backend \<Rightarrow> bt_addr \<Rightarrow> bt_protocol \<Rightarrow> duration \<Rightarrow> ('s, 'k bt_stream) io" where
  "stream_connect_timeout B addr protocol timeout =
     io_map BtStream (sys_connect_timeout B addr protocol timeout)"

definition stream_peek :: "('s, 'k, 'h) backend \<Rightarrow> 'k bt_stream \<Rightarrow> ('s \<times> u8 list, usize) io" where
  "stream_peek B self = sys_peek B (stream_inner self)"

definition stream_peek_from ::
    "('s, 'k, 'h) backend \<Rightarrow> 'k bt_stream \<Rightarrow> ('s \<times> u8 list, usize \<times> bt_addr) io" where
  "stream_peek_from B self = sys_peek_from B (stream_inner self)"

definition stream_recv :: "('s, 'k, 'h) backend \<Rightarrow> 'k bt_stream \<Rightarrow> ('s \<times> u8 list, usize) io" where
  "stream_recv B self = sys_recv B (stream_inner self)"

definition stream_recv_from ::
    "('s, 'k, 'h) backend \<Rightarrow> 'k bt_stream \<Rightarrow> ('s \<times> u8 list, usize \<times> bt_addr) io" where
  "stream_recv_from B self = sys_recv_from B (stream_inner self)"

definition stream_send :: "('s, 'k, 'h) backend \<Rightarrow> 'k bt_stream \<Rightarrow> u8 list \<Rightarrow> ('s, usize) io" where
  "stream_send B self buf = sys_send B (stream_inner self) buf"

definition stream_send_to ::
    "('s, 'k, 'h) backend \<Rightarrow> 'k bt_stream \<Rightarrow> u8 list \<Rightarrow> bt_addr \<Rightarrow> ('s, usize) io" where
  "stream_send_to B self buf dst = sys_send_to B (stream_inner self) buf dst"

definition stream_shutdown :: "('s, 'k, 'h) backend \<Rightarrow> 'k bt_stream \<Rightarrow> shutdown_how \<Rightarrow> ('s, unit) io" where
  "stream_shutdown B self how = sys_shutdown B (stream_inner self) how"

definition stream_local_addr :: "('s, 'k, 'h) backend \<Rightarrow> 'k bt_stream \<Rightarrow> ('s, bt_addr) io" where
  "stream_local_addr B self = sys_local_addr B (stream_inner self)"

definition stream_peer_addr :: "('s, 'k, 'h) backend \<Rightarrow> 'k bt_stream \<Rightarrow> ('s, bt_addr) io" where
  "stream_peer_addr B self = sys_peer_addr B (stream_inner self)"

definition stream_protocol :: "'k bt_stream \<Rightarrow> bt_protocol" where
  "stream_protocol self = sys_protocol (stream_inner self)"

definition stream_take_error :: "('s, 'k, 'h) backend \<Rightarrow> 'k bt_stream \<Rightarrow> ('s, io_error option) io" where
  "stream_take_error B self = sys_take_error B (stream_inner self)"

definition stream_read_timeout :: "('s, 'k, 'h) backend \<Rightarrow> 'k bt_stream \<Rightarrow> ('s, duration option) io" where
  "stream_read_timeout B self = sys_read_timeout B (stream_inner self)"

definition stream_set_read_timeout ::
    "('s, 'k, 'h) backend \<Rightarrow> 'k bt_stream \<Rightarrow> duration option \<Rightarrow> ('s, unit) io" where
  "stream_set_read_timeout B self dur = sys_set_read_timeout B (stream_inner self) dur"

definition stream_write_timeout :: "('s, 'k, 'h) backend \<Rightarrow> 'k bt_stream \<Rightarrow> ('s, duration option) io" where
  "stream_write_timeout B self = sys_write_timeout B (stream_inner self)"

definition stream_set_write_timeout ::
    "('s, 'k, 'h) backend \<Rightarrow> 'k bt_stream \<Rightarrow> duration option \<Rightarrow> ('s, unit) io" where
  "stream_set_write_timeout B self dur = sys_set_write_timeout B (stream_inner self) dur"

definition stream_set_nonblocking :: "('s, 'k, 'h) backend \<Rightarrow> 'k bt_stream \<Rightarrow> bool \<Rightarrow> ('s, unit) io" where
  "stream_set_nonblocking B self nonblocking = sys_set_nonblocking B (stream_inner self) nonblocking"

definition stream_try_clone :: "('s, 'k, 'h) backend \<Rightarrow> 'k bt_stream \<Rightarrow> ('s, 'k bt_stream) io" where
  "stream_try_clone B self = io_map BtStream (sys_duplicate B (stream_inner self))"

definition stream_debug :: "('s, 'k, 'h) backend \<Rightarrow> 'k bt_stream \<Rightarrow> ('s, string) io" where
  "stream_debug B self = sys_stream_debug B (stream_inner self)"

text \<open>\<open>impl Read\<close> and \<open>impl Write\<close>.\<close>

definition read_read :: "('s, 'k, 'h) backend \<Rightarrow> 'k bt_stream \<Rightarrow> ('s \<times> u8 list, usize) io" where
  "read_read B self = sys_recv B (stream_inner self)"

definition write_write :: "('s, 'k, 'h) backend \<Rightarrow> 'k bt_stream \<Rightarrow> u8 list \<Rightarrow> ('s, usize) io" where
  "write_write B self buf = sys_send B (stream_inner self) buf"

definition write_flush :: "'k bt_stream \<Rightarrow> ('s, unit) io" where
  "write_flush self = io_ret ()"

definition stream_as_inner :: "'k bt_stream \<Rightarrow> 'k sys_stream" where
  "stream_as_inner self = stream_inner self"

definition stream_from_inner :: "'k sys_stream \<Rightarrow> 'k bt_stream" where
  "stream_from_inner inner = BtStream inner"

definition stream_into_inner :: "'k bt_stream \<Rightarrow> 'k sys_stream" where
  "stream_into_inner self = stream_inner self"

section \<open>Sockets are not leaked\<close>

text \<open>The handle a listener or a stream owns.\<close>

abbreviation listener_handle :: "('s, 'k, 'h) backend \<Rightarrow> 'k bt_listener \<Rightarrow> 'h" where
  "listener_handle B l \<equiv> be_as_inner B (l_inner (listener_inner l))"

abbreviation stream_handle :: "('s, 'k, 'h) backend \<Rightarrow> 'k bt_stream \<Rightarrow> 'h" where
  "stream_handle B c \<equiv> be_as_inner B (s_inner (stream_inner c))"

context socket_backend begin

lemma api_acquires:
  assumes "ok p"
  shows "acquires (opn p) (listener_bind (B p) addrs pr) (\<lambda>l. {listener_handle (B p) l})"
    and "acquires (opn p) (stream_connect (B p) addrs pr) (\<lambda>c. {stream_handle (B p) c})"
    and "acquires (opn p) (stream_connect_timeout (B p) addr pr d) (\<lambda>c. {stream_handle (B p) c})"
    and "acquires (opn p) (listener_accept (B p) l) (\<lambda>r. {stream_handle (B p) (fst r)})"
    and "acquires (opn p) (listener_try_clone (B p) l) (\<lambda>l. {listener_handle (B p) l})"
    and "acquires (opn p) (stream_try_clone (B p) c) (\<lambda>c. {stream_handle (B p) c})"
proof -
  show "acquires (opn p) (listener_bind (B p) addrs pr) (\<lambda>l. {listener_handle (B p) l})"
    unfolding listener_bind_def
    using binds.each_acquires [of "(p, pr)" addrs] assms by (auto intro: acquires_map)
  show "acquires (opn p) (stream_connect (B p) addrs pr) (\<lambda>c. {stream_handle (B p) c})"
    unfolding stream_connect_def
    using connects.each_acquires [of "(p, pr)" addrs] assms by (auto intro: acquires_map)
  show "acquires (opn p) (stream_connect_timeout (B p) addr pr d) (\<lambda>c. {stream_handle (B p) c})"
    unfolding stream_connect_timeout_def
    by (rule acquires_map [OF sys_connect_timeout_acquires [OF assms]]) simp
  show "acquires (opn p) (listener_accept (B p) l) (\<lambda>r. {stream_handle (B p) (fst r)})"
    unfolding listener_accept_def
    by (rule acquires_map [OF listener_accept_acquires [OF assms]]) (auto split: prod.split)
  show "acquires (opn p) (listener_try_clone (B p) l) (\<lambda>l. {listener_handle (B p) l})"
    unfolding listener_try_clone_def by (rule acquires_map [OF duplicates_acquire(1) [OF assms]]) simp
  show "acquires (opn p) (stream_try_clone (B p) c) (\<lambda>c. {stream_handle (B p) c})"
    unfolding stream_try_clone_def by (rule acquires_map [OF duplicates_acquire(2) [OF assms]]) simp
qed

end

section \<open>Names\<close>

lemma triple_map_bind:
  assumes "triple R m P" and "\<And>a. triple (P a) (k (f a)) Q"
  shows "triple R (io_bind (io_map f m) k) Q"
  using triple_bind [OF assms] by (simp add: io_map_def io_bind_assoc)

lemma triple_ex_mem:
  assumes "\<And>a. triple (R a) m (\<lambda>b _. b = a)"
  shows "triple (\<lambda>s. \<exists>a\<in>A. R a s) m (\<lambda>b _. b \<in> A)"
proof (rule tripleI, elim bexE)
  fix s a
  assume "a \<in> A" and "R a s"
  from tripleD [OF assms this(2)] this(1)
  show "wp True m (\<lambda>r s'. case r of Ok b \<Rightarrow> b \<in> A | _ \<Rightarrow> True) s"
    by (auto elim!: wp_mono split: outcome.splits)
qed

context addr_codec begin

lemma api_bind_names:
  assumes "layout p" and "names_ok (B p) loc peer"
  shows "triple (\<lambda>_. True) (io_bind (listener_bind (B p) addrs pr) (listener_local_addr (B p)))
    (\<lambda>a _. a \<in> set addrs)"
  unfolding listener_bind_def
proof (rule triple_map_bind [OF triple_each_addr [OF bind_names [OF assms(2)]]])
  fix l
  show "triple (\<lambda>s. \<exists>a\<in>set addrs. loc s (be_as_inner (B p) (l_inner l)) = Some (addr_bytes (B p) a))
      (listener_local_addr (B p) (BtListener l)) (\<lambda>a _. a \<in> set addrs)"
    unfolding listener_local_addr_def bt_listener.sel
    by (rule triple_ex_mem) (rule names_reported(1) [OF assms])
qed

lemma api_connect_names:
  assumes "layout p" and "names_ok (B p) loc peer"
  shows "triple (\<lambda>_. True) (io_bind (stream_connect (B p) addrs pr) (stream_peer_addr (B p)))
    (\<lambda>a _. a \<in> set addrs)"
  unfolding stream_connect_def
proof (rule triple_map_bind [OF triple_each_addr [OF connect_names [OF assms(2)]]])
  fix c
  show "triple (\<lambda>s. \<exists>a\<in>set addrs. peer s (be_as_inner (B p) (s_inner c)) = Some (addr_bytes (B p) a))
      (stream_peer_addr (B p) (BtStream c)) (\<lambda>a _. a \<in> set addrs)"
    unfolding stream_peer_addr_def bt_stream.sel
    by (rule triple_ex_mem) (rule names_reported(2) [OF assms])
qed

end

end
