(* ===== verification/Unix_Discover.thy ===== *)
theory Unix_Discover
  imports Unix_Bt
begin

text \<open>
  \<open>discover_devices\<close> of \<open>src/sys/unix/bt.rs\<close>: ask the first adapter for the devices
  nearby. The buffer for the replies has room for 256 devices; the raw socket to the
  adapter is a plain integer here, not an owned \<open>FileDesc\<close>, so only the call at the end
  closes it.
\<close>

definition no_info :: inquiry_info where
  "no_info = \<lparr>bdaddr = Bytes6 0 0 0 0 0 0\<rparr>"

text \<open>
  \<open>Vec::truncate\<close> takes a \<open>usize\<close>; the count is a signed \<open>int\<close> that is extended.
\<close>

definition truncate_to :: "c_int \<Rightarrow> 'a list \<Rightarrow> 'a list" where
  "truncate_to n xs = take (unat (scast n :: usize)) xs"

definition unix_discover_devices :: "'w libc \<Rightarrow> ('w, bt_addr list) io" where
  "unix_discover_devices lc =
     io_bind (io_call (hci_get_route lc)) (\<lambda>device_id.
     if device_id = - 1 then io_bind (io_get (last_os_error lc)) io_err else
     io_bind (io_call (hci_open_dev lc device_id)) (\<lambda>local_socket.
     if local_socket = - 1 then io_bind (io_get (last_os_error lc)) io_err else
     io_bind (io_call (hci_inquiry lc device_id 4 256 (replicate 256 no_info) (IREQ_CACHE_FLUSH (K lc))))
       (\<lambda>(num_responses, inquiry_infos).
     if num_responses = - 1 then io_bind (io_get (last_os_error lc)) io_err else
     let inquiry_infos = truncate_to num_responses inquiry_infos;
         devices = map (\<lambda>ii. BtAddr (bdaddr ii)) inquiry_infos
     in io_bind (io_call (hci_close_dev lc local_socket)) (\<lambda>r.
          if r = - 1 then io_bind (io_get (last_os_error lc)) io_err else io_ret devices))))"

lemma wp_discover:
  "wp t (unix_discover_devices lc) Q w =
     (let route = hci_get_route lc w;
          dev = hci_open_dev lc (fst route) (snd route);
          inq = hci_inquiry lc (fst route) 4 256 (replicate 256 no_info) (IREQ_CACHE_FLUSH (K lc)) (snd dev);
          end = hci_close_dev lc (fst dev) (snd inq)
      in if fst route = - 1 then Q (Err (last_os_error lc (snd route))) (snd route)
         else if fst dev = - 1 then Q (Err (last_os_error lc (snd dev))) (snd dev)
         else if fst (fst inq) = - 1 then Q (Err (last_os_error lc (snd inq))) (snd inq)
         else if fst end = - 1 then Q (Err (last_os_error lc (snd end))) (snd end)
         else Q (Ok (map (\<lambda>ii. BtAddr (bdaddr ii)) (truncate_to (fst (fst inq)) (snd (fst inq))))) (snd end))"
  by (simp add: unix_discover_devices_def io_wp split_beta Let_def)

text \<open>A count the call may return: it is not negative and fits the buffer.\<close>

lemma truncate_to_small:
  assumes "0 \<le> sint n"
  shows "truncate_to n xs = take (nat (sint n)) xs"
proof -
  have "sint (scast n :: usize) = sint n"
    by (rule sint_up_scast) (simp add: is_up)
  moreover have "sint n < 2 ^ 31"
    using sint_lt [of n] by simp
  ultimately have "uint (scast n :: usize) = sint n"
    using assms by (simp add: uint_sint take_bit_int_eq_self)
  then show ?thesis
    by (simp add: truncate_to_def flip: nat_uint_eq)
qed

section \<open>What is reported\<close>

text \<open>
  What the inquiry relies on: it reports minus one, or the number of replies it wrote,
  which the limit it was given bounds; the buffer keeps its size.
\<close>

definition inquiry_ok :: "'w libc \<Rightarrow> bool" where
  "inquiry_ok lc \<longleftrightarrow> (\<forall>d t m l fl w. let r = fst (hci_inquiry lc d t m l fl w) in
     length (snd r) = length l \<and> (fst r = - 1 \<or> 0 \<le> sint (fst r) \<and> sint (fst r) \<le> sint m))"

lemma inquiry_okD:
  assumes "inquiry_ok lc"
  shows "length (snd (fst (hci_inquiry lc d t m l fl w))) = length l"
    and "fst (fst (hci_inquiry lc d t m l fl w)) \<noteq> - 1 \<Longrightarrow>
      0 \<le> sint (fst (fst (hci_inquiry lc d t m l fl w)))
      \<and> sint (fst (fst (hci_inquiry lc d t m l fl w))) \<le> sint m"
  using assms unfolding inquiry_ok_def Let_def by blast+

text \<open>
  C36. Discovery reports the devices the inquiry found, all of them and in its order: on
  success the list has as many addresses as the inquiry says it wrote replies, at most 256,
  and each is the address in the reply at its place. None of the empty entries the buffer
  was prepared with is reported.
\<close>

theorem discover_devices_reports:
  assumes "inquiry_ok lc"
  shows "wp True (unix_discover_devices lc) (\<lambda>r w'. \<forall>devs. r = Ok devs \<longrightarrow>
     (\<exists>d w0 n infos. fst (hci_inquiry lc d 4 256 (replicate 256 no_info) (IREQ_CACHE_FLUSH (K lc)) w0)
          = (n, infos)
        \<and> int (length devs) = sint n \<and> length devs \<le> 256
        \<and> (\<forall>i<length devs. devs ! i = BtAddr (bdaddr (infos ! i))))) w"
proof -
  define route where "route = hci_get_route lc w"
  define dev where "dev = hci_open_dev lc (fst route) (snd route)"
  define inq where "inq = hci_inquiry lc (fst route) 4 256 (replicate 256 no_info)
    (IREQ_CACHE_FLUSH (K lc)) (snd dev)"
  let ?devs = "map (\<lambda>ii. BtAddr (bdaddr ii)) (truncate_to (fst (fst inq)) (snd (fst inq)))"
  have "int (length ?devs) = sint (fst (fst inq)) \<and> length ?devs \<le> 256
      \<and> (\<forall>i<length ?devs. ?devs ! i = BtAddr (bdaddr (snd (fst inq) ! i)))"
    if "fst (fst inq) \<noteq> - 1"
  proof -
    have "length (snd (fst inq)) = 256" and "0 \<le> sint (fst (fst inq))" and "sint (fst (fst inq)) \<le> 256"
      using inquiry_okD [OF assms, of "fst route" 4 256 "replicate 256 no_info"] that
      by (simp_all add: inq_def)
    then show ?thesis
      by (simp add: truncate_to_small nat_le_iff)
  qed
  then show ?thesis
    unfolding wp_discover Let_def route_def [symmetric] dev_def [symmetric] inq_def [symmetric]
    by (auto simp: inq_def) (metis surjective_pairing)
qed

text \<open>A kernel with one device in range.\<close>

definition one_device_libc :: "sim libc" where
  "one_device_libc = sim_libc\<lparr>hci_inquiry := (\<lambda>d t m l fl w.
     ((if 1 \<le> sint m then 1 else - 1, l[0 := \<lparr>bdaddr = Bytes6 1 2 3 4 5 6\<rparr>]), w))\<rparr>"

theorem discover_devices_reports_witness:
  "wp True (unix_discover_devices one_device_libc) (\<lambda>r w'. \<forall>devs. r = Ok devs \<longrightarrow>
     (\<exists>d w0 n infos. fst (hci_inquiry one_device_libc d 4 256 (replicate 256 no_info)
          (IREQ_CACHE_FLUSH (K one_device_libc)) w0) = (n, infos)
        \<and> int (length devs) = sint n \<and> length devs \<le> 256
        \<and> (\<forall>i<length devs. devs ! i = BtAddr (bdaddr (infos ! i))))) sim_init"
proof -
  have "inquiry_ok one_device_libc"
    by (simp add: inquiry_ok_def one_device_libc_def)
  then show ?thesis
    by (rule discover_devices_reports)
qed

section \<open>The raw socket\<close>

text \<open>The socket the function leaves behind: the inquiry fails after the adapter was opened.\<close>

definition leaked_socket :: "'w libc \<Rightarrow> 'w \<Rightarrow> c_int option" where
  "leaked_socket lc w =
     (let route = hci_get_route lc w;
          dev = hci_open_dev lc (fst route) (snd route);
          inq = hci_inquiry lc (fst route) 4 256 (replicate 256 no_info) (IREQ_CACHE_FLUSH (K lc)) (snd dev)
      in if fst route \<noteq> - 1 \<and> fst dev \<noteq> - 1 \<and> fst (fst inq) = - 1 then Some (fst dev) else None)"

lemma discover_opened:
  assumes "kernel_ok lc V"
  shows "wp True (unix_discover_devices lc) (\<lambda>_ w'. opened V w' = opened V w \<union> set_option (leaked_socket lc w)) w"
  unfolding wp_discover leaked_socket_def Let_def
  using kernel_fresh(6) [OF assms, of "fst (hci_get_route lc w)" "snd (hci_get_route lc w)"]
  by (auto simp: kernel_views [OF assms] kernel_neutral_views [OF assms] kernel_close [OF assms])

text \<open>
  C24. Discovery leaks the raw socket to the adapter exactly when the inquiry fails after
  the adapter was opened: then the call reports an error and a descriptor that was not open
  before stays open. On every other path, success or failure, the open descriptors are those
  from before.
\<close>

theorem discover_devices_leak:
  assumes "kernel_ok lc V"
  shows "wp True (unix_discover_devices lc) (\<lambda>r w'.
      opened V w' = opened V w \<union> set_option (leaked_socket lc w)
    \<and> (\<forall>fd. leaked_socket lc w = Some fd \<longrightarrow> fd \<notin> opened V w \<and> (\<exists>e. r = Err e))) w"
  unfolding wp_discover leaked_socket_def Let_def
  using kernel_fresh(6) [OF assms, of "fst (hci_get_route lc w)" "snd (hci_get_route lc w)"]
  by (auto simp: kernel_views [OF assms] kernel_neutral_views [OF assms] kernel_close [OF assms])

theorem discover_devices_leak_witness:
  "wp True (unix_discover_devices sim_libc) (\<lambda>r w'. set (s_open w') = {0, 1, 2, 3} \<and> (\<exists>e. r = Err e))
     (sim_init\<lparr>s_script := [0, 0, 5]\<rparr>)"
proof -
  have "leaked_socket sim_libc (sim_init\<lparr>s_script := [0, 0, 5]\<rparr>) = Some 3"
    by (simp add: leaked_socket_def Let_def sim_libc_def sim_fails_def sim_init_def sim_alloc_def sim_fds_def
        upt_rec)
  then show ?thesis
    by (intro wp_mono [OF discover_devices_leak [OF sim_kernel_ok]]) (auto simp: sim_init_def)
qed

end
