(* ===== verification/Win_Discover.thy ===== *)
theory Win_Discover
  imports Win_Sim
begin

text \<open>
  Discovery on Windows (\<open>discover_devices\<close> of \<open>src/sys/windows/bt.rs\<close>): the loop over
  \<open>WSALookupServiceNextW\<close> as a relation, one rule per reply, the proof that the loop is that
  relation, and what becomes of the handle of the lookup.
\<close>

section \<open>The loop as a relation\<close>

definition lookup_reply ::
    "'w winapi \<Rightarrow> win_handle \<Rightarrow> usize list \<Rightarrow> 'w \<Rightarrow> (c_int \<times> u32 \<times> usize list) \<times> 'w" where
  "lookup_reply wa h buf =
     w_lookup_next wa h (LUP_CONTAINERS (KW wa) OR LUP_RETURN_ADDR (KW wa)) (of_nat (length buf * 8)) buf"

text \<open>
  \<open>browses wa h buf w as e w'\<close>: asked with the buffer \<open>buf\<close> in the world \<open>w\<close>, the service
  lists the addresses \<open>as\<close> and then ends, with no error or with the error \<open>e\<close>, in \<open>w'\<close>. A
  reply that the buffer is too small repeats the question with a larger one.
\<close>

inductive browses ::
    "'w winapi \<Rightarrow> win_handle \<Rightarrow> usize list \<Rightarrow> 'w \<Rightarrow> bt_addr list \<Rightarrow> io_error option \<Rightarrow> 'w \<Rightarrow> bool"
  for wa h where
  no_more: "lookup_reply wa h buf w = ((r, len, buf'), w') \<Longrightarrow> r \<noteq> 0 \<Longrightarrow>
     wsa_error wa w' = WSA_E_NO_MORE (KW wa) \<Longrightarrow> browses wa h buf w [] None w'"
| failed: "lookup_reply wa h buf w = ((r, len, buf'), w') \<Longrightarrow> r \<noteq> 0 \<Longrightarrow>
     wsa_error wa w' \<noteq> WSA_E_NO_MORE (KW wa) \<Longrightarrow> wsa_error wa w' \<noteq> WSAEFAULT (KW wa) \<Longrightarrow>
     browses wa h buf w [] (Some (Os (wsa_error wa w'))) w'"
| found: "lookup_reply wa h buf w = ((0, len, buf'), w') \<Longrightarrow> browses wa h buf' w' as e w'' \<Longrightarrow>
     browses wa h buf w (bth_addr (MW wa) (query_remote wa buf' w') # as) e w''"
| grown: "lookup_reply wa h buf w = ((r, len, buf'), w') \<Longrightarrow> r \<noteq> 0 \<Longrightarrow>
     wsa_error wa w' \<noteq> WSA_E_NO_MORE (KW wa) \<Longrightarrow> wsa_error wa w' = WSAEFAULT (KW wa) \<Longrightarrow>
     browses wa h (resize_with (1 + unat len div 8) buf') w' as e w'' \<Longrightarrow> browses wa h buf w as e w''"

inductive_cases browses_cases: "browses wa h buf w as e w'"

text \<open>One turn of the loop, by the reply.\<close>

lemma lookup_loop_step:
  assumes "lookup_reply wa h buf w = ((r, len, buf'), w')"
  shows "lookup_loop wa h buf acc w =
     (if r = 0 then lookup_loop wa h buf' (acc @ [bth_addr (MW wa) (query_remote wa buf' w')]) w'
      else if wsa_error wa w' = WSA_E_NO_MORE (KW wa) then Some (Ok acc, w')
      else if wsa_error wa w' = WSAEFAULT (KW wa)
      then lookup_loop wa h (resize_with (1 + unat len div 8) buf') acc w'
      else Some (Err (Os (wsa_error wa w')), w'))"
  by (subst lookup_loop.simps) (simp add: assms [unfolded lookup_reply_def] last_error_def Let_def del: of_nat_mult)

definition listed :: "bt_addr list \<Rightarrow> io_error option \<Rightarrow> bt_addr list outcome" where
  "listed as e = (case e of None \<Rightarrow> Ok as | Some e \<Rightarrow> Err e)"

lemma browses_lookup_loop:
  "browses wa h buf w as e w' \<Longrightarrow> lookup_loop wa h buf acc w = Some (listed (acc @ as) e, w')"
  by (induction arbitrary: acc rule: browses.induct) (simp_all add: lookup_loop_step listed_def split: option.split)

lemma lookup_loop_browses:
  assumes "lookup_loop wa h buf acc w = Some res"
  shows "\<exists>as e. browses wa h buf w as e (snd res) \<and> fst res = listed (acc @ as) e"
proof (rule lookup_loop.raw_induct [where P = "\<lambda>wa h buf acc w res.
    \<exists>as e. browses wa h buf w as e (snd res) \<and> fst res = listed (acc @ as) e", OF _ assms], goal_cases)
  case (1 rec wa h buf acc w res)
  obtain r len buf' w' where reply: "lookup_reply wa h buf w = ((r, len, buf'), w')"
    by (metis surj_pair)
  consider (found) "r = 0" "rec wa h buf' (acc @ [bth_addr (MW wa) (query_remote wa buf' w')]) w' = Some res"
    | (no_more) "r \<noteq> 0" "wsa_error wa w' = WSA_E_NO_MORE (KW wa)" "res = (Ok acc, w')"
    | (grown) "r \<noteq> 0" "wsa_error wa w' \<noteq> WSA_E_NO_MORE (KW wa)" "wsa_error wa w' = WSAEFAULT (KW wa)"
        "rec wa h (resize_with (1 + unat len div 8) buf') acc w' = Some res"
    | (failed) "r \<noteq> 0" "wsa_error wa w' \<noteq> WSA_E_NO_MORE (KW wa)" "wsa_error wa w' \<noteq> WSAEFAULT (KW wa)"
        "res = (Err (Os (wsa_error wa w')), w')"
    using 1(2) by (auto simp: reply [unfolded lookup_reply_def] last_error_def Let_def simp del: of_nat_mult
        split: if_splits)
  then show ?case
  proof cases
    case found
    from 1(1) [OF found(2)] obtain as e
      where "browses wa h buf' w' as e (snd res)"
        and "fst res = listed ((acc @ [bth_addr (MW wa) (query_remote wa buf' w')]) @ as) e"
      by blast
    with browses.found [OF reply [unfolded found(1)]] show ?thesis
      by (metis append.assoc append_Cons append_Nil)
  next
    case no_more
    with browses.no_more [OF reply] show ?thesis
      by (intro exI [of _ "[]"] exI [of _ None]) (simp add: listed_def)
  next
    case grown
    with 1(1) [OF grown(4)] browses.grown [OF reply] show ?thesis
      by blast
  next
    case failed
    with browses.failed [OF reply] show ?thesis
      by (intro exI [of _ "[]"] exI [of _ "Some (Os (wsa_error wa w'))"]) (simp add: listed_def)
  qed
qed

text \<open>
  C21. The discovery loop on Windows lists what the service lists: it returns exactly when
  the replies come to an end, with the addresses of the successful replies, all of them and in
  their order, or with the first error that is neither the end of the list nor a buffer that
  is too small. A buffer reported too small is grown and loses nothing.
\<close>

theorem lookup_loop_spec:
  "lookup_loop wa h buf [] w = Some (r, w')
     \<longleftrightarrow> (\<exists>as e. browses wa h buf w as e w' \<and> r = (case e of None \<Rightarrow> Ok as | Some e \<Rightarrow> Err e))"
  using lookup_loop_browses [of wa h buf "[]" w "(r, w')"] browses_lookup_loop [of wa h buf w _ _ w' "[]"]
  by (auto simp: listed_def)

section \<open>The handle of the lookup\<close>

lemma browses_views:
  assumes "browses wa h buf w as e w'" and "winsock_ok wa V"
  shows "w_opened V w' = w_opened V w \<and> w_lookups V w' = w_lookups V w"
  using assms(1)
proof (induction rule: browses.induct)
qed (use winsock_views [OF assms(2)] in \<open>metis lookup_reply_def snd_conv\<close>)+

lemma wp_lookup_loop:
  assumes "\<And>as e w'. browses wa h buf w as e w' \<Longrightarrow> Q (listed as e) w'"
  shows "wp True (lookup_loop wa h buf []) Q w"
proof (rule wpI)
  fix r w'
  assume "lookup_loop wa h buf [] w = Some (r, w')"
  then show "Q r w'"
    using lookup_loop_browses [of wa h buf "[]" w "(r, w')"] assms by auto
qed

definition after_init :: "'w winapi \<Rightarrow> 'w \<times> bool \<Rightarrow> 'w" where
  "after_init wa s = (if snd s then fst s else snd (dummy_udp_bind wa (fst s)))"

lemma wp_win_init: "wp t (win_init wa) Q s = Q (Ok ()) (after_init wa s, True)"
  by (cases s) (simp add: win_init_def after_init_def io_wp)

definition begin_reply :: "'w winapi \<Rightarrow> 'w \<Rightarrow> (c_int \<times> win_handle) \<times> 'w" where
  "begin_reply wa = w_lookup_begin wa \<lparr>dwSize = ucast (size_query (MW wa)), dwNameSpace = NS_BTH (KW wa)\<rparr>
     (LUP_CONTAINERS (KW wa) OR LUP_FLUSHCACHE (KW wa)) 0"

definition first_buffer :: "'w winapi \<Rightarrow> usize list" where
  "first_buffer wa = replicate (unat (size_query (MW wa)) div 8) 0"

lemma wp_win_discover:
  "wp t (win_discover_devices wa) Q s =
     (case begin_reply wa (after_init wa s) of ((r, h), w) \<Rightarrow>
        if r \<noteq> 0 then Q (Err (last_error wa w)) (w, True)
        else wp t (lookup_loop wa h (first_buffer wa) []) (\<lambda>r w'. case r of
            Ok as \<Rightarrow> (let w'' = snd (w_lookup_end wa h w') in
               if fst (w_lookup_end wa h w') \<noteq> 0 then Q (Err (last_error wa w'')) (w'', True)
               else Q (Ok as) (w'', True))
          | Err e \<Rightarrow> Q (Err e) (w', True) | Panic \<Rightarrow> Q Panic (w', True)) w)"
  by (simp add: win_discover_devices_def io_wp wp_win_init split_beta Let_def
      flip: begin_reply_def first_buffer_def cong: outcome.case_cong)

text \<open>
  A successful discovery on Windows closes its lookup: the sockets and the lookups open
  afterwards are those from before. A failed one leaves at most one lookup behind.
\<close>

theorem win_discover_closes:
  assumes "winsock_ok wa V"
  shows "wp True (win_discover_devices wa) (\<lambda>r s'. w_opened V (fst s') = w_opened V (fst s) \<and>
     (case r of
        Ok as \<Rightarrow> w_lookups V (fst s') = w_lookups V (fst s)
      | Err e \<Rightarrow> (\<exists>H. finite H \<and> card H \<le> 1 \<and> H \<inter> w_lookups V (fst s) = {}
           \<and> w_lookups V (fst s') = H \<union> w_lookups V (fst s))
      | Panic \<Rightarrow> False)) s"
proof -
  obtain r h w where reply: "begin_reply wa (after_init wa s) = ((r, h), w)"
    by (metis surj_pair)
  have init: "w_opened V (after_init wa s) = w_opened V (fst s)" "w_lookups V (after_init wa s) = w_lookups V (fst s)"
    by (simp_all add: after_init_def winsock_views [OF assms])
  have opened: "w_opened V w = w_opened V (fst s)"
    and refused: "r \<noteq> 0 \<Longrightarrow> w_lookups V w = w_lookups V (fst s)"
    and begun: "r = 0 \<Longrightarrow> h \<notin> w_lookups V (fst s) \<and> w_lookups V w = insert h (w_lookups V (fst s))"
    using winsock_lookup(1-3) [OF assms] reply init unfolding begin_reply_def by (metis fst_conv snd_conv)+
  note close = winsock_lookup(4,5) [OF assms]
  show ?thesis
  proof (cases "r = 0")
    case True
    have H: "\<exists>H. finite H \<and> card H \<le> 1 \<and> H \<inter> w_lookups V (fst s) = {}
        \<and> insert h (w_lookups V (fst s)) = H \<union> w_lookups V (fst s)"
      using begun [OF True] by (intro exI [of _ "{h}"]) simp
    have none: "\<exists>H. finite H \<and> card H \<le> 1 \<and> H \<inter> w_lookups V (fst s) = {}
        \<and> w_lookups V (fst s) = H \<union> w_lookups V (fst s)"
      by (intro exI [of _ "{}"]) simp
    show ?thesis
      unfolding wp_win_discover reply prod.case if_not_P [OF not_not [THEN iffD2, OF True]]
      by (rule wp_lookup_loop)
        (use browses_views [OF _ assms] begun [OF True] opened close H none in
          \<open>auto simp: listed_def Let_def split: option.split\<close>)
  next
    case False
    then show ?thesis
      using opened refused by (auto simp: wp_win_discover reply intro: exI [of _ "{}"])
  qed
qed

theorem win_discover_closes_witness:
  "wp True (win_discover_devices x_api) (\<lambda>r s'. x_open (fst s') = [] \<and>
     (case r of Ok as \<Rightarrow> x_lookups (fst s') = [] | Err e \<Rightarrow> True | Panic \<Rightarrow> False)) (wsim_init, False)"
  by (rule wp_mono [OF win_discover_closes [OF x_winsock_ok]])
    (auto simp: wsim_init_def split: outcome.splits)

text \<open>
  C25. Discovery on Windows leaks the handle of its lookup whenever the service fails in the
  middle: the error is returned at once, and the lookup, which was not open before, is never
  ended.
\<close>

theorem win_discover_leak:
  assumes "winsock_ok wa V" and "begin_reply wa (after_init wa s) = ((0, h), w)"
    and "browses wa h (first_buffer wa) w as (Some e) w'"
  shows "win_discover_devices wa s = Some (Err e, (w', True))
    \<and> h \<notin> w_lookups V (fst s) \<and> w_lookups V w' = insert h (w_lookups V (fst s))"
proof
  have "wp False (lookup_loop wa h (first_buffer wa) []) (\<lambda>r w''. r = Err e \<and> w'' = w') w"
    using browses_lookup_loop [OF assms(3), of "[]"] by (simp add: wp_def listed_def)
  then have "wp False (win_discover_devices wa) (\<lambda>r s'. r = Err e \<and> s' = (w', True)) s"
    by (simp add: wp_win_discover assms(2)) (erule wp_mono, simp)
  then show "win_discover_devices wa s = Some (Err e, (w', True))"
    by (simp only: wp_eq)
  have "w_lookups V (after_init wa s) = w_lookups V (fst s)"
    by (simp add: after_init_def winsock_views [OF assms(1)])
  then show "h \<notin> w_lookups V (fst s) \<and> w_lookups V w' = insert h (w_lookups V (fst s))"
    using winsock_lookup(3) [OF assms(1)] assms(2) browses_views [OF assms(3,1)]
    unfolding begin_reply_def by (metis fst_conv snd_conv)
qed

text \<open>The lookup begins, lists nothing and fails with a code of its own.\<close>

theorem win_discover_leak_witness:
  "\<exists>w'. win_discover_devices x_api (wsim_init\<lparr>x_script := [0, 10108]\<rparr>, False) = Some (Err (Os 10108), (w', True))
    \<and> set (x_lookups w') = {4}"
proof -
  let ?w = "wsim_init\<lparr>x_script := [10108], x_lookups := [4]\<rparr>"
  let ?w' = "wsim_init\<lparr>x_script := [], x_lookups := [4], x_error := 10108\<rparr>"
  let ?s = "(wsim_init\<lparr>x_script := [0, 10108]\<rparr>, False)"
  have begun: "begin_reply x_api (after_init x_api ?s) = ((0, 4), ?w)"
    by (simp add: begin_reply_def after_init_def x_api_def x_fails_def x_handles_def wsim_init_def upt_rec)
  have "browses x_api 4 (first_buffer x_api) ?w [] (Some (Os (wsa_error x_api ?w'))) ?w'"
  proof (rule browses.failed)
    show "lookup_reply x_api 4 (first_buffer x_api) ?w =
        ((- 1, of_nat (length (first_buffer x_api) * 8) + 8, first_buffer x_api), ?w')"
      by (simp add: lookup_reply_def x_api_def x_fails_def wsim_init_def)
  qed (simp_all add: x_api_def x_consts_def)
  then have "browses x_api 4 (first_buffer x_api) ?w [] (Some (Os 10108)) ?w'"
    by (simp add: x_api_def)
  from win_discover_leak [OF x_winsock_ok begun this] show ?thesis
    by (intro exI [of _ ?w']) (simp add: wsim_init_def)
qed

end
