(* ===== verification/Panic_Free.thy ===== *)
theory Panic_Free
  imports Bt_Api Unix_Discover Win_Discover
begin

text \<open>
  No operation panics. The predicate \<open>calm\<close> and its rules follow the combinators; the
  places of the source that can panic are the assertion on the length \<open>getsockopt\<close> reports
  (\<open>src/sys_common/bt.rs\<close>), the two conversions of a time limit to a \<open>Duration\<close>, and the
  subtraction of the time elapsed in the loop around \<open>poll\<close>. What the interface of a backend
  needs is a locale, interpreted on both backends.
\<close>

section \<open>Calm computations\<close>

definition calm :: "('s, 'a) io \<Rightarrow> bool" where
  "calm m \<longleftrightarrow> (\<forall>s. wp True m (\<lambda>r _. r \<noteq> Panic) s)"

named_theorems calms \<open>computations that do not panic\<close>

lemma calmI: "(\<And>s. wp True m (\<lambda>r _. r \<noteq> Panic) s) \<Longrightarrow> calm m"
  by (simp add: calm_def)

lemma calmD: "calm m \<Longrightarrow> wp True m (\<lambda>r _. r \<noteq> Panic) s"
  by (simp add: calm_def)

lemma calm_run: "calm m \<Longrightarrow> m s = Some (r, s') \<Longrightarrow> r \<noteq> Panic"
  by (drule wpD [OF calmD]) simp_all

lemma calm_leaf [calms]:
  "calm (io_ret a)" "calm (io_err e)" "calm (io_call c)" "calm (io_get f)" "calm (io_modify g)"
  by (simp_all add: calm_def io_wp)

lemma calm_match [calms]:
  fixes m :: "('s, 'a) io"
  assumes "calm m" and "\<And>a. calm (k a)" and "\<And>e. calm (h e)"
  shows "calm (io_match m k h)"
proof (rule calmI, simp only: wp_match, rule wp_mono [OF calmD [OF assms(1)]])
  fix r :: "'a outcome" and s'
  assume "r \<noteq> Panic"
  then show "case r of
      Ok a \<Rightarrow> wp True (k a) (\<lambda>r _. r \<noteq> Panic) s'
    | Err e \<Rightarrow> wp True (h e) (\<lambda>r _. r \<noteq> Panic) s'
    | Panic \<Rightarrow> Panic \<noteq> Panic"
    using calmD [OF assms(2)] calmD [OF assms(3)] by (cases r) simp_all
qed

lemma calm_bind [calms]: "calm m \<Longrightarrow> (\<And>a. calm (k a)) \<Longrightarrow> calm (io_bind m k)"
  unfolding io_bind_def by (intro calm_match calm_leaf)

lemma calm_map [calms]: "calm m \<Longrightarrow> calm (io_map f m)"
  unfolding io_map_def by (intro calm_bind calm_leaf)

lemma calm_result [calms]: "calm m \<Longrightarrow> calm (io_result m)"
  unfolding io_result_def by (intro calm_match calm_leaf)

lemma calm_with_drop [calms]: "calm m \<Longrightarrow> calm (with_drop d m)"
  by (rule calmI, simp only: wp_with_drop, rule wp_mono, erule calmD) (auto split: outcome.split)

lemma calm_locals [calms]: "calm m \<Longrightarrow> calm (io_locals l m)"
  by (simp add: calm_def io_wp)

lemma calm_on_world [calms]: "calm m \<Longrightarrow> calm (on_world m)"
  by (simp add: calm_def io_wp)

lemma calm_with_static [calms]: "calm m \<Longrightarrow> calm (with_static m)"
  by (simp add: calm_def io_wp)

lemma calm_cases [calms]:
  "calm m \<Longrightarrow> calm n \<Longrightarrow> calm (if c then m else n)"
  "(\<And>a b. calm (f a b)) \<Longrightarrow> calm (case p of (a, b) \<Rightarrow> f a b)"
  "calm m \<Longrightarrow> (\<And>a. calm (k a)) \<Longrightarrow> calm (case opt of None \<Rightarrow> m | Some a \<Rightarrow> k a)"
  "(\<And>a. calm (i a)) \<Longrightarrow> (\<And>a. calm (j a)) \<Longrightarrow> calm (case v of Inl a \<Rightarrow> i a | Inr a \<Rightarrow> j a)"
  "calm m1 \<Longrightarrow> calm m2 \<Longrightarrow> calm (case pr of L2CAP \<Rightarrow> m1 | RFCOMM \<Rightarrow> m2)"
  by (simp_all split: prod.split option.split sum.split bt_protocol.split)

lemma calm_cvt [calms]: "calm (cvt le x)" "calm (cvt_call lc c)" "calm (cvt_r kind le f)"
proof -
  show "calm (cvt le x)" "calm (cvt_call lc c)"
    by (simp_all add: calm_def io_wp)
  show "calm (cvt_r kind le f)"
    by (rule calmI, rule wp_cvt_r [where I = "\<lambda>_. True"]) (simp_all add: io_wp)
qed

lemma calm_setsockopt [calms]: "(\<And>r. calm (cv r)) \<Longrightarrow> calm (setsockopt cv call sz sock opt val payload)"
  unfolding setsockopt_def by (intro calms)

lemma calm_sockname [calms]: "(\<And>r. calm (cv r)) \<Longrightarrow> calm (sockname cv sz from f)"
  unfolding sockname_def by (intro calms)

lemma calm_getsockopt:
  assumes "\<And>r. calm (cv r)"
    and "\<And>w. wp True (cv (fst (fst (call sock opt val zeroed sz w))))
        (\<lambda>r _. (\<exists>a. r = Ok a) \<longrightarrow> snd (snd (fst (call sock opt val zeroed sz w))) = sz)
        (snd (call sock opt val zeroed sz w))"
  shows "calm (getsockopt cv call zeroed sz sock opt val)"
proof (rule calmI)
  fix s
  from assms(1) have "wp True (cv (fst (fst (call sock opt val zeroed sz s)))) (\<lambda>r _. r \<noteq> Panic)
      (snd (call sock opt val zeroed sz s))"
    by (rule calmD)
  with assms(2) have "wp True (cv (fst (fst (call sock opt val zeroed sz s))))
      (\<lambda>r _. ((\<exists>a. r = Ok a) \<longrightarrow> snd (snd (fst (call sock opt val zeroed sz s))) = sz) \<and> r \<noteq> Panic)
      (snd (call sock opt val zeroed sz s))"
    by (simp add: wp_conj)
  then show "wp True (getsockopt cv call zeroed sz sock opt val) (\<lambda>r _. r \<noteq> Panic) s"
    unfolding getsockopt_def
    by (simp add: io_wp split_beta) (erule wp_mono, auto simp: io_wp split_beta split: outcome.splits)
qed

lemma calm_each_addr [calms]:
  assumes "\<And>a. calm (f a)"
  shows "calm (each_addr addrs f)"
proof -
  have "calm (each_addr_from l addrs f)" for l
    by (induction addrs arbitrary: l) (auto intro!: calms assms)
  then show ?thesis
    by (simp add: each_addr_def)
qed

section \<open>Unix\<close>

text \<open>
  What \<open>getsockopt\<close> reports: the size of the option that was asked for, and for a time limit
  less than a million microseconds beside the seconds.
\<close>

definition options_ok :: "'w libc \<Rightarrow> bool" where
  "options_ok lc \<longleftrightarrow> (\<forall>fd l x w.
     (let (r, v, len) = fst (c_getsockopt_int lc fd l x 0 4 w) in r = - 1 \<or> len = 4)
   \<and> (let (r, tv, len) = fst (c_getsockopt_timeval lc fd l x (Timeval 0 0) 16 w)
      in r = - 1 \<or> len = 16 \<and> unat (tv_usec tv) < 1000000))"

lemma options_okD:
  assumes "options_ok lc"
  shows "fst (fst (c_getsockopt_int lc fd l x 0 4 w)) = - 1
      \<or> snd (snd (fst (c_getsockopt_int lc fd l x 0 4 w))) = 4"
    and "fst (fst (c_getsockopt_timeval lc fd l x (Timeval 0 0) 16 w)) = - 1
      \<or> snd (snd (fst (c_getsockopt_timeval lc fd l x (Timeval 0 0) 16 w))) = 16
        \<and> unat (tv_usec (fst (snd (fst (c_getsockopt_timeval lc fd l x (Timeval 0 0) 16 w))))) < 1000000"
  using assms by (auto simp: options_ok_def split_beta Let_def)

lemma duration_of_normal:
  assumes "unat (tv_usec tv) < 1000000"
  obtains d where "duration_of tgt tv = Some d"
proof -
  have u: "unat (ucast (tv_usec tv) :: u32) = unat (tv_usec tv)"
    using assms by (simp add: unsigned_ucast_eq take_bit_nat_eq_self_iff)
  have "unat (ucast (tv_usec tv) * 1000 :: u32) = unat (tv_usec tv) * 1000"
    using assms by (subst unat_mult_small) (simp_all add: u)
  moreover have "mul_u32 tgt (ucast (tv_usec tv)) 1000 = Some (ucast (tv_usec tv) * 1000)"
    using assms by (simp add: mul_u32_def checked_mul_def u)
  ultimately show thesis
    using assms that dur_new_small [of "ucast (tv_usec tv) * 1000 :: u32" "tv_sec tv"]
    by (simp add: duration_of_def nanos_per_sec_def)
qed

lemma calm_unix_sockopts [calms]:
  assumes "options_ok lc"
  shows "calm (unix_getsockopt_int lc s l x)" and "calm (sock_timeout lc tgt s k)"
    and "calm (sock_take_error lc s)"
proof -
  show int: "calm (unix_getsockopt_int lc s l x)" for l x
    unfolding unix_getsockopt_int_def
    by (rule calm_getsockopt) (use options_okD(1) [OF assms] in \<open>auto simp: io_wp intro: calms\<close>)
  then show "calm (sock_take_error lc s)"
    unfolding sock_take_error_def by (intro calms)
  show "calm (sock_timeout lc tgt s k)"
  proof (rule calmI)
    fix w
    show "wp True (sock_timeout lc tgt s k) (\<lambda>r _. r \<noteq> Panic) w"
      using options_okD(2) [OF assms, of "sock_as_inner s" "SOL_SOCKET (K lc)" k w]
      by (auto simp: sock_timeout_def unix_getsockopt_timeval_def getsockopt_def io_wp split_beta
          elim: duration_of_normal [of _ tgt])
  qed
qed

lemma dur_sub_less:
  assumes "e < d"
  obtains r where "dur_sub d e = Some r"
proof (cases "subsec_nanos e \<le> subsec_nanos d")
  case True
  with assms that show thesis
    by (auto simp: dur_sub_def checked_sub_def less_duration_def order.strict_implies_order)
next
  case False
  with assms have "as_secs e < as_secs d"
    by (auto simp: less_duration_def)
  then have "as_secs e \<le> as_secs d" and "1 \<le> as_secs d - as_secs e"
    by (auto simp: word_le_nat_alt word_less_nat_alt unat_sub)
  with False that show thesis
    by (simp add: dur_sub_def checked_sub_def)
qed

lemma calm_await [calms]:
  assumes "options_ok lc"
  shows "calm (await_connection lc self timeout)"
proof -
  have "calm (hangup_error lc self)"
    unfolding hangup_error_def by (intro calms assms)
  then have hangup: "wp True (hangup_error lc self) (\<lambda>r _. r \<noteq> Panic) w" for w
    by (simp add: calm_def)
  have "wp True (poll_loop lc self timeout start p) (\<lambda>r _. r \<noteq> Panic) w" for start p w
    by (rule poll_loop_rule [where J = "\<lambda>_ _. True"])
      (auto simp: Let_def hangup not_le split: option.split elim: dur_sub_less)
  then have "calm (poll_loop lc self timeout start p)" for start p
    by (simp add: calm_def)
  then show ?thesis
    unfolding await_connection_def Let_def by (intro calms)
qed

lemma calm_connect_timeout [calms]:
  assumes "options_ok lc"
  shows "calm (sock_connect_timeout lc self addr timeout)"
  unfolding sock_connect_timeout_def sock_set_nonblocking_def Let_def
  by (intro calms assms)

lemma calm_unix_sockets [calms]:
  "calm (fd_set_cloexec lc tgt f)" "calm (sock_new lc tgt pr)" "calm (sock_accept lc tgt s)"
  "calm (sock_duplicate lc tgt s)"
proof -
  show cloexec: "calm (fd_set_cloexec lc tgt f)" for f
    unfolding fd_set_cloexec_def Let_def by (intro calms)
  show "calm (sock_new lc tgt pr)"
    unfolding sock_new_def unix_setsockopt_int_def Let_def by (intro calms cloexec)
  show "calm (sock_accept lc tgt s)"
    unfolding sock_accept_def Let_def by (intro calms cloexec)
  show "calm (sock_duplicate lc tgt s)"
    unfolding sock_duplicate_def fd_duplicate_def make_filedesc_def Let_def by (intro calms cloexec)
qed

lemma calm_unix_io [calms]:
  "calm (sock_recv_with_flags lc s fl)" "calm (sock_recv_from_with_flags lc s fl)"
  "calm (sock_set_timeout lc s d k)" "calm (sock_shutdown lc s how)" "calm (sock_set_nonblocking lc s b)"
  "calm (unix_discover_devices lc)"
  unfolding sock_recv_with_flags_def sock_recv_from_with_flags_def sock_set_timeout_def sock_shutdown_def
    sock_set_nonblocking_def unix_discover_devices_def unix_setsockopt_timeval_def Let_def
  by (intro calms)+

section \<open>Windows\<close>

definition w_options_ok :: "'w winapi \<Rightarrow> bool" where
  "w_options_ok wa \<longleftrightarrow> (\<forall>h l x w.
     (let (r, v, len) = fst (w_getsockopt_u32 wa h l x 0 4 w) in r = - 1 \<or> len = 4))"

lemma calm_win_basics [calms]:
  "calm (win_cvt wa r)" "calm (cvt_bool wa b)" "calm (win_owned wa n)" "calm (win_init wa)"
  "calm (win_set_no_inherit wa s)" "calm (win_set_nonblocking wa s v)" "calm (win_setsockopt wa s l x u)"
proof -
  show cvt: "calm (win_cvt wa r)" for r
    unfolding win_cvt_def by (intro calms)
  show bool: "calm (cvt_bool wa b)" for b
    unfolding cvt_bool_def by (intro calms)
  show "calm (win_owned wa n)" "calm (win_init wa)" "calm (win_set_no_inherit wa s)"
    "calm (win_set_nonblocking wa s v)" "calm (win_setsockopt wa s l x u)"
    unfolding win_owned_def win_init_def win_set_no_inherit_def win_set_nonblocking_def win_setsockopt_def
      Let_def
    by (intro calms cvt bool)+
qed

lemma calm_win_getsockopt [calms]:
  assumes "w_options_ok wa"
  shows "calm (win_getsockopt wa s l x)"
  unfolding win_getsockopt_def
  by (rule calm_getsockopt)
    (use assms in \<open>auto simp: w_options_ok_def split_beta Let_def win_cvt_def win_is_minus_one_def io_wp
      intro: calms\<close>)

lemma calm_win_timeout [calms]:
  fixes wa :: "'w winapi"
  assumes "w_options_ok wa"
  shows "calm (win_timeout wa s k)"
proof -
  have millis: "calm (millis_duration raw :: ('w, _) io)" for raw
    by (rule calmI, rule wp_millis_duration) simp
  have eq: "win_timeout wa s k = io_bind (win_getsockopt wa s (W_SOL_SOCKET (KW wa)) k) millis_duration"
    unfolding win_timeout_def millis_duration_def [abs_def] Let_def ..
  show ?thesis
    unfolding eq by (intro calm_bind calm_win_getsockopt assms millis)
qed

lemma calm_win_take_error [calms]:
  "w_options_ok wa \<Longrightarrow> calm (win_take_error wa s)"
  unfolding win_take_error_def by (intro calms)

lemma calm_win_connect_timeout [calms]:
  "w_options_ok wa \<Longrightarrow> calm (win_connect_timeout wa s addr d)"
  unfolding win_connect_timeout_def win_await_def Let_def by (intro calms)

lemma calm_win_sockets [calms]:
  "calm (win_sock_new wa pr)" "calm (win_sock_accept wa s)" "calm (win_sock_duplicate wa s)"
  unfolding win_sock_new_def win_sock_accept_def win_sock_duplicate_def by (intro calms)+

lemma calm_win_io [calms]:
  "calm (win_recv_with_flags wa s fl)" "calm (win_recv_from_with_flags wa s fl)"
  "calm (win_set_timeout wa s d k)" "calm (win_shutdown wa s how)"
  unfolding win_recv_with_flags_def win_recv_from_with_flags_def win_set_timeout_def win_shutdown_def Let_def
  by (intro calms)+

lemma calm_win_discover [calms]: "calm (win_discover_devices wa)"
proof -
  have "calm (lookup_loop wa h buf acc)" for h buf acc
    by (intro calmI wpI) (auto dest!: lookup_loop_browses simp: listed_def split: option.splits)
  then show ?thesis
    unfolding win_discover_devices_def by (intro calms)
qed

section \<open>The public interface\<close>

text \<open>
  What the code above the backends needs: no operation a backend provides panics, as long as
  the platform answers for its options as documented (\<open>ok p\<close>).
\<close>

locale calm_backend =
  fixes B :: "'p \<Rightarrow> ('s, 'k, 'h) backend"
    and ok :: "'p \<Rightarrow> bool"
  assumes results_calm: "calm (be_cvt (B p) r)" "calm (be_cvt_r (B p) c)"
    and sockets_calm: "calm (be_new (B p) pr)" "calm (be_accept (B p) k)" "calm (be_duplicate (B p) k)"
      "calm (be_setsockopt_int (B p) k l x v)" "calm (be_set_nonblocking (B p) k b)"
      "calm (be_shutdown (B p) k how)" "calm (be_set_timeout (B p) k dur x)"
    and data_calm: "calm (be_send (B p) h buf n fl)" "calm (be_sendto (B p) h buf n fl a an)"
      "calm (be_peek (B p) k)" "calm (be_peek_from (B p) k)" "calm (be_read (B p) k)"
      "calm (be_recv_from (B p) k)"
    and options_calm: "ok p \<Longrightarrow> calm (be_timeout (B p) k x)" "ok p \<Longrightarrow> calm (be_take_error (B p) k)"
      "ok p \<Longrightarrow> calm (be_connect_timeout (B p) k addr d)"
begin

lemma calm_names: "calm (sys_local_addr (B p) c)" "calm (sys_peer_addr (B p) c)"
  "calm (sys_listener_local_addr (B p) l)"
  unfolding sys_local_addr_def sys_peer_addr_def sys_listener_local_addr_def be_sockname_def
  by (intro calms results_calm)+

lemma calm_listeners:
  shows "calm (listener_bind (B p) addrs pr)" and "calm (listener_accept (B p) l)"
    and "calm (listener_local_addr (B p) l)" and "calm (listener_set_nonblocking (B p) l b)"
    and "calm (listener_try_clone (B p) l)" and "calm (listener_debug (B p) l)"
    and "ok p \<Longrightarrow> calm (listener_take_error (B p) l)"
  unfolding listener_bind_def listener_accept_def listener_local_addr_def listener_set_nonblocking_def
    listener_try_clone_def listener_debug_def listener_take_error_def sys_bind_def
    sys_listener_accept_def sys_listener_set_nonblocking_def sys_listener_duplicate_def
    sys_listener_debug_def sys_debug_def sys_listener_take_error_def Let_def
  by (intro calms results_calm sockets_calm calm_names options_calm | assumption)+

lemma calm_streams:
  shows "calm (stream_connect (B p) addrs pr)" and "calm (stream_send (B p) c buf)"
    and "calm (stream_send_to (B p) c buf dst)" and "calm (stream_recv (B p) c)"
    and "calm (stream_recv_from (B p) c)" and "calm (stream_peek (B p) c)" and "calm (stream_peek_from (B p) c)"
    and "calm (stream_local_addr (B p) c)" and "calm (stream_peer_addr (B p) c)"
    and "calm (stream_shutdown (B p) c how)" and "calm (stream_set_nonblocking (B p) c b)"
    and "calm (stream_set_read_timeout (B p) c dur)" and "calm (stream_set_write_timeout (B p) c dur)"
    and "calm (stream_try_clone (B p) c)" and "calm (stream_debug (B p) c)"
  unfolding stream_connect_def stream_send_def stream_send_to_def stream_recv_def stream_recv_from_def
    stream_peek_def stream_peek_from_def stream_local_addr_def stream_peer_addr_def stream_shutdown_def
    stream_set_nonblocking_def stream_set_read_timeout_def stream_set_write_timeout_def
    stream_try_clone_def stream_debug_def sys_connect_def sys_send_def sys_send_to_def sys_recv_def
    sys_recv_from_def sys_peek_def sys_peek_from_def sys_shutdown_def sys_set_nonblocking_def
    sys_set_read_timeout_def sys_set_write_timeout_def sys_duplicate_def sys_stream_debug_def
    sys_debug_def Let_def
  by (intro calms results_calm sockets_calm data_calm calm_names)+

lemma calm_streams_options:
  assumes "ok p"
  shows "calm (stream_read_timeout (B p) c)" and "calm (stream_write_timeout (B p) c)"
    and "calm (stream_take_error (B p) c)" and "calm (stream_connect_timeout (B p) addr pr d)"
  unfolding stream_read_timeout_def stream_write_timeout_def stream_take_error_def
    stream_connect_timeout_def sys_read_timeout_def sys_write_timeout_def sys_take_error_def
    sys_connect_timeout_def
  by (intro calms sockets_calm options_calm assms)+

end

interpretation unix_calm: calm_backend "\<lambda>(lc, tgt). unix_backend lc tgt" "\<lambda>(lc, tgt). options_ok lc"
  by unfold_locales
    (auto simp: unix_backend_def sock_peek_def sock_peek_from_def sock_read_def sock_recv_from_def
      unix_setsockopt_int_def intro!: calms)

interpretation win_calm: calm_backend win_backend w_options_ok
  by unfold_locales
    (auto simp: win_backend_def win_peek_def win_peek_from_def win_read_def win_recv_from_def intro!: calms)

end
