(* ===== verification/Client.thy ===== *)
theory Client
  imports Panic_Free "HOL-Library.Multiset"
begin

text \<open>
  A program that uses the library: it owns listeners and streams, calls any operation of the
  public interface (\<open>src/bt/mod.rs\<close>) on them in any order, goes on after errors, and drops
  what it no longer needs. The states it can reach are an inductive predicate, and the
  ownership of sockets is an invariant of them on both backends.
\<close>

section \<open>Operations\<close>

datatype listener_use = L_Local_Addr | L_Take_Error | L_Set_Nonblocking bool | L_Debug

datatype stream_use =
    Send "u8 list" | Send_To "u8 list" bt_addr | Recv nat | Recv_From nat | Peek nat | Peek_From nat
  | Local_Addr | Peer_Addr | Take_Error | Debug
  | Read_Timeout | Set_Read_Timeout "duration option"
  | Write_Timeout | Set_Write_Timeout "duration option"
  | Shutdown shutdown_how | Set_Nonblocking bool

text \<open>The result of a use is of no interest here; a buffer lives as long as the call.\<close>

definition ignore :: "('s, 'a) io \<Rightarrow> ('s, unit) io" where
  "ignore m = io_map (\<lambda>_. ()) m"

definition with_buffer :: "nat \<Rightarrow> ('s \<times> u8 list, 'a) io \<Rightarrow> ('s, unit) io" where
  "with_buffer n m = ignore (io_locals (replicate n 0) m)"

fun use_listener :: "('s, 'k, 'h) backend \<Rightarrow> 'k bt_listener \<Rightarrow> listener_use \<Rightarrow> ('s, unit) io" where
  "use_listener B l L_Local_Addr = ignore (listener_local_addr B l)"
| "use_listener B l L_Take_Error = ignore (listener_take_error B l)"
| "use_listener B l (L_Set_Nonblocking b) = listener_set_nonblocking B l b"
| "use_listener B l L_Debug = ignore (listener_debug B l)"

fun use_stream :: "('s, 'k, 'h) backend \<Rightarrow> 'k bt_stream \<Rightarrow> stream_use \<Rightarrow> ('s, unit) io" where
  "use_stream B c (Send buf) = ignore (stream_send B c buf)"
| "use_stream B c (Send_To buf dst) = ignore (stream_send_to B c buf dst)"
| "use_stream B c (Recv n) = with_buffer n (stream_recv B c)"
| "use_stream B c (Recv_From n) = with_buffer n (stream_recv_from B c)"
| "use_stream B c (Peek n) = with_buffer n (stream_peek B c)"
| "use_stream B c (Peek_From n) = with_buffer n (stream_peek_from B c)"
| "use_stream B c Local_Addr = ignore (stream_local_addr B c)"
| "use_stream B c Peer_Addr = ignore (stream_peer_addr B c)"
| "use_stream B c Take_Error = ignore (stream_take_error B c)"
| "use_stream B c Debug = ignore (stream_debug B c)"
| "use_stream B c Read_Timeout = ignore (stream_read_timeout B c)"
| "use_stream B c (Set_Read_Timeout d) = stream_set_read_timeout B c d"
| "use_stream B c Write_Timeout = ignore (stream_write_timeout B c)"
| "use_stream B c (Set_Write_Timeout d) = stream_set_write_timeout B c d"
| "use_stream B c (Shutdown how) = stream_shutdown B c how"
| "use_stream B c (Set_Nonblocking b) = stream_set_nonblocking B c b"

section \<open>A client and its steps\<close>

record 'k client =
  listeners :: "'k bt_listener list"
  streams :: "'k bt_stream list"

datatype api_call =
    Bind "bt_addr list" bt_protocol
  | Connect "bt_addr list" bt_protocol
  | Connect_Timeout bt_addr bt_protocol duration
  | Accept nat
  | Clone_Listener nat
  | Clone_Stream nat
  | Drop_Listener nat
  | Drop_Stream nat
  | Use_Listener nat listener_use
  | Use_Stream nat stream_use

definition without :: "nat \<Rightarrow> 'a list \<Rightarrow> 'a list" where
  "without i xs = take i xs @ drop (Suc i) xs"

text \<open>
  One call, with the client's values after it. An index stands for one of the values the
  client owns; there is nothing to call where it has none.
\<close>

fun api_step :: "('s, 'k, 'h) backend \<Rightarrow> 'k client \<Rightarrow> api_call \<Rightarrow> ('s, 'k client) io" where
  "api_step B cl (Bind addrs pr) =
     io_map (\<lambda>l. cl\<lparr>listeners := l # listeners cl\<rparr>) (listener_bind B addrs pr)"
| "api_step B cl (Connect addrs pr) =
     io_map (\<lambda>c. cl\<lparr>streams := c # streams cl\<rparr>) (stream_connect B addrs pr)"
| "api_step B cl (Connect_Timeout addr pr d) =
     io_map (\<lambda>c. cl\<lparr>streams := c # streams cl\<rparr>) (stream_connect_timeout B addr pr d)"
| "api_step B cl (Accept i) =
     (if i < length (listeners cl)
      then io_map (\<lambda>r. cl\<lparr>streams := fst r # streams cl\<rparr>) (listener_accept B (listeners cl ! i))
      else io_ret cl)"
| "api_step B cl (Clone_Listener i) =
     (if i < length (listeners cl)
      then io_map (\<lambda>l. cl\<lparr>listeners := l # listeners cl\<rparr>) (listener_try_clone B (listeners cl ! i))
      else io_ret cl)"
| "api_step B cl (Clone_Stream i) =
     (if i < length (streams cl)
      then io_map (\<lambda>c. cl\<lparr>streams := c # streams cl\<rparr>) (stream_try_clone B (streams cl ! i))
      else io_ret cl)"
| "api_step B cl (Drop_Listener i) =
     (if i < length (listeners cl)
      then io_map (\<lambda>_. cl\<lparr>listeners := without i (listeners cl)\<rparr>)
             (io_modify (be_drop B (l_inner (listener_inner (listeners cl ! i)))))
      else io_ret cl)"
| "api_step B cl (Drop_Stream i) =
     (if i < length (streams cl)
      then io_map (\<lambda>_. cl\<lparr>streams := without i (streams cl)\<rparr>)
             (io_modify (be_drop B (s_inner (stream_inner (streams cl ! i)))))
      else io_ret cl)"
| "api_step B cl (Use_Listener i u) =
     (if i < length (listeners cl) then io_map (\<lambda>_. cl) (use_listener B (listeners cl ! i) u) else io_ret cl)"
| "api_step B cl (Use_Stream i u) =
     (if i < length (streams cl) then io_map (\<lambda>_. cl) (use_stream B (streams cl ! i) u) else io_ret cl)"

text \<open>
  The states a client reaches that starts with nothing in the state \<open>s0\<close>. After an error it
  has what it had.
\<close>

inductive api_reach :: "('s, 'k, 'h) backend \<Rightarrow> 's \<Rightarrow> 'k client \<Rightarrow> 's \<Rightarrow> bool" for B s0 where
  api_start: "api_reach B s0 \<lparr>listeners = [], streams = []\<rparr> s0"
| api_ok: "api_reach B s0 cl s \<Longrightarrow> api_step B cl call s = Some (Ok cl', s') \<Longrightarrow> api_reach B s0 cl' s'"
| api_error: "api_reach B s0 cl s \<Longrightarrow> api_step B cl call s = Some (Err e, s') \<Longrightarrow> api_reach B s0 cl s'"

section \<open>No step panics\<close>

lemma calm_ignore [calms]: "calm m \<Longrightarrow> calm (ignore m)"
  unfolding ignore_def by (rule calm_map)

lemma calm_with_buffer [calms]: "calm m \<Longrightarrow> calm (with_buffer n m)"
  unfolding with_buffer_def by (intro calms)

context calm_backend begin

lemma calm_use_listener: "ok p \<Longrightarrow> calm (use_listener (B p) l u)"
  by (cases u) (auto intro: calms calm_listeners)

lemma calm_use_stream: "ok p \<Longrightarrow> calm (use_stream (B p) c u)"
  by (cases u) (auto intro: calms calm_streams calm_streams_options)

lemma calm_step:
  assumes "ok p"
  shows "calm (api_step (B p) cl call)"
  using assms
  by (cases call)
    (auto intro: calms calm_listeners calm_streams calm_streams_options calm_use_listener calm_use_stream)

end

section \<open>Who owns the open sockets\<close>

definition handles :: "('s, 'k, 'h) backend \<Rightarrow> 'k client \<Rightarrow> 'h list" where
  "handles B cl = map (listener_handle B) (listeners cl) @ map (stream_handle B) (streams cl)"

text \<open>
  The invariant: no two values of the client have the same handle, none has a handle that
  was open at the start, and beside those of the start nothing else is open.
\<close>

definition owns_exactly :: "('s, 'k, 'h) backend \<Rightarrow> ('s \<Rightarrow> 'h set) \<Rightarrow> 's \<Rightarrow> 'k client \<Rightarrow> 's \<Rightarrow> bool" where
  "owns_exactly B op s0 cl s \<longleftrightarrow>
     distinct (handles B cl) \<and> set (handles B cl) \<inter> op s0 = {} \<and> op s = set (handles B cl) \<union> op s0"

text \<open>What a backend adds to the laws of \<open>socket_backend\<close>: using a socket opens and closes nothing.\<close>

locale client_backend = socket_backend +
  assumes sends_leave: "ok p \<Longrightarrow> leaves (opn p) (be_send (B p) h buf n fl)"
      "ok p \<Longrightarrow> leaves (opn p) (be_sendto (B p) h buf n fl a an)"
    and receives_leave: "ok p \<Longrightarrow> leaves (\<lambda>s. opn p (fst s)) (be_read (B p) k)"
      "ok p \<Longrightarrow> leaves (\<lambda>s. opn p (fst s)) (be_recv_from (B p) k)"
      "ok p \<Longrightarrow> leaves (\<lambda>s. opn p (fst s)) (be_peek (B p) k)"
      "ok p \<Longrightarrow> leaves (\<lambda>s. opn p (fst s)) (be_peek_from (B p) k)"
    and options_leave: "ok p \<Longrightarrow> leaves (opn p) (be_timeout (B p) k x)"
      "ok p \<Longrightarrow> leaves (opn p) (be_set_timeout (B p) k dur x)"
      "ok p \<Longrightarrow> leaves (opn p) (be_shutdown (B p) k how)"
      "ok p \<Longrightarrow> leaves (opn p) (be_set_nonblocking (B p) k b)"
      "ok p \<Longrightarrow> leaves (opn p) (be_take_error (B p) k)"
    and names_leave: "ok p \<Longrightarrow> opn p (snd (be_getsockname (B p) h mem len s)) = opn p s"
      "ok p \<Longrightarrow> opn p (snd (be_getpeername (B p) h mem len s)) = opn p s"
begin

lemma sockname_leaves:
  assumes "ok p"
  shows "leaves (opn p) (sys_local_addr (B p) c)" "leaves (opn p) (sys_peer_addr (B p) c)"
    "leaves (opn p) (sys_listener_local_addr (B p) l)"
  unfolding sys_local_addr_def sys_peer_addr_def sys_listener_local_addr_def be_sockname_def
  by (intro leaves_sockname cvt_leaves assms names_leave)+

lemma leaves_ignore: "leaves op m \<Longrightarrow> leaves op (ignore m)"
  unfolding ignore_def by (erule acquires_map) simp

lemma leaves_with_buffer: "leaves (\<lambda>s. op (fst s)) m \<Longrightarrow> leaves op (with_buffer n m)"
  unfolding with_buffer_def by (intro leaves_ignore acquires_locals)

lemma debug_leaves:
  assumes "leaves (opn p) m"
  shows "leaves (opn p) (sys_debug (B p) name m k)"
  unfolding sys_debug_def Let_def by (intro acquires_match assms acquires_ret) simp_all

lemma use_leaves:
  assumes "ok p"
  shows "leaves (opn p) (use_listener (B p) l u)" and "leaves (opn p) (use_stream (B p) c v)"
proof -
  show "leaves (opn p) (use_listener (B p) l u)"
    by (cases u)
      (auto simp: listener_local_addr_def listener_take_error_def listener_set_nonblocking_def listener_debug_def
        sys_listener_take_error_def sys_listener_set_nonblocking_def sys_listener_debug_def
        intro!: leaves_ignore debug_leaves sockname_leaves options_leave assms)
  show "leaves (opn p) (use_stream (B p) c v)"
    by (cases v)
      (auto simp: stream_send_def stream_send_to_def stream_recv_def stream_recv_from_def stream_peek_def
        stream_peek_from_def stream_local_addr_def stream_peer_addr_def stream_take_error_def
        stream_debug_def stream_read_timeout_def stream_set_read_timeout_def stream_write_timeout_def
        stream_set_write_timeout_def stream_shutdown_def stream_set_nonblocking_def sys_send_def
        sys_send_to_def sys_recv_def sys_recv_from_def sys_peek_def sys_peek_from_def sys_take_error_def
        sys_stream_debug_def sys_read_timeout_def sys_set_read_timeout_def sys_write_timeout_def
        sys_set_write_timeout_def sys_shutdown_def sys_set_nonblocking_def
        intro!: leaves_ignore leaves_with_buffer debug_leaves sockname_leaves sends_leave receives_leave
          options_leave assms split: prod.split)
qed

lemma mset_Cons:
  assumes "mset xs = add_mset y (mset ys)"
  shows "set xs = insert y (set ys)" and "distinct xs \<longleftrightarrow> distinct (y # ys)"
proof -
  have "mset xs = mset (y # ys)"
    using assms by simp
  then show "set xs = insert y (set ys)" and "distinct xs \<longleftrightarrow> distinct (y # ys)"
    using mset_eq_setD [of xs "y # ys"] mset_eq_imp_distinct_iff [of xs "y # ys"] by simp_all
qed

text \<open>How the invariant moves along a call that gains a socket, loses one, or does neither.\<close>

lemma owns_gained:
  assumes "owns_exactly (B p) (opn p) s0 cl s" and "acquires (opn p) m (\<lambda>a. {h a})"
    and "\<And>a. mset (handles (B p) (f a)) = add_mset (h a) (mset (handles (B p) cl))"
  shows "wp True (io_map f m) (\<lambda>r. owns_exactly (B p) (opn p) s0 (case r of Ok cl' \<Rightarrow> cl' | _ \<Rightarrow> cl)) s"
proof (simp only: wp_map, rule wp_mono [OF acquiresD [OF assms(2)]])
  fix r s'
  assume r: "case r of Ok a \<Rightarrow> {h a} \<inter> opn p s = {} \<and> opn p s' = {h a} \<union> opn p s | _ \<Rightarrow> opn p s' = opn p s"
  note gained = mset_Cons [OF assms(3)]
  with r assms(1) show "case r of
      Ok a \<Rightarrow> owns_exactly (B p) (opn p) s0 (case Ok (f a) of Ok cl' \<Rightarrow> cl' | _ \<Rightarrow> cl) s'
    | Err e \<Rightarrow> owns_exactly (B p) (opn p) s0 (case Err e of Ok cl' \<Rightarrow> cl' | _ \<Rightarrow> cl) s'
    | Panic \<Rightarrow> owns_exactly (B p) (opn p) s0 (case Panic of Ok cl' \<Rightarrow> cl' | _ \<Rightarrow> cl) s'"
    by (cases r) (auto simp: owns_exactly_def gained)
qed

lemma owns_kept:
  assumes "owns_exactly (B p) (opn p) s0 cl s" and "leaves (opn p) m"
  shows "wp True (io_map (\<lambda>_. cl) m) (\<lambda>r. owns_exactly (B p) (opn p) s0 (case r of Ok cl' \<Rightarrow> cl' | _ \<Rightarrow> cl)) s"
  unfolding wp_map
  by (rule wp_leaves [OF assms(2)]) (use assms(1) in \<open>auto simp: owns_exactly_def split: outcome.split\<close>)

lemma owns_lost:
  assumes "owns_exactly (B p) (opn p) s0 cl s" and "ok p"
    and "mset (handles (B p) cl) = add_mset (be_as_inner (B p) k) (mset (handles (B p) cl'))"
  shows "owns_exactly (B p) (opn p) s0 cl' (be_drop (B p) k s)"
  using assms(1) mset_Cons [OF assms(3)] by (auto simp: owns_exactly_def drop_closes [OF assms(2)])

end

lemma mset_without: "i < length xs \<Longrightarrow> mset xs = add_mset (xs ! i) (mset (without i xs))"
  by (subst id_take_nth_drop [of i xs]) (simp_all add: without_def)

context client_backend begin

lemma step_owns:
  assumes "ok p" and "owns_exactly (B p) (opn p) s0 cl s"
  shows "wp True (api_step (B p) cl call) (\<lambda>r. owns_exactly (B p) (opn p) s0 (case r of Ok cl' \<Rightarrow> cl' | _ \<Rightarrow> cl)) s"
proof (cases call)
  case (Drop_Listener i)
  then show ?thesis
    using assms(2) mset_without [of i "listeners cl"]
    by (auto simp: io_wp handles_def intro!: owns_lost [OF assms(2,1)])
next
  case (Drop_Stream i)
  then show ?thesis
    using assms(2) mset_without [of i "streams cl"]
    by (auto simp: io_wp handles_def intro!: owns_lost [OF assms(2,1)])
qed (auto simp: wp_ret handles_def assms(2)
    intro!: owns_gained [OF assms(2) api_acquires(1) [OF assms(1)]]
      owns_gained [OF assms(2) api_acquires(2) [OF assms(1)]]
      owns_gained [OF assms(2) api_acquires(3) [OF assms(1)]]
      owns_gained [OF assms(2) api_acquires(4) [OF assms(1)]]
      owns_gained [OF assms(2) api_acquires(5) [OF assms(1)]]
      owns_gained [OF assms(2) api_acquires(6) [OF assms(1)]]
      owns_kept [OF assms(2) use_leaves(1) [OF assms(1)]] owns_kept [OF assms(2) use_leaves(2) [OF assms(1)]])

lemma reach_owns:
  assumes "api_reach (B p) s0 cl s" and "ok p"
  shows "owns_exactly (B p) (opn p) s0 cl s"
  using assms(1)
proof induction
  case api_start
  show ?case
    by (simp add: owns_exactly_def handles_def)
next
  case (api_ok cl s call cl' s')
  then show ?case
    using wpD [OF step_owns [OF assms(2)] api_ok(2)] by simp
next
  case (api_error cl s call e s')
  then show ?case
    using wpD [OF step_owns [OF assms(2)] api_error(2)] by simp
qed

end

section \<open>The table of handles\<close>

text \<open>
  What a client does to the handles it owns, without the library: a call that creates a
  value may add one handle that neither it nor anyone before it had, a call that drops one
  may remove one, and nothing else changes the table.
\<close>

fun creates :: "api_call \<Rightarrow> bool" where
  "creates (Drop_Listener i) = False"
| "creates (Drop_Stream i) = False"
| "creates (Use_Listener i u) = False"
| "creates (Use_Stream i v) = False"
| "creates call = True"

fun drops :: "api_call \<Rightarrow> bool" where
  "drops (Drop_Listener i) = True"
| "drops (Drop_Stream i) = True"
| "drops call = False"

inductive handle_step :: "'h set \<Rightarrow> api_call \<Rightarrow> 'h set \<Rightarrow> 'h set \<Rightarrow> bool" for base where
  table_open: "creates call \<Longrightarrow> h \<notin> base \<union> H \<Longrightarrow> handle_step base call H (insert h H)"
| table_close: "drops call \<Longrightarrow> h \<in> H \<Longrightarrow> handle_step base call H (H - {h})"
| table_keep: "handle_step base call H H"

inductive_simps handle_step_use [simp]: "handle_step base (Use_Stream i v) H H'"

text \<open>The values a successful call leaves, on any backend.\<close>

lemma wp_map_values:
  assumes "\<And>a. P (f a)"
  shows "wp True (io_map f m) (\<lambda>r _. \<forall>v. r = Ok v \<longrightarrow> P v) s"
  unfolding wp_map using assms by (auto simp: wp_def split: option.split outcome.split)

lemma api_step_values:
  "wp True (api_step B cl call) (\<lambda>r _. \<forall>cl'. r = Ok cl' \<longrightarrow>
      creates call \<and> (\<exists>h. mset (handles B cl') = add_mset h (mset (handles B cl)))
    \<or> drops call \<and> (\<exists>h. mset (handles B cl) = add_mset h (mset (handles B cl')))
    \<or> cl' = cl) s"
proof (cases call)
  case (Drop_Listener i)
  then show ?thesis
    using mset_without [of i "listeners cl"] by (auto simp: io_wp handles_def)
next
  case (Drop_Stream i)
  then show ?thesis
    using mset_without [of i "streams cl"] by (auto simp: io_wp handles_def)
qed (auto simp: wp_ret handles_def intro!: wp_map_values)

context client_backend begin

lemma step_refines:
  assumes "ok p" and "owns_exactly (B p) (opn p) s0 cl s" and "api_step (B p) cl call s = Some (r, s')"
  shows "handle_step (opn p s0) call (opn p s - opn p s0) (opn p s' - opn p s0)"
proof -
  define cl' where "cl' = (case r of Ok cl' \<Rightarrow> cl' | _ \<Rightarrow> cl)"
  have after: "owns_exactly (B p) (opn p) s0 cl' s'"
    using wpD [OF step_owns [OF assms(1,2)] assms(3)] by (simp add: cl'_def)
  have table: "opn p s - opn p s0 = set (handles (B p) cl)" "opn p s' - opn p s0 = set (handles (B p) cl')"
    using assms(2) after by (auto simp: owns_exactly_def)
  consider (created) h where "creates call" "mset (handles (B p) cl') = add_mset h (mset (handles (B p) cl))"
    | (dropped) h where "drops call" "mset (handles (B p) cl) = add_mset h (mset (handles (B p) cl'))"
    | (same) "cl' = cl"
    using wpD [OF api_step_values assms(3)] by (cases r) (auto simp: cl'_def)
  then show ?thesis
    unfolding table
  proof cases
    case (created h)
    with after mset_Cons [OF created(2)] show
      "handle_step (opn p s0) call (set (handles (B p) cl)) (set (handles (B p) cl'))"
      by (auto simp: owns_exactly_def intro: table_open)
  next
    case (dropped h)
    have "set (handles (B p) cl') = set (handles (B p) cl) - {h}" and "h \<in> set (handles (B p) cl)"
      using assms(2) mset_Cons [OF dropped(2)] by (auto simp: owns_exactly_def)
    with dropped(1) show
      "handle_step (opn p s0) call (set (handles (B p) cl)) (set (handles (B p) cl'))"
      by (simp add: table_close)
  qed (simp add: table_keep)
qed

end

end
