(* ===== verification/Client_Backends.thy ===== *)
theory Client_Backends
  imports Client
begin

text \<open>
  Both backends keep the laws of \<open>client_backend\<close>, so the ownership invariant of \<open>Client\<close>
  holds of programs on either platform.
\<close>

lemma leaves_with_static:
  assumes "leaves (\<lambda>s. op (fst s)) m"
  shows "leaves (\<lambda>s. op (fst (fst s))) (with_static m)"
proof (rule acquiresI)
  fix s
  show "wp True (with_static m) (\<lambda>r s'. case r of
      Ok a \<Rightarrow> {} \<inter> op (fst (fst s)) = {} \<and> op (fst (fst s')) = {} \<union> op (fst (fst s))
    | _ \<Rightarrow> op (fst (fst s')) = op (fst (fst s))) s"
    using acquiresD [OF assms, of "(fst (fst s), snd s)"]
    by (simp add: wp_with_static cong: outcome.case_cong)
qed

lemma leaves_out_call:
  assumes "\<And>l w. op (snd (c l w)) = op w"
  shows "leaves (\<lambda>s. op (fst s)) (io_call (out_call c))"
  by (rule leaves_call) (simp add: assms)

lemma acquires_if: "acquires op m own \<Longrightarrow> acquires op n own \<Longrightarrow> acquires op (if c then m else n) own"
  by simp

section \<open>Unix\<close>

lemma leaves_unix_recv:
  assumes "kernel_ok lc V"
  shows "leaves (\<lambda>s. opened V (fst s)) (sock_recv_with_flags lc self fl)"
    and "leaves (\<lambda>s. opened V (fst s)) (sock_recv_from_with_flags lc self fl)"
proof -
  show "leaves (\<lambda>s. opened V (fst s)) (sock_recv_with_flags lc self fl)"
    unfolding sock_recv_with_flags_def
    by (intro acquires_bind leaves_out_call acquires_on_world leaves_cvt acquires_ret
        data_neutral_views [OF assms]) simp
  have call: "leaves (\<lambda>s. opened V (fst (fst s)))
      (io_call (\<lambda>((w, buf), (addr, addrlen)).
         case c_recvfrom lc (sock_raw self) buf (buf_len buf) fl addr addrlen w of
           ((r, buf', addr', addrlen'), w') \<Rightarrow> (r, ((w', buf'), (addr', addrlen')))))"
    by (rule leaves_call) (use data_neutral_views(2) [OF assms] in \<open>simp add: split_beta\<close>)
  show "leaves (\<lambda>s. opened V (fst s)) (sock_recv_from_with_flags lc self fl)"
    unfolding sock_recv_from_with_flags_def
    by (intro acquires_locals acquires_bind call acquires_on_world leaves_cvt leaves_get acquires_ret refl)
qed

lemma leaves_unix_options:
  assumes "kernel_ok lc V"
  shows "leaves (opened V) (sock_timeout lc tgt self kind)"
    and "leaves (opened V) (sock_set_timeout lc self dur kind)"
    and "leaves (opened V) (sock_shutdown lc self how)"
    and "leaves (opened V) (sock_set_nonblocking lc self b)"
    and "leaves (opened V) (sock_take_error lc self)"
  unfolding sock_timeout_def sock_set_timeout_def sock_shutdown_def sock_set_nonblocking_def
    sock_take_error_def Let_def
  by (auto intro!: acquires_bind acquires_map leaves_unix_sockopts [OF assms]
      leaves_neutral [OF data_neutral(5) [OF assms]] leaves_keeps [OF kernel_keeps(3) [OF assms]]
      split: option.split)

lemma leaves_unix_send:
  assumes "kernel_ok lc V"
  shows "leaves (opened V) (io_map f (cvt_call lc (c_send lc fd buf n fl)))"
    and "leaves (opened V) (io_map f (cvt_call lc (c_sendto lc fd buf n fl a an)))"
  by (auto intro!: acquires_map leaves_neutral data_neutral [OF assms])

interpretation unix_client: client_backend
  "\<lambda>(lc, tgt, V). unix_backend lc tgt" "\<lambda>(lc, tgt, V). kernel_ok lc V"
  "\<lambda>(lc, tgt, V) s. opened V (fst s)"
  by unfold_locales
    (auto simp: unix_backend_def sock_peek_def sock_peek_from_def sock_read_def sock_recv_from_def
      data_neutral_views
      intro!: acquires_on_world leaves_with_static leaves_unix_send leaves_unix_recv leaves_unix_options)

section \<open>Windows\<close>

lemma leaves_win_recv:
  assumes "winsock_ok wa V"
  shows "leaves (\<lambda>s. w_opened V (fst s)) (win_recv_with_flags wa self fl)"
    and "leaves (\<lambda>s. w_opened V (fst s)) (win_recv_from_with_flags wa self fl)"
proof -
  show "leaves (\<lambda>s. w_opened V (fst s)) (win_recv_with_flags wa self fl)"
    unfolding win_recv_with_flags_def
    by (intro acquires_bind leaves_out_call acquires_if acquires_ret acquires_err leaves_get
        win_data_views [OF assms] refl)
  have call: "leaves (\<lambda>s. w_opened V (fst (fst s)))
      (io_call (\<lambda>((w, buf), (addr, addrlen)).
         case w_recvfrom wa (win_raw self) buf (win_len buf) fl addr addrlen w of
           ((n, buf', addr', addrlen'), w') \<Rightarrow> (n, ((w', buf'), (addr', addrlen')))))"
    by (rule leaves_call) (use win_data_views(2) [OF assms] in \<open>simp add: split_beta\<close>)
  show "leaves (\<lambda>s. w_opened V (fst s)) (win_recv_from_with_flags wa self fl)"
    unfolding win_recv_from_with_flags_def Let_def
    by (intro acquires_locals acquires_bind call acquires_if acquires_ret acquires_err leaves_get refl)
qed

lemma leaves_win_options:
  assumes "winsock_ok wa V"
  shows "leaves (w_opened V) (win_timeout wa self kind)"
    and "leaves (w_opened V) (win_set_timeout wa self dur kind)"
    and "leaves (w_opened V) (win_shutdown wa self how)"
    and "leaves (w_opened V) (win_take_error wa self)"
  unfolding win_timeout_def win_set_timeout_def win_shutdown_def win_take_error_def Let_def
  by (auto intro!: acquires_bind leaves_win_sockopts [OF assms] leaves_w_neutral leaves_win_cvt
      win_data_neutral [OF assms] split: option.split)

lemma leaves_win_send:
  assumes "winsock_ok wa V"
  shows "leaves (w_opened V) (io_map f (io_bind (io_call (w_send wa h buf m fl)) (win_cvt wa)))"
    and "leaves (w_opened V) (io_map f (io_bind (io_call (w_sendto wa h buf m fl a an)) (win_cvt wa)))"
  by (auto intro!: acquires_map acquires_bind leaves_w_neutral leaves_win_cvt win_data_neutral [OF assms])

interpretation win_client: client_backend
  "\<lambda>(wa, V). win_backend wa" "\<lambda>(wa, V). winsock_ok wa V" "\<lambda>(wa, V) s. w_opened V (fst s)"
  by unfold_locales
    (auto simp: win_backend_def win_peek_def win_peek_from_def win_read_def win_recv_from_def
      win_data_views
      intro!: acquires_on_world leaves_with_static leaves_win_send leaves_win_recv leaves_win_options
        leaves_win_set_nonblocking)

end
