(* ===== verification/Example.thy ===== *)
theory Example
  imports Client_Backends
begin

text \<open>
  The example program (\<open>examples/01_socket.rs\<close>): it lists the devices in range, asks for the
  number of one of them, connects to it and prints how much it receives until an error ends
  it. The console is part of the state: the lines standard input will give (an error or a
  line of ASCII text each; an empty list is the end of the input, where reading goes on
  giving nothing) and the lines printed. Printing cannot fail in the model.
\<close>

section \<open>The console\<close>

record console =
  stdin :: "(io_error + string) list"
  stdout :: "string list"

definition println :: "string \<Rightarrow> ('s \<times> console, unit) io" where
  "println line = io_modify (\<lambda>(s, con). (s, con\<lparr>stdout := stdout con @ [line]\<rparr>))"

text \<open>\<open>Stdin::read_line\<close> into an empty buffer.\<close>

definition read_line :: "('s \<times> console, string) io" where
  "read_line s =
     (case stdin (snd s) of
        [] \<Rightarrow> Some (Ok '''', s)
      | Inl e # rest \<Rightarrow> Some (Err e, (fst s, (snd s)\<lparr>stdin := rest\<rparr>))
      | Inr line # rest \<Rightarrow> Some (Ok line, (fst s, (snd s)\<lparr>stdin := rest\<rparr>)))"

text \<open>\<open>str::trim_end\<close> on ASCII text and \<open>str::parse::<usize>\<close>, from the standard library.\<close>

definition is_white :: "char \<Rightarrow> bool" where
  "is_white c \<longleftrightarrow> (of_char c :: nat) \<in> {9, 10, 11, 12, 13, 32}"

definition trim_end :: "string \<Rightarrow> string" where
  "trim_end s = rev (dropWhile is_white (rev s))"

definition digit :: "char \<Rightarrow> nat option" where
  "digit c = (if 48 \<le> (of_char c :: nat) \<and> (of_char c :: nat) \<le> 57 then Some (of_char c - 48) else None)"

fun parse_digits :: "usize \<Rightarrow> string \<Rightarrow> usize option" where
  "parse_digits acc [] = Some acc"
| "parse_digits acc (c # cs) =
     (case digit c of
        None \<Rightarrow> None
      | Some d \<Rightarrow>
          (case Option.bind (checked_mul acc 10) (\<lambda>m. checked_add m (of_nat d)) of
             None \<Rightarrow> None
           | Some acc \<Rightarrow> parse_digits acc cs))"

fun parse_usize :: "string \<Rightarrow> usize option" where
  "parse_usize [] = None"
| "parse_usize (c # cs) =
     (if c = CHR ''+'' then (if cs = [] then None else parse_digits 0 cs) else parse_digits 0 (c # cs))"

section \<open>Asking for a device\<close>

partial_function (option) request_loop :: "usize \<Rightarrow> ('s \<times> console, usize) io" where
  "request_loop len s =
     (case read_line s of
        None \<Rightarrow> None
      | Some (r, s1) \<Rightarrow>
          (case r of
             Err e \<Rightarrow> Some (Err e, s1)
           | Panic \<Rightarrow> Some (Panic, s1)
           | Ok buffer \<Rightarrow>
               (case parse_usize (trim_end buffer) of
                  Some idx \<Rightarrow>
                    if idx < len then Some (Ok idx, s1)
                    else (case println ''Invalid index. Please try again.'' s1 of
                            None \<Rightarrow> None
                          | Some (r, s2) \<Rightarrow> request_loop len s2)
                | None \<Rightarrow>
                    (case println ''Invalid index. Please try again.'' s1 of
                       None \<Rightarrow> None
                     | Some (r, s2) \<Rightarrow> request_loop len s2))))"

declare request_loop.simps [code]

definition request_device_idx :: "usize \<Rightarrow> ('s \<times> console, usize) io" where
  "request_device_idx len =
     io_bind (println ''Please specify the index of the Bluetooth device you want to connect to:'')
       (\<lambda>_. request_loop len)"

section \<open>The program\<close>

fun print_devices :: "nat \<Rightarrow> bt_addr list \<Rightarrow> ('s \<times> console, unit) io" where
  "print_devices idx [] = io_ret ()"
| "print_devices idx (device # devices) =
     io_bind (println (show_nat idx @ '': '' @ display_fmt device)) (\<lambda>_. print_devices (Suc idx) devices)"

partial_function (option) receive_loop ::
    "('s, 'k, 'h) backend \<Rightarrow> 'k bt_stream \<Rightarrow> u8 list \<Rightarrow> ('s \<times> console, unit) io" where
  "receive_loop B socket buffer s =
     (case stream_recv B socket (fst s, buffer) of
        None \<Rightarrow> None
      | Some (r, w) \<Rightarrow>
          (case r of
             Err e \<Rightarrow> Some (Err e, (fst w, snd s))
           | Panic \<Rightarrow> Some (Panic, (fst w, snd s))
           | Ok len \<Rightarrow>
               (case println (''Received '' @ show_nat (unat len) @ '' bytes.'') (fst w, snd s) of
                  None \<Rightarrow> None
                | Some (r, s1) \<Rightarrow> receive_loop B socket (snd w) s1)))"

declare receive_loop.simps [code]

text \<open>
  \<open>discover\<close> is \<open>bt::discover_devices\<close> of the backend and \<open>show_err\<close> the \<open>Debug\<close> form of an
  error, whose text comes from the operating system; \<open>example_session\<close> is \<open>main\<close> from the
  second line on. Indexing panics out of bounds. The
  stream is dropped when \<open>main\<close> returns, which it only does with an error.
\<close>

definition example_session ::
    "(io_error \<Rightarrow> string) \<Rightarrow> ('s, 'k, 'h) backend \<Rightarrow> bt_addr list \<Rightarrow> ('s \<times> console, unit) io" where
  "example_session show_err B devices =
     io_bind (println ''Devices:'') (\<lambda>_.
     io_bind (print_devices 0 devices) (\<lambda>_.
     if devices = [] then io_err (Custom NotFound ''No Bluetooth devices found.'') else
     io_bind (request_device_idx (of_nat (length devices))) (\<lambda>device_idx.
     io_bind (if unat device_idx < length devices then io_ret (devices ! unat device_idx) else io_panic) (\<lambda>device.
     io_bind (on_world (stream_connect B [device] RFCOMM)) (\<lambda>socket.
       with_drop (\<lambda>s. (be_drop B (s_inner (stream_inner socket)) (fst s), snd s))
        (io_bind (io_match (on_world (stream_peer_addr B socket))
            (\<lambda>name. println (''Peername: '' @ display_fmt name @ ''.''))
            (\<lambda>err. println (''An error occured while retrieving the peername: '' @ show_err err))) (\<lambda>_.
         io_bind (io_match (on_world (stream_local_addr B socket))
            (\<lambda>name. println (''Socket name: '' @ display_fmt name))
            (\<lambda>err. println (''An error occured while retrieving the sockname: '' @ show_err err))) (\<lambda>_.
           receive_loop B socket (replicate 1024 0)))))))))"

definition example_main ::
    "(io_error \<Rightarrow> string) \<Rightarrow> ('s, 'k, 'h) backend \<Rightarrow> ('s, bt_addr list) io \<Rightarrow> ('s \<times> console, unit) io" where
  "example_main show_err B discover = io_bind (on_world discover) (example_session show_err B)"

section \<open>Typing a number that was printed\<close>

declare show_nat.simps [simp del]

lemma show_nat_unfold:
  "n < 10 \<Longrightarrow> show_nat n = [char_of (48 + n)]"
  "\<not> n < 10 \<Longrightarrow> show_nat n = show_nat (n div 10) @ [char_of (48 + n mod 10)]"
  by (simp_all add: show_nat.simps [of n])

lemma digit_char [simp]: "d < 10 \<Longrightarrow> digit (char_of (48 + d)) = Some d"
  by (simp add: digit_def take_bit_eq_mod)

lemma digit_plus [simp]: "digit (CHR ''+'') = None"
  by (simp add: digit_def)

lemma parse_digits_append:
  "parse_digits acc (xs @ ys) = Option.bind (parse_digits acc xs) (\<lambda>acc. parse_digits acc ys)"
  by (induction acc xs rule: parse_digits.induct) (simp_all split: option.split)

lemma parse_digits_show_nat:
  "n < 2 ^ 64 \<Longrightarrow> parse_digits 0 (show_nat n) = Some (of_nat n)"
proof (induction n rule: show_nat.induct)
  case (1 n)
  show ?case
  proof (cases "n < 10")
    case True
    moreover have "unat (of_nat n :: usize) = n"
      using 1(2) by (intro unat_of_nat_small) simp
    ultimately show ?thesis
      by (simp add: show_nat_unfold checked_mul_def checked_add_def)
  next
    case False
    with 1 have IH: "parse_digits 0 (show_nat (n div 10)) = Some (of_nat (n div 10))"
      by simp
    have u: "unat (of_nat (n div 10) :: usize) = n div 10" "unat (of_nat (n mod 10) :: usize) = n mod 10"
      using 1(2) by (simp_all add: unat_of_nat_small)
    have "checked_mul (of_nat (n div 10)) 10 = Some (of_nat (n div 10 * 10) :: usize)"
      using 1(2) by (simp add: checked_mul_def u)
    moreover have "checked_add (of_nat (n div 10 * 10)) (of_nat (n mod 10)) = Some (of_nat n :: usize)"
    proof -
      have "unat (of_nat (n div 10 * 10) :: usize) = n div 10 * 10"
        using 1(2) by (intro unat_of_nat_small) simp
      moreover have "(of_nat (n div 10 * 10) + of_nat (n mod 10) :: usize) = of_nat n"
        by (simp only: flip: of_nat_add) simp
      ultimately show ?thesis
        using 1(2) by (simp add: checked_add_def u del: of_nat_mult)
    qed
    ultimately show ?thesis
      using False IH by (simp add: show_nat_unfold(2) parse_digits_append del: of_nat_mult)
  qed
qed

lemma show_nat_not_empty [simp]: "show_nat n \<noteq> []"
  by (cases "n < 10") (simp_all add: show_nat_unfold)

lemma parse_usize_digits: "xs \<noteq> [] \<Longrightarrow> parse_digits 0 xs \<noteq> None \<Longrightarrow> parse_usize xs = parse_digits 0 xs"
  by (cases xs) (auto split: option.splits)

lemma parse_show_nat: "n < 2 ^ 64 \<Longrightarrow> parse_usize (show_nat n) = Some (of_nat n)"
  using parse_digits_show_nat [of n] by (simp add: parse_usize_digits)

lemma show_nat_digits: "c \<in> set (show_nat n) \<Longrightarrow> \<not> is_white c"
proof (induction n rule: show_nat.induct)
  case (1 n)
  have "\<not> is_white (char_of (48 + d))" if "d < 10" for d :: nat
    using that by (auto simp: is_white_def take_bit_eq_mod)
  with 1 show ?case
    by (cases "n < 10") (auto simp: show_nat_unfold)
qed

text \<open>
  A line that repeats the number of a device, with any white space behind it, is read as that
  number.
\<close>

lemma trim_end_show_nat:
  assumes "\<forall>c\<in>set ws. is_white c"
  shows "trim_end (show_nat n @ ws) = show_nat n"
proof -
  have "dropWhile is_white (rev (show_nat n)) = rev (show_nat n)"
    using show_nat_digits [of "hd (rev (show_nat n))" n] hd_in_set [of "rev (show_nat n)"]
    unfolding dropWhile_eq_self_iff set_rev by blast
  then show ?thesis
    unfolding trim_end_def rev_append using assms by (subst dropWhile_append2) simp_all
qed

section \<open>The answer\<close>

definition answer :: "usize \<Rightarrow> string \<Rightarrow> usize option" where
  "answer len line = Option.bind (parse_usize (trim_end line)) (\<lambda>idx. if idx < len then Some idx else None)"

fun refused :: "usize \<Rightarrow> io_error + string \<Rightarrow> bool" where
  "refused len (Inl e) = False"
| "refused len (Inr line) = (answer len line = None)"

definition try_again :: string where
  "try_again = ''Invalid index. Please try again.''"

lemma request_loop_step:
  "request_loop len (s, con) =
     (case stdin con of
        [] \<Rightarrow> request_loop len (s, con\<lparr>stdout := stdout con @ [try_again]\<rparr>)
      | line # rest \<Rightarrow>
          (case line of
             Inl e \<Rightarrow> Some (Err e, (s, con\<lparr>stdin := rest\<rparr>))
           | Inr line \<Rightarrow>
               (case answer len line of
                  Some idx \<Rightarrow> Some (Ok idx, (s, con\<lparr>stdin := rest\<rparr>))
                | None \<Rightarrow> request_loop len (s, con\<lparr>stdin := rest, stdout := stdout con @ [try_again]\<rparr>))))"
  by (subst request_loop.simps)
    (simp add: read_line_def println_def io_modify_def answer_def trim_end_def try_again_def
      split: list.split sum.split option.split)

lemma request_loop_no_input:
  assumes "stdin (snd s) = []"
  shows "request_loop len s = None"
proof -
  have False if "request_loop len s = Some r" for r
  proof -
    have "stdin (snd s) = [] \<longrightarrow> False"
    proof (rule request_loop.raw_induct [where P = "\<lambda>len s r. stdin (snd s) = [] \<longrightarrow> False", OF _ that],
        goal_cases)
      case (1 rec len s r)
      then have "stdin (snd s) = [] \<Longrightarrow>
          \<exists>out. rec len (fst s, (snd s)\<lparr>stdout := out\<rparr>) = Some r"
        by (simp add: read_line_def println_def io_modify_def trim_end_def split_beta) blast
      then show ?case
        using 1(1) [of len "(fst s, (snd s)\<lparr>stdout := _\<rparr>)"] by fastforce
    qed
    with assms show False
      by simp
  qed
  then show ?thesis
    by (cases "request_loop len s") auto
qed

lemma request_loop_answers:
  "request_loop len (s, con) =
     (let out = stdout con @ map (\<lambda>_. try_again) (takeWhile (refused len) (stdin con))
      in case dropWhile (refused len) (stdin con) of
           [] \<Rightarrow> None
         | line # rest \<Rightarrow>
             (case line of
                Inl e \<Rightarrow> Some (Err e, (s, con\<lparr>stdin := rest, stdout := out\<rparr>))
              | Inr line \<Rightarrow> Some (Ok (the (answer len line)), (s, con\<lparr>stdin := rest, stdout := out\<rparr>))))"
proof (induction "stdin con" arbitrary: con)
  case Nil
  then show ?case
    using request_loop_no_input [of "(s, con)"] by (simp add: Let_def flip: Nil)
next
  case (Cons line rest)
  note stdin = Cons(2) [symmetric]
  show ?case
  proof (cases "refused len line")
    case True
    with Cons(1) [of "con\<lparr>stdin := rest, stdout := stdout con @ [try_again]\<rparr>"]
    show ?thesis
      by (subst request_loop_step) (cases line; cases "dropWhile (refused len) rest";
        simp add: Let_def stdin split: sum.split del: dropWhile_eq_Nil_conv)
  next
    case False
    then show ?thesis
      by (subst request_loop_step) (cases line; auto simp: Let_def stdin)
  qed
qed

text \<open>
  C40. The question for a device, in full: the lines are read one after the other, each that
  is not the number of a device is answered with a request to try again, and the first that
  is one gives the result; an error of the console before it ends the question. At the end of
  the input reading gives nothing for ever, so without such a line the question does not
  return.
\<close>

theorem device_question:
  "request_device_idx len (s, con) =
     (let asked = stdout con @ [''Please specify the index of the Bluetooth device you want to connect to:''];
          out = asked @ map (\<lambda>_. try_again) (takeWhile (refused len) (stdin con))
      in case dropWhile (refused len) (stdin con) of
           [] \<Rightarrow> None
         | line # rest \<Rightarrow>
             (case line of
                Inl e \<Rightarrow> Some (Err e, (s, con\<lparr>stdin := rest, stdout := out\<rparr>))
              | Inr line \<Rightarrow> Some (Ok (the (answer len line)), (s, con\<lparr>stdin := rest, stdout := out\<rparr>))))"
  by (simp add: request_device_idx_def io_defs println_def request_loop_answers Let_def
      split: list.split sum.split del: dropWhile_eq_Nil_conv)

text \<open>
  The numbers that are printed are the numbers that are understood: with \<open>n\<close> devices, a
  line with the number of one of them as the program printed it, whatever white space follows,
  is the answer that selects this device.
\<close>

theorem printed_number_understood:
  assumes "i < n" and "n < 2 ^ 64" and "\<forall>c\<in>set ws. is_white c"
  shows "\<exists>idx. answer (of_nat n) (show_nat i @ ws) = Some idx \<and> unat idx = i"
proof -
  have "unat (of_nat i :: usize) = i" and "unat (of_nat n :: usize) = n"
    using assms(1,2) by (simp_all add: unat_of_nat_small)
  with assms show ?thesis
    by (simp add: answer_def trim_end_show_nat parse_show_nat word_less_nat_alt)
qed

theorem printed_number_understood_witness:
  "\<exists>idx. answer (of_nat 12) (show_nat 10 @ [CHR 0x0A]) = Some idx \<and> unat idx = 10"
  by (rule printed_number_understood) (simp_all add: is_white_def)

section \<open>The end of the program\<close>

lemma wp_request:
  "wp True (request_device_idx len) (\<lambda>r _. r \<noteq> Panic \<and> (\<forall>i. r = Ok i \<longrightarrow> i < len)) s"
proof -
  have "i < len" if "dropWhile (refused len) xs = Inr line # rest" and "the (answer len line) = i"
    for xs line rest i
    using that hd_dropWhile [of "refused len" xs]
    by (auto simp: answer_def split: bind_split_asm if_splits)
  then show ?thesis
    by (cases s) (auto simp: wp_def request_device_idx_def io_defs println_def request_loop_answers Let_def
        split: option.splits list.splits sum.splits)
qed

text \<open>A computation that never succeeds and never panics.\<close>

definition fails :: "('s, 'a) io \<Rightarrow> bool" where
  "fails m \<longleftrightarrow> (\<forall>s. wp True m (\<lambda>r _. \<exists>e. r = Err e) s)"

lemma fails_bind_where:
  assumes "\<And>s. wp True m (\<lambda>r _. r \<noteq> Panic \<and> (\<forall>a. r = Ok a \<longrightarrow> P a)) s" and "\<And>a. P a \<Longrightarrow> fails (k a)"
  shows "fails (io_bind m k)"
  unfolding fails_def wp_bind
  by (intro allI wp_mono [OF assms(1)])
    (use assms(2) in \<open>auto simp: fails_def split: outcome.split\<close>)

lemma fails_bind: "calm m \<Longrightarrow> (\<And>a. fails (k a)) \<Longrightarrow> fails (io_bind m k)"
  by (rule fails_bind_where [where P = "\<lambda>_. True"]) (simp_all add: calm_def)

lemma fails_rules:
  "fails (io_err e)" "fails m \<Longrightarrow> fails (with_drop d m)"
  "(c \<Longrightarrow> fails m) \<Longrightarrow> (\<not> c \<Longrightarrow> fails n) \<Longrightarrow> fails (if c then m else n)"
  by (auto simp: fails_def wp_err wp_with_drop split: outcome.split intro: wp_mono)

lemma fails_transfers:
  assumes "leaves op m" and "fails m"
  shows "transfers op m own S"
proof -
  have "wp True m (\<lambda>r s'. (case r of Ok a \<Rightarrow> {} \<inter> op s = {} \<and> op s' = {} \<union> op s | _ \<Rightarrow> op s' = op s)
      \<and> (\<exists>e. r = Err e)) s" for s
    unfolding wp_conj using acquiresD [OF assms(1)] assms(2) by (simp add: fails_def)
  then show ?thesis
    unfolding transfers_def by (intro allI) (rule wp_mono, assumption, auto)
qed

lemma receive_loop_run:
  assumes "receive_loop B socket buffer s = Some (r, s')" and "calm (stream_recv B socket)"
    and "leaves (\<lambda>s. op (fst s)) (stream_recv B socket)"
  shows "(\<exists>e. r = Err e) \<and> op (fst s') = op (fst s)"
proof -
  have "B = B \<longrightarrow> socket = socket \<longrightarrow> (\<exists>e. fst (r, s') = Err e) \<and> op (fst (snd (r, s'))) = op (fst s)"
  proof (rule receive_loop.raw_induct [where P = "\<lambda>B' socket' buffer s r. B' = B \<longrightarrow> socket' = socket \<longrightarrow>
      (\<exists>e. fst r = Err e) \<and> op (fst (snd r)) = op (fst s)", OF _ assms(1)], intro impI, goal_cases)
    case (1 rec B' socket' buffer s r)
    then obtain r1 w where recv: "stream_recv B socket (fst s, buffer) = Some (r1, w)"
      by (auto split: option.splits)
    then have same: "op (fst w) = op (fst s)" and "r1 \<noteq> Panic"
      using acquires_run [OF assms(3) recv] calm_run [OF assms(2) recv] by (auto split: outcome.splits)
    with 1 recv show ?case
      by (cases r1) (auto simp: println_def io_modify_def)
  qed
  then show ?thesis
    by simp
qed

section \<open>The program on a backend\<close>

context client_backend begin

text \<open>Once the devices are known, every socket the program opens is closed when it ends.\<close>

lemma receive_loop_leaves:
  assumes "ok p" and "calm (stream_recv (B p) c)"
  shows "leaves (\<lambda>s. opn p (fst s)) (receive_loop (B p) c buffer)"
    and "fails (receive_loop (B p) c buffer)"
proof -
  have recv: "leaves (\<lambda>s. opn p (fst s)) (stream_recv (B p) c)"
    unfolding stream_recv_def sys_recv_def by (rule receives_leave(1) [OF assms(1)])
  show "leaves (\<lambda>s. opn p (fst s)) (receive_loop (B p) c buffer)"
    by (intro acquiresI wpI) (use receive_loop_run [OF _ assms(2) recv] in fastforce)
  show "fails (receive_loop (B p) c buffer)"
    unfolding fails_def by (intro allI wpI) (use receive_loop_run [OF _ assms(2) recv] in blast)
qed

end

lemma leaves_println: "leaves (\<lambda>s. op (fst s)) (println line)"
  unfolding println_def by (rule leaves_modify) (simp add: split_beta)

lemma leaves_print_devices: "leaves (\<lambda>s. op (fst s)) (print_devices i devices)"
  by (induction devices arbitrary: i) (auto intro!: acquires_bind leaves_println acquires_ret)

lemma leaves_request: "leaves (\<lambda>s. op (fst s)) (request_device_idx len)"
proof (rule acquiresI, rule wpI)
  fix s :: "'a \<times> console" and r s'
  assume "request_device_idx len s = Some (r, s')"
  then have "fst s' = fst s"
    by (cases s) (auto simp: request_device_idx_def io_defs println_def request_loop_answers Let_def
        split: list.splits sum.splits)
  then show "case r of Ok a \<Rightarrow> {} \<inter> op (fst s) = {} \<and> op (fst s') = {} \<union> op (fst s)
      | _ \<Rightarrow> op (fst s') = op (fst s)"
    by (simp split: outcome.split)
qed

lemma calm_console [calms]: "calm (println line)" "calm (print_devices i devices)"
proof -
  show println: "calm (println line)" for line
    unfolding println_def by (intro calms)
  show "calm (print_devices i devices)"
    by (induction devices arbitrary: i) (auto intro!: calms println)
qed

lemma index_in_bounds: "idx < (of_nat n :: usize) \<Longrightarrow> unat idx < n"
  by (simp add: word_less_nat_alt unsigned_of_nat) (metis order.strict_trans2 take_bit_nat_less_eq_self)

text \<open>
  Once the devices are known the program ends with an error, if it ends, and every socket it
  opened is closed then.
\<close>

context client_backend begin

lemma session_ends:
  assumes "ok p" and "\<And>c. calm (stream_recv (B p) c)" and "\<And>c. calm (stream_peer_addr (B p) c)"
    and "\<And>c. calm (stream_local_addr (B p) c)" and "\<And>addrs pr. calm (stream_connect (B p) addrs pr)"
  shows "leaves (\<lambda>s. opn p (fst s)) (example_session show_err (B p) devices)"
    and "fails (example_session show_err (B p) devices)"
proof -
  have names: "leaves (opn p) (stream_peer_addr (B p) c)" "leaves (opn p) (stream_local_addr (B p) c)" for c
    unfolding stream_peer_addr_def stream_local_addr_def by (rule sockname_leaves [OF assms(1)])+
  have connect: "acquires (\<lambda>s. opn p (fst s)) (on_world (stream_connect (B p) addrs pr)) (\<lambda>c. {stream_handle (B p) c})"
    for addrs pr by (rule acquires_on_world [OF api_acquires(2) [OF assms(1)]])
  note loop = receive_loop_leaves [OF assms(1,2)]
  have report: "leaves (\<lambda>s. opn p (fst s)) (io_match (on_world (stream_peer_addr (B p) c))
      (\<lambda>a. println (f a)) (\<lambda>e. println (g e)))"
    "leaves (\<lambda>s. opn p (fst s)) (io_match (on_world (stream_local_addr (B p) c))
      (\<lambda>a. println (f a)) (\<lambda>e. println (g e)))" for c f g
    by (intro acquires_match acquires_on_world names leaves_println)+
  show "leaves (\<lambda>s. opn p (fst s)) (example_session show_err (B p) devices)"
    unfolding example_session_def
    by (intro acquires_bind acquires_if acquires_err leaves_println leaves_print_devices leaves_request
        acquires_ret acquires_panic refl acquires_owned [OF connect] transfers_bind report
        fails_transfers [OF loop])
      (simp add: drop_closes [OF assms(1)])
  show "fails (example_session show_err (B p) devices)"
    unfolding example_session_def
    by (intro fails_bind [OF calm_console(1)] fails_bind [OF calm_console(2)] fails_rules(1,3)
        fails_bind_where [OF wp_request])
      (drule index_in_bounds, simp only: if_True,
        intro fails_bind calms assms(3-5) fails_rules(2) loop(2))
qed

end

text \<open>
  C39. The example on Unix, from start to end: it never succeeds and never panics (the number
  it is given indexes the list of devices in bounds), so when it returns it does so with an
  error, and then every socket it opened is closed again, except for the one that discovery
  leaves open when its inquiry fails.
\<close>

theorem example_program:
  assumes "kernel_ok lc V"
  shows "wp True (example_main show_err (unix_backend lc tgt) (on_world (unix_discover_devices lc)))
    (\<lambda>r s'. (\<exists>e. r = Err e)
      \<and> opened V (fst (fst s')) = opened V (fst (fst s)) \<union> set_option (leaked_socket lc (fst (fst s)))) s"
proof -
  let ?p = "(lc, tgt, V)"
  let ?leak = "\<lambda>s'. opened V (fst (fst s')) = opened V (fst (fst s)) \<union> set_option (leaked_socket lc (fst (fst s)))"
  note session = unix_client.session_ends [of ?p, simplified, OF assms unix_calm.calm_streams(4) [of "(lc, tgt)", simplified]
      unix_calm.calm_streams(9) [of "(lc, tgt)", simplified] unix_calm.calm_streams(8) [of "(lc, tgt)", simplified]
      unix_calm.calm_streams(1) [of "(lc, tgt)", simplified]]
  have "wp True (on_world (on_world (unix_discover_devices lc))) (\<lambda>r s'. ?leak s' \<and> r \<noteq> Panic) s"
    unfolding wp_on_world wp_conj
    using discover_opened [OF assms] calmD [OF calm_unix_io(6)] by simp
  moreover have "wp True (example_session show_err (unix_backend lc tgt) devices) (\<lambda>r s'. (\<exists>e. r = Err e) \<and> ?leak s') s'"
    if "?leak s'" for devices s'
  proof -
    have "wp True (example_session show_err (unix_backend lc tgt) devices)
        (\<lambda>r s''. opened V (fst (fst s'')) = opened V (fst (fst s'))) s'"
      by (rule wp_leaves [OF session(1)])
    then have "wp True (example_session show_err (unix_backend lc tgt) devices)
        (\<lambda>r s''. opened V (fst (fst s'')) = opened V (fst (fst s')) \<and> (\<exists>e. r = Err e)) s'"
      unfolding wp_conj using session(2) unfolding fails_def by blast
    then show ?thesis
      by (rule wp_mono) (use that in simp)
  qed
  ultimately show ?thesis
    unfolding example_main_def wp_bind
    by (elim wp_mono) (auto split: outcome.splits elim: wp_mono)
qed

theorem example_program_witness:
  "wp True (example_main (\<lambda>_. ''?'') (unix_backend sim_libc linux_target) (on_world (unix_discover_devices sim_libc)))
    (\<lambda>r s'. (\<exists>e. r = Err e) \<and> set (s_open (fst (fst s'))) =
       set (s_open sim_init) \<union> set_option (leaked_socket sim_libc sim_init))
    ((sim_init, True), \<lparr>stdin = [Inr ''7'', Inr ''0''], stdout = []\<rparr>)"
  using example_program [OF sim_kernel_ok, of "\<lambda>_. ''?''" linux_target
      "((sim_init, True), \<lparr>stdin = [Inr ''7'', Inr ''0''], stdout = []\<rparr>)"]
  by simp

end
