(* ===== verification/Unix_Wait.thy ===== *)
theory Unix_Wait
  imports Unix_Connect Connection
begin

text \<open>
  What \<open>Socket::connect_timeout\<close> of \<open>src/sys/unix/bt.rs\<close> tells its caller: the waiting loop is
  the iteration of its fruitless rounds up to the first round that decides, and a success
  means that the connection is established.
\<close>

section \<open>Rounds\<close>

text \<open>
  One round of the loop, from a \<open>pollfd\<close> and a world, as the specification: it goes on with
  new ones, or it decides. Time is in nanoseconds here, as natural numbers, and the time to
  pass to \<open>poll\<close> is computed without bounds before it is clipped.
\<close>

datatype 'w round = Again pollfd 'w | Decided "unit outcome" 'w

definition time_left :: "'w libc \<Rightarrow> duration \<Rightarrow> duration \<Rightarrow> 'w \<Rightarrow> nat" where
  "time_left lc timeout start w = dur_ns timeout - (dur_ns (fst (clock_now lc w)) - dur_ns start)"

definition spec_millis :: "nat \<Rightarrow> c_int" where
  "spec_millis ns = of_nat (max 1 (min (ns div 1000000) (2 ^ 31 - 1)))"

definition pending_error :: "'w libc \<Rightarrow> c_int \<Rightarrow> 'w \<Rightarrow> unit outcome \<times> 'w" where
  "pending_error lc fd w =
     (case c_getsockopt_int lc fd (SOL_SOCKET (K lc)) (SO_ERROR (K lc)) 0 4 w of
        ((r, v, n), w') \<Rightarrow>
          (if r = - 1 then Err (last_os_error lc w')
           else if n \<noteq> 4 then Panic
           else if v = 0 then Err (Custom Other ''no error set after POLLHUP'')
           else Err (Os v), w'))"

definition wait_round ::
    "'w libc \<Rightarrow> unix_socket \<Rightarrow> duration \<Rightarrow> duration \<Rightarrow> pollfd \<Rightarrow> 'w \<Rightarrow> 'w round" where
  "wait_round lc self timeout start p w =
     (let left = time_left lc timeout start w; w1 = snd (clock_now lc w) in
      if left = 0 then Decided (Err timed_out) w1
      else case c_poll lc p 1 (spec_millis left) w1 of
        ((n, p'), w2) \<Rightarrow>
          if n = 0 \<or> n = - 1 \<and> kind_of lc (last_os_error lc w2) = Interrupted then Again p' w2
          else if n = - 1 then Decided (Err (last_os_error lc w2)) w2
          else if revents p' AND POLLHUP (K lc) = 0 then Decided (Ok ()) w2
          else (case pending_error lc (sock_raw self) w2 of (r, w3) \<Rightarrow> Decided r w3))"

definition fruitless ::
    "'w libc \<Rightarrow> unix_socket \<Rightarrow> duration \<Rightarrow> duration \<Rightarrow> pollfd \<times> 'w \<Rightarrow> pollfd \<times> 'w \<Rightarrow> bool" where
  "fruitless lc self timeout start x y \<longleftrightarrow>
     wait_round lc self timeout start (fst x) (snd x) = Again (fst y) (snd y)"

section \<open>The loop iterates the rounds\<close>

lemma dur_sub_le: "dur_sub d e = Some r \<Longrightarrow> e \<le> d"
  by (auto simp: dur_sub_def checked_sub_def less_eq_duration_def word_le_less_eq
      split: if_splits option.splits)

lemma dur_since_trunc:
  assumes "dur_ok now" and "dur_ok start"
  shows "dur_ok (dur_since now start)" and "dur_ns (dur_since now start) = dur_ns now - dur_ns start"
proof -
  have "dur_ok (dur_since now start) \<and> dur_ns (dur_since now start) = dur_ns now - dur_ns start"
  proof (cases "start \<le> now")
    case True
    with assms dur_since_ns [OF assms] show ?thesis
      by (simp add: dur_le_ns)
  next
    case False
    then have "dur_since now start = Duration 0 0"
      by (auto simp: dur_since_def dest: dur_sub_le split: option.split)
    with False assms show ?thesis
      by (simp add: dur_ok_def dur_le_ns dur_ns_def nanos_per_sec_def)
  qed
  then show "dur_ok (dur_since now start)" and "dur_ns (dur_since now start) = dur_ns now - dur_ns start"
    by simp_all
qed

lemma poll_millis_is_spec: "poll_millis d = spec_millis (dur_ns d)"
  unfolding spec_millis_def unat_poll_millis [symmetric] by simp

lemma wp_hangup_error_spec:
  "wp t (hangup_error lc self) Q w = (case pending_error lc (sock_raw self) w of (r, w') \<Rightarrow> Q r w')"
  by (simp add: wp_hangup_error pending_error_def split_beta Let_def)

text \<open>The body of the loop, as its two rules state it, decides as the specification does.\<close>

lemma poll_loop_body:
  assumes "dur_ok (fst (clock_now lc w))" and "dur_ok timeout" and "dur_ok start"
  shows "(let elapsed = dur_since (fst (clock_now lc w)) start;
          w1 = snd (clock_now lc w)
      in if elapsed \<ge> timeout then Q (Err timed_out) w1
         else (case dur_sub timeout elapsed of
            None \<Rightarrow> Q Panic w1
          | Some rest \<Rightarrow>
              (let r = c_poll lc p 1 (poll_millis rest) w1;
                   w2 = snd r
               in if fst (fst r) = - 1
                  then (if kind_of lc (last_os_error lc w2) \<noteq> Interrupted
                        then Q (Err (last_os_error lc w2)) w2
                        else J (snd (fst r)) w2)
                  else if fst (fst r) = 0 then J (snd (fst r)) w2
                  else if revents (snd (fst r)) AND POLLHUP (K lc) \<noteq> 0
                  then wp t (hangup_error lc self) Q w2
                  else Q (Ok ()) w2)))
    = (case wait_round lc self timeout start p w of Again p' w' \<Rightarrow> J p' w' | Decided r w' \<Rightarrow> Q r w')"
proof -
  let ?e = "dur_since (fst (clock_now lc w)) start"
  note e = dur_since_trunc [OF assms(1,3)]
  have late: "timeout \<le> ?e \<longleftrightarrow> time_left lc timeout start w = 0"
    by (simp add: dur_le_ns [OF assms(2) e(1)] e(2) time_left_def)
  show ?thesis
  proof (cases "timeout \<le> ?e")
    case True
    then show ?thesis
      by (simp add: wait_round_def late)
  next
    case False
    from False have left: "time_left lc timeout start w \<noteq> 0"
      by (simp add: late)
    from False have "?e \<le> timeout"
      by simp
    then obtain d where "dur_sub timeout ?e = Some d" and "dur_ns d = dur_ns timeout - dur_ns ?e"
      by (rule dur_sub_ns [OF assms(2) e(1)])
    moreover from this(2) have "poll_millis d = spec_millis (time_left lc timeout start w)"
      by (simp add: poll_millis_is_spec e(2) time_left_def)
    ultimately show ?thesis
      using False left by (simp add: wait_round_def wp_hangup_error_spec split_beta Let_def)
  qed
qed

lemma wp_poll_loop_round:
  assumes "dur_ok (fst (clock_now lc w))" and "dur_ok timeout" and "dur_ok start"
  shows "wp t (poll_loop lc self timeout start p) Q w =
     (case wait_round lc self timeout start p w of
        Again p' w' \<Rightarrow> wp t (poll_loop lc self timeout start p') Q w'
      | Decided r w' \<Rightarrow> Q r w')"
  by (subst wp_poll_loop) (rule poll_loop_body [OF assms])

lemma fruitless_rounds:
  assumes "(fruitless lc self timeout start)\<^sup>*\<^sup>* x y" and "\<And>w. dur_ok (fst (clock_now lc w))"
    and "dur_ok timeout" and "dur_ok start"
  shows "wp t (poll_loop lc self timeout start (fst x)) Q (snd x)
    = wp t (poll_loop lc self timeout start (fst y)) Q (snd y)"
  using assms(1)
proof (induction rule: converse_rtranclp_induct)
  case (step x z)
  then show ?case
    by (simp add: wp_poll_loop_round [OF assms(2-4), where p = "fst x"] fruitless_def)
qed simp

lemma poll_loop_decided:
  assumes "\<And>w. dur_ok (fst (clock_now lc w))" and "dur_ok timeout" and "dur_ok start"
  shows "wp True (poll_loop lc self timeout start p) (\<lambda>r w'.
      \<exists>p0 w0. (fruitless lc self timeout start)\<^sup>*\<^sup>* (p, w) (p0, w0)
       \<and> wait_round lc self timeout start p0 w0 = Decided r w') w"
    (is "wp _ _ ?Q _")
proof (rule poll_loop_rule [where J = "\<lambda>q v. (fruitless lc self timeout start)\<^sup>*\<^sup>* (p, w) (q, v)"], goal_cases)
  case (2 q v)
  let ?J = "\<lambda>q v. (fruitless lc self timeout start)\<^sup>*\<^sup>* (p, w) (q, v)"
  have "case wait_round lc self timeout start q v of
      Again p' w' \<Rightarrow> (fruitless lc self timeout start)\<^sup>*\<^sup>* (p, w) (p', w')
    | Decided r w' \<Rightarrow> \<exists>p0 w0. (fruitless lc self timeout start)\<^sup>*\<^sup>* (p, w) (p0, w0)
       \<and> wait_round lc self timeout start p0 w0 = Decided r w'"
    using 2 by (auto simp: fruitless_def intro: rtranclp.rtrancl_into_rtrancl split: round.split)
  then show ?case
    by (rule poll_loop_body [OF assms, where Q = ?Q and J = ?J, THEN iffD2])
qed simp

text \<open>
  C5. What the wait answers, whatever the kernel replies: it goes through fruitless rounds, in
  which \<open>poll\<close> found nothing or was interrupted, up to the first round that decides, and
  returns what that round decides. In each round the time left is the limit minus the time
  since the start, in whole nanoseconds; without any the answer is \<open>TimedOut\<close>, otherwise \<open>poll\<close>
  is asked to wait for the milliseconds of it, and the answer is its failure, a success, or the
  pending error of a socket that hung up. If no round decides, the wait does not return.
\<close>

theorem poll_loop_spec:
  assumes "\<And>w. dur_ok (fst (clock_now lc w))" and "dur_ok timeout" and "dur_ok start"
  shows "poll_loop lc self timeout start p w = Some (r, w') \<longleftrightarrow>
    (\<exists>p0 w0. (fruitless lc self timeout start)\<^sup>*\<^sup>* (p, w) (p0, w0)
       \<and> wait_round lc self timeout start p0 w0 = Decided r w')"
proof
  assume "poll_loop lc self timeout start p w = Some (r, w')"
  from wpD [OF poll_loop_decided [OF assms] this]
  show "\<exists>p0 w0. (fruitless lc self timeout start)\<^sup>*\<^sup>* (p, w) (p0, w0)
       \<and> wait_round lc self timeout start p0 w0 = Decided r w'" .
next
  assume "\<exists>p0 w0. (fruitless lc self timeout start)\<^sup>*\<^sup>* (p, w) (p0, w0)
       \<and> wait_round lc self timeout start p0 w0 = Decided r w'"
  then obtain p0 w0 where "(fruitless lc self timeout start)\<^sup>*\<^sup>* (p, w) (p0, w0)"
    and last: "wait_round lc self timeout start p0 w0 = Decided r w'"
    by blast
  from fruitless_rounds [OF this(1) assms, of False "\<lambda>r' s'. r' = r \<and> s' = w'"]
  show "poll_loop lc self timeout start p w = Some (r, w')"
    by (simp add: wp_poll_loop_round [OF assms, where p = p0] last wp_eq)
qed

text \<open>A kernel whose clock stands still, so that the wait is decided by the replies of \<open>poll\<close>.\<close>

definition frozen_libc :: "sim libc" where
  "frozen_libc = sim_libc\<lparr>clock_now := (\<lambda>w. (Duration 0 0, w))\<rparr>"

lemma frozen_calls:
  "clock_now frozen_libc = (\<lambda>w. (Duration 0 0, w))" "c_poll frozen_libc p n ms = sim_do_poll p"
  "errno frozen_libc = s_errno" "K frozen_libc = linux_consts"
  by (simp_all add: frozen_libc_def sim_libc_def)

lemma frozen_interrupted:
  "io_kind (decode_error_kind linux_codes) (last_os_error frozen_libc w) = Interrupted" if "s_errno w = 4"
  using that by (simp add: frozen_calls last_os_error_def decode_error_kind_def linux_codes_def)

theorem poll_loop_spec_witness:
  "poll_loop frozen_libc (Socket (FileDesc 3)) (Duration 1 0) (Duration 0 0)
      \<lparr>pfd = 3, events = 4, revents = 0\<rparr> (sim_init\<lparr>s_poll := [(- 1, 0), (1, 4)]\<rparr>)
    = Some (Ok (), sim_init\<lparr>s_errno := 4\<rparr>)"
proof -
  let ?w = "sim_init\<lparr>s_poll := [(- 1, 0), (1, 4)]\<rparr>"
  let ?w1 = "sim_init\<lparr>s_poll := [(1, 4)], s_errno := 4\<rparr>"
  let ?p = "\<lparr>pfd = 3, events = 4, revents = 0\<rparr>"
  note eval = wait_round_def time_left_def frozen_calls frozen_interrupted linux_consts_def
    sim_do_poll_def sim_decides_def sim_init_def dur_ns_def nanos_per_sec_def
  have ok: "dur_ok (fst (clock_now frozen_libc w))" "dur_ok (Duration 1 0)" "dur_ok (Duration 0 0)" for w
    by (simp_all add: frozen_calls dur_ok_def nanos_per_sec_def)
  have "fruitless frozen_libc (Socket (FileDesc 3)) (Duration 1 0) (Duration 0 0) (?p, ?w) (?p, ?w1)"
    by (simp add: fruitless_def eval)
  moreover have "wait_round frozen_libc (Socket (FileDesc 3)) (Duration 1 0) (Duration 0 0) ?p ?w1
      = Decided (Ok ()) (sim_init\<lparr>s_errno := 4\<rparr>)"
    by (simp add: eval)
  ultimately show ?thesis
    using poll_loop_spec [OF ok, of "Socket (FileDesc 3)" ?p ?w "Ok ()" "sim_init\<lparr>s_errno := 4\<rparr>"]
    by blast
qed

section \<open>A success means a connection\<close>

text \<open>
  What the manual pages say of an attempt: \<open>connect\<close> succeeds when the connection is made, and
  \<open>EINPROGRESS\<close> means that it is being made; \<open>poll\<close> writes to \<open>revents\<close> only, and for a socket
  on which an attempt was started it reports \<open>POLLOUT\<close> without \<open>POLLHUP\<close> only once the
  connection is made (a refused connection is reported as \<open>POLLOUT\<close>, \<open>POLLERR\<close> and \<open>POLLHUP\<close>
  together); reading the clock and changing the blocking mode let the attempt proceed.
\<close>

definition attempt_laws :: "'w libc \<Rightarrow> ('w \<Rightarrow> c_int \<Rightarrow> connection) \<Rightarrow> bool" where
  "attempt_laws lc conn \<longleftrightarrow>
     (\<forall>fd a n w. let r = c_connect lc fd a n w in
        (fst r \<noteq> - 1 \<longrightarrow> conn (snd r) fd = Established)
      \<and> (fst r = - 1 \<and> errno lc (snd r) = EINPROGRESS (codes (K lc)) \<longrightarrow> conn (snd r) fd \<noteq> Idle))
   \<and> (\<forall>fd v. proceeds conn (c_ioctl_int lc fd (FIONBIO (K lc)) v)) \<and> proceeds conn (clock_now lc)
   \<and> (\<forall>p n ms. proceeds conn (c_poll lc p n ms))
   \<and> (\<forall>p n ms w. let r = c_poll lc p n ms w; p' = snd (fst r) in
        pfd p' = pfd p \<and> events p' = events p
      \<and> (events p = POLLOUT (K lc) \<and> conn w (pfd p) \<noteq> Idle \<and> fst (fst r) \<notin> {0, - 1}
           \<and> revents p' AND POLLHUP (K lc) = 0 \<longrightarrow> conn (snd r) (pfd p) = Established))"

lemma attempt_connect:
  assumes "attempt_laws lc conn"
  shows "fst (c_connect lc fd a n w) \<noteq> - 1 \<Longrightarrow> conn (snd (c_connect lc fd a n w)) fd = Established"
    and "fst (c_connect lc fd a n w) = - 1 \<Longrightarrow>
      errno lc (snd (c_connect lc fd a n w)) = EINPROGRESS (codes (K lc)) \<Longrightarrow>
      conn (snd (c_connect lc fd a n w)) fd \<noteq> Idle"
  using assms by (simp_all add: attempt_laws_def Let_def)

lemma attempt_proceeds:
  assumes "attempt_laws lc conn"
  shows "proceeds conn (c_ioctl_int lc fd (FIONBIO (K lc)) v)" and "proceeds conn (clock_now lc)"
    and "proceeds conn (c_poll lc p n ms)"
  using assms by (simp_all add: attempt_laws_def)

lemma attempt_poll:
  assumes "attempt_laws lc conn"
  shows "pfd (snd (fst (c_poll lc p n ms w))) = pfd p" and "events (snd (fst (c_poll lc p n ms w))) = events p"
    and "events p = POLLOUT (K lc) \<Longrightarrow> conn w (pfd p) \<noteq> Idle \<Longrightarrow> fst (fst (c_poll lc p n ms w)) \<noteq> 0 \<Longrightarrow>
      fst (fst (c_poll lc p n ms w)) \<noteq> - 1 \<Longrightarrow> revents (snd (fst (c_poll lc p n ms w))) AND POLLHUP (K lc) = 0 \<Longrightarrow>
      conn (snd (c_poll lc p n ms w)) (pfd p) = Established"
  using assms by (simp_all add: attempt_laws_def Let_def)

lemma poll_loop_established:
  assumes L: "attempt_laws lc conn" and "pfd p = sock_raw self" and "events p = POLLOUT (K lc)"
    and "conn w (sock_raw self) \<noteq> Idle"
  shows "wp True (poll_loop lc self timeout start p)
    (\<lambda>r w'. r = Ok () \<longrightarrow> conn w' (sock_raw self) = Established) w"
proof (rule poll_loop_rule [where J = "\<lambda>p w. pfd p = sock_raw self \<and> events p = POLLOUT (K lc)
    \<and> conn w (sock_raw self) \<noteq> Idle"], use assms in simp, goal_cases)
  case (1 p w)
  note started = proceeds_started [OF attempt_proceeds(2) [OF L], of w "sock_raw self"]
    proceeds_started [OF attempt_proceeds(3) [OF L, where p = p and n = 1]]
  have hangup: "wp True (hangup_error lc self) (\<lambda>r w'. r = Ok () \<longrightarrow> conn w' (sock_raw self) = Established) w2" for w2
    by (simp add: wp_hangup_error Let_def)
  show ?case
    using 1 started attempt_poll [OF L, where p = p and n = 1 and w = "snd (clock_now lc w)"]
    by (auto simp: Let_def hangup split: option.split)
qed

lemma sock_connect_timeout_established:
  assumes L: "attempt_laws lc conn"
  shows "triple (\<lambda>_. True) (sock_connect_timeout lc self addr timeout)
    (\<lambda>_ w. conn w (sock_raw self) = Established)"
proof (rule tripleI)
  fix w
  note keeps = proceeds_established [OF attempt_proceeds(1) [OF L]]
    proceeds_started [OF attempt_proceeds(1) [OF L]] proceeds_started [OF attempt_proceeds(2) [OF L]]
  have wait: "wp True (await_connection lc self timeout)
      (\<lambda>r w'. r = Ok () \<longrightarrow> conn w' (sock_raw self) = Established) w"
    if "conn w (sock_raw self) \<noteq> Idle" for w
    using that keeps(3) [OF that]
    by (simp add: await_connection_def io_wp Let_def poll_loop_established [OF L])
  have "wp True (sock_connect_timeout lc self addr timeout)
      (\<lambda>r w'. r = Ok () \<longrightarrow> conn w' (sock_raw self) = Established) w"
    by (simp add: wp_connect_timeout Let_def wait keeps attempt_connect [OF L])
  then show "wp True (sock_connect_timeout lc self addr timeout)
      (\<lambda>r s'. case r of Ok _ \<Rightarrow> conn s' (sock_raw self) = Established | _ \<Rightarrow> True) w"
    by (rule wp_mono) (auto split: outcome.split)
qed

lemma sim_attempt_laws: "attempt_laws sim_libc (\<lambda>w _. s_conn w)"
proof -
  have hup: "(ev OR 16) AND 16 \<noteq> 0" for ev :: c_short
    by (simp add: bit.conj_disj_distrib2)
  have "proceeds (\<lambda>w _. s_conn w) (sim_do_poll p)" "proceeds (\<lambda>w _. s_conn w) sim_clock"
    "proceeds (\<lambda>w _. s_conn w) (sim_ioctl_int fd 21537 v)" for p :: pollfd and fd :: c_int and v :: c_int
    by (auto simp: proceeds_def sim_do_poll_def sim_decides_def sim_clock_def sim_ioctl_int_def sim_ok_def
        sim_fails_def sim_defs split: list.splits)
  moreover have "s_conn w = Established" if "s_conn w \<noteq> Underway" "s_conn w \<noteq> Refused" "s_conn w \<noteq> Idle" for w
    using that by (cases "s_conn w") simp_all
  ultimately show ?thesis
    unfolding attempt_laws_def Let_def
    using hup
    by (auto simp: sim_defs sim_connect_def sim_ok_def sim_fails_def sim_do_poll_def sim_decides_def
        split: list.splits)
qed

end
