(* ===== verification/Win_Connect.thy ===== *)
theory Win_Connect
  imports Win_Correct Connection
begin

text \<open>
  \<open>Socket::connect_timeout\<close> of \<open>src/sys/windows/bt.rs\<close>: what it answers on every branch, the
  blocking mode of the socket, and what a success says of the connection.
\<close>

section \<open>Every branch\<close>

lemma wp_win_set_nonblocking:
  "wp t (win_set_nonblocking wa self b) Q w =
     (let r = w_ioctl wa (win_raw self) (W_FIONBIO (KW wa)) (of_bool b) w
      in if fst (fst r) = - 1 then Q (Err (last_error wa (snd r))) (snd r) else Q (Ok ()) (snd r))"
  by (simp add: win_set_nonblocking_def io_wp Let_def)

definition win_mode_fails :: "'w winapi \<Rightarrow> win_socket \<Rightarrow> bool \<Rightarrow> 'w \<Rightarrow> bool" where
  "win_mode_fails wa self b w \<longleftrightarrow>
     fst (fst (w_ioctl wa (win_raw self) (W_FIONBIO (KW wa)) (of_bool b) w)) = - 1"

text \<open>The sets passed to \<open>select\<close>.\<close>

definition only_socket :: "win_socket \<Rightarrow> fd_set" where
  "only_socket self = \<lparr>fd_count = 1, fd_array = (replicate 64 0)[0 := win_raw self]\<rparr>"

lemma only_socket_sel [simp]: "fd_count (only_socket self) = 1" "fd_array (only_socket self) ! 0 = win_raw self"
  by (simp_all add: only_socket_def)

definition win_timed_out :: io_error where
  "win_timed_out = Custom TimedOut ''connection timed out''"

definition win_zero_timeout :: io_error where
  "win_zero_timeout = Custom InvalidInput ''cannot set a 0 duration timeout''"

lemma wp_win_await:
  "wp t (win_await wa self timeout) Q w =
     (let r = w_select wa 1 (only_socket self) (only_socket self) (win_timeval_of timeout) w;
          g = w_getsockopt_u32 wa (win_raw self) (W_SOL_SOCKET (KW wa)) (W_SO_ERROR (KW wa)) 0 4 (snd r)
      in if dur_ns timeout = 0 then Q (Err win_zero_timeout) w
         else if fst (fst r) = - 1 then Q (Err (last_error wa (snd r))) (snd r)
         else if fst (fst r) = 0 then Q (Err win_timed_out) (snd r)
         else if fd_count (fst (snd (fst r))) = 1 then Q (Ok ()) (snd r)
         else if fst (fst g) = - 1 then Q (Err (last_error wa (snd g))) (snd g)
         else if snd (snd (fst g)) \<noteq> 4 then Q Panic (snd g)
         else if fst (snd (fst g)) = 0 then Q (Ok ()) (snd g)
         else Q (Err (Os (fst (snd (fst g))))) (snd g))"
  by (simp add: win_await_def dur_ns_zero win_zero_timeout_def win_timed_out_def win_take_error_def
      win_getsockopt_def getsockopt_def win_as_inner_def io_wp split_beta Let_def
      flip: only_socket_def)

lemma wp_win_connect_timeout:
  "wp t (win_connect_timeout wa self addr timeout) Q w =
     (let w1 = snd (w_ioctl wa (win_raw self) (W_FIONBIO (KW wa)) 1 w);
          c = w_connect wa (win_raw self) (bth_bytes (MW wa) (win_connect_addr wa addr)) (size_bth (MW wa)) w1;
          w3 = snd (w_ioctl wa (win_raw self) (W_FIONBIO (KW wa)) 0 (snd c))
      in if win_mode_fails wa self True w then Q (Err (last_error wa w1)) w1
         else if win_mode_fails wa self False (snd c) then Q (Err (last_error wa w3)) w3
         else if fst c \<noteq> - 1 then Q (Ok ()) w3
         else if win_kind wa (last_error wa (snd c)) \<noteq> WouldBlock then Q (Err (last_error wa (snd c))) w3
         else wp t (win_await wa self timeout) Q w3)"
proof -
  have set: "wp t (io_bind (win_set_nonblocking wa self b) k) Q w =
     (let w' = snd (w_ioctl wa (win_raw self) (W_FIONBIO (KW wa)) (of_bool b) w)
      in if win_mode_fails wa self b w then Q (Err (last_error wa w')) w' else wp t (k ()) Q w')"
    for b k and Q :: "unit outcome \<Rightarrow> 'a \<Rightarrow> bool" and w
    by (simp add: wp_bind wp_win_set_nonblocking win_mode_fails_def Let_def)
  show ?thesis
    unfolding win_connect_timeout_def
    by (simp only: set wp_bind [where m = "io_result x" for x] wp_result Let_def of_bool_eq)
      (simp add: io_wp)
qed

section \<open>The blocking mode\<close>

text \<open>
  What the documentation says of the blocking mode, with \<open>nb\<close> the sockets in non-blocking mode:
  \<open>FIONBIO\<close> switches it unless the call fails, connecting, waiting and asking for the pending
  error keep it.
\<close>

definition win_mode_laws :: "'w winapi \<Rightarrow> ('w \<Rightarrow> win_socket_handle set) \<Rightarrow> bool" where
  "win_mode_laws wa nb \<longleftrightarrow>
     (\<forall>s v w. let r = w_ioctl wa s (W_FIONBIO (KW wa)) v w in
        nb (snd r) = (if fst (fst r) = - 1 then nb w else if v \<noteq> 0 then insert s (nb w) else nb w - {s}))
   \<and> (\<forall>s a n w. nb (snd (w_connect wa s a n w)) = nb w)
   \<and> (\<forall>n f g t w. nb (snd (w_select wa n f g t w)) = nb w)
   \<and> (\<forall>s l x v n w. nb (snd (w_getsockopt_u32 wa s l x v n w)) = nb w)"

lemma win_mode:
  assumes "win_mode_laws wa nb"
  shows "nb (snd (w_ioctl wa (win_raw self) (W_FIONBIO (KW wa)) 1 w))
      = (if win_mode_fails wa self True w then nb w else insert (win_raw self) (nb w))"
    and "nb (snd (w_ioctl wa (win_raw self) (W_FIONBIO (KW wa)) 0 w))
      = (if win_mode_fails wa self False w then nb w else nb w - {win_raw self})"
    and "nb (snd (w_connect wa s a n w)) = nb w" and "nb (snd (w_select wa k f g tv w)) = nb w"
    and "nb (snd (w_getsockopt_u32 wa s l x v m w)) = nb w"
  using assms by (simp_all add: win_mode_laws_def win_mode_fails_def Let_def)


lemma x_mode_laws: "win_mode_laws x_api (\<lambda>w. set (x_nb w))"
  by (auto simp: win_mode_laws_def x_api_def x_ioctl_def x_connect_def x_select_def x_fails_def Let_def
      split: list.split)


section \<open>A success means a connection\<close>

text \<open>
  What the documentation says of an attempt: \<open>connect\<close> succeeds when the connection is made, and
  \<open>WSAEWOULDBLOCK\<close> means that it is being made; \<open>select\<close> reports the socket of an attempt as
  writable when the connection is made and in the set of exceptions when it is refused, and
  neither while it is under way; a refused attempt has a pending error; changing the blocking
  mode lets the attempt proceed.
\<close>

definition win_attempt_laws :: "'w winapi \<Rightarrow> ('w \<Rightarrow> win_socket_handle \<Rightarrow> connection) \<Rightarrow> bool" where
  "win_attempt_laws wa conn \<longleftrightarrow>
     (\<forall>s a n w. let r = w_connect wa s a n w in
        (fst r \<noteq> - 1 \<longrightarrow> conn (snd r) s = Established)
      \<and> (fst r = - 1 \<and> win_kind wa (last_error wa (snd r)) = WouldBlock \<longrightarrow> conn (snd r) s \<noteq> Idle))
   \<and> (\<forall>s v. proceeds conn (w_ioctl wa s (W_FIONBIO (KW wa)) v))
   \<and> (\<forall>s f t w. fd_count f = 1 \<and> fd_array f ! 0 = s \<and> conn w s \<noteq> Idle \<longrightarrow>
        (let r = w_select wa 1 f f t w in
         fst (fst r) = - 1
         \<or> conn (snd r) s = (if fst (fst r) = 0 then Underway
             else if fd_count (fst (snd (fst r))) = 1 then Established else Refused)))
   \<and> (\<forall>s v n w. conn w s = Refused \<longrightarrow>
        (let r = w_getsockopt_u32 wa s (W_SOL_SOCKET (KW wa)) (W_SO_ERROR (KW wa)) v n w in
         fst (fst r) = - 1 \<or> fst (snd (fst r)) \<noteq> 0))"

lemma win_attempt_connect:
  assumes "win_attempt_laws wa conn"
  shows "fst (w_connect wa s a n w) \<noteq> - 1 \<Longrightarrow> conn (snd (w_connect wa s a n w)) s = Established"
    and "fst (w_connect wa s a n w) = - 1 \<Longrightarrow>
      win_kind wa (last_error wa (snd (w_connect wa s a n w))) = WouldBlock \<Longrightarrow>
      conn (snd (w_connect wa s a n w)) s \<noteq> Idle"
    and "proceeds conn (w_ioctl wa s (W_FIONBIO (KW wa)) v)"
  using assms by (simp_all add: win_attempt_laws_def Let_def)

lemma win_attempt_select:
  assumes "win_attempt_laws wa conn" and "conn w (win_raw self) \<noteq> Idle"
    and "r = w_select wa 1 (only_socket self) (only_socket self) t w" and "fst (fst r) \<noteq> - 1"
  shows "conn (snd r) (win_raw self) = (if fst (fst r) = 0 then Underway
    else if fd_count (fst (snd (fst r))) = 1 then Established else Refused)"
  using assms(1) [unfolded win_attempt_laws_def, THEN conjunct2, THEN conjunct2, THEN conjunct1,
      rule_format, of "only_socket self" "win_raw self" w t] assms(2-4)
  by (simp add: Let_def)

lemma win_attempt_refused:
  assumes "win_attempt_laws wa conn" and "conn w s = Refused"
    and "r = w_getsockopt_u32 wa s (W_SOL_SOCKET (KW wa)) (W_SO_ERROR (KW wa)) v n w"
  shows "fst (fst r) = - 1 \<or> fst (snd (fst r)) \<noteq> 0"
  using assms by (simp add: win_attempt_laws_def Let_def)

lemma win_await_answers:
  assumes L: "win_attempt_laws wa conn" and "conn w (win_raw self) \<noteq> Idle"
  shows "wp True (win_await wa self timeout) (\<lambda>r w'.
      (r = Ok () \<longrightarrow> conn w' (win_raw self) = Established)
    \<and> (r = Err win_timed_out \<longrightarrow> conn w' (win_raw self) = Underway)) w"
proof -
  define r where "r = w_select wa 1 (only_socket self) (only_socket self) (win_timeval_of timeout) w"
  note select = win_attempt_select [OF L assms(2) r_def]
  note refused = win_attempt_refused [OF L _ refl, of "snd r" "win_raw self" 0 4]
  have os: "last_error wa x \<noteq> win_timed_out" "win_zero_timeout \<noteq> win_timed_out" "Os e \<noteq> win_timed_out" for x e
    by (simp_all add: last_error_def win_timed_out_def win_zero_timeout_def)
  show ?thesis
    unfolding wp_win_await Let_def r_def [symmetric]
    using select refused by (auto simp: os)
qed

lemma win_connect_timeout_answered:
  assumes "win_attempt_laws wa conn"
  shows "wp True (win_connect_timeout wa self addr timeout) (\<lambda>r w'.
      (r = Ok () \<longrightarrow> conn w' (win_raw self) = Established)
    \<and> (r = Err win_timed_out \<longrightarrow> conn w' (win_raw self) = Underway)) w"
proof -
  have os: "last_error wa x \<noteq> win_timed_out" for x
    by (simp add: last_error_def win_timed_out_def)
  note keeps = proceeds_established [OF win_attempt_connect(3) [OF assms]]
    proceeds_started [OF win_attempt_connect(3) [OF assms]]
  show ?thesis
    by (simp add: wp_win_connect_timeout Let_def os keeps win_attempt_connect [OF assms]
        win_await_answers [OF assms])
qed

text \<open>
  On Windows, with a time limit: a success means that the connection is established, and a
  reported timeout that the attempt was still under way when the waiting ended.
\<close>

theorem win_connect_timeout_answers:
  assumes "win_attempt_laws wa conn"
  shows "wp True (win_connect_timeout wa self addr timeout) (\<lambda>r w'.
      (r = Ok () \<longrightarrow> conn w' (win_raw self) = Established)
    \<and> (r = Err win_timed_out \<longrightarrow> conn w' (win_raw self) = Underway)) w"
  by (rule win_connect_timeout_answered [OF assms])

lemma x_attempt_laws: "win_attempt_laws x_api (\<lambda>w _. x_conn w)"
  by (auto simp: win_attempt_laws_def proceeds_def x_api_def x_consts_def x_ioctl_def x_connect_def
      x_select_def x_fails_def last_error_def Let_def split: list.split if_splits)

theorem win_connect_timeout_answers_witness:
  "wp True (win_connect_timeout x_api (Win_Socket 8) (BtAddr (Bytes6 1 2 3 4 5 6)) (Duration 1 0))
     (\<lambda>r w'. r = Ok () \<longrightarrow> x_conn w' = Established) (wsim_init\<lparr>x_script := [0, 10035]\<rparr>)"
  by (rule wp_mono [OF win_connect_timeout_answers [OF x_attempt_laws]]) simp

end
