(* ===== verification/Peers.thy ===== *)
theory Peers
  imports Bt_Api Unix_Wait Win_Connect
begin

text \<open>
  What the public interface tells about the other side of a connection: the address \<open>accept\<close>
  reports is the name of the peer of the new stream, and a stream that one of the connecting
  functions returns is connected. Each is the contract of a backend, proved once for the
  interface and discharged for both backends.
\<close>

section \<open>The caller of an accepted connection\<close>

text \<open>
  What the documentation says of accepting: a call that is given a buffer for an address never
  changes its size; if it succeeds it has written the name of the caller, which the new socket
  keeps as the name of its peer. Changing the flags of a descriptor changes no names.
\<close>

definition writes_name ::
    "'w libc \<Rightarrow> ('w \<Rightarrow> c_int \<Rightarrow> u8 list option) \<Rightarrow> (u8 list \<Rightarrow> 32 word \<Rightarrow> ('w, c_int \<times> u8 list \<times> 32 word) call) \<Rightarrow> bool" where
  "writes_name lc peer c \<longleftrightarrow> (\<forall>b n w. length b = unat (size_rc lc) \<longrightarrow>
     (let r = c b n w in length (fst (snd (fst r))) = unat (size_rc lc)
      \<and> (fst (fst r) \<noteq> - 1 \<longrightarrow>
          (\<exists>rc. fst (snd (fst r)) = rc_bytes lc rc \<and> peer (snd r) (fst (fst r)) = Some (rc_bytes lc rc)))))"

definition accept_laws :: "'w libc \<Rightarrow> ('w \<Rightarrow> c_int \<Rightarrow> u8 list option) \<Rightarrow> bool" where
  "accept_laws lc peer \<longleftrightarrow>
     (\<forall>fd fl. writes_name lc peer (\<lambda>b n. c_accept4 lc fd b n fl)) \<and> (\<forall>fd. writes_name lc peer (c_accept lc fd))
   \<and> (\<forall>fd w. peer (snd (c_ioctl lc fd (FIOCLEX (K lc)) w)) = peer w)
   \<and> (\<forall>fd w. peer (snd (c_fcntl lc fd (F_GETFD (K lc)) w)) = peer w)
   \<and> (\<forall>fd v w. peer (snd (c_fcntl_int lc fd (F_SETFD (K lc)) v w)) = peer w)"

text \<open>A successful call has written the name that the new descriptor \<open>fd\<close> keeps.\<close>

definition caller_named :: "'w libc \<Rightarrow> ('w \<Rightarrow> c_int \<Rightarrow> u8 list option) \<Rightarrow> c_int \<Rightarrow> 'w \<times> u8 list \<times> 32 word \<Rightarrow> bool" where
  "caller_named lc peer fd s \<longleftrightarrow>
     (\<exists>rc. fst (snd s) = rc_bytes lc rc \<and> peer (fst s) fd = Some (rc_bytes lc rc))"

lemma wp_accept_call:
  assumes "writes_name lc peer c" and "length (fst (snd s)) = unat (size_rc lc)"
  shows "wp True (cvt_r (kind_of lc) (le_local lc) (out_call (\<lambda>(b, n). c b n)))
    (\<lambda>r s'. length (fst (snd s')) = unat (size_rc lc)
      \<and> (case r of Ok fd \<Rightarrow> caller_named lc peer fd s' | _ \<Rightarrow> True)) s"
proof (rule wp_cvt_r [where I = "\<lambda>s. length (fst (snd s)) = unat (size_rc lc)"])
  fix s :: "'a \<times> u8 list \<times> 32 word"
  assume len: "length (fst (snd s)) = unat (size_rc lc)"
  note named = assms(1) [unfolded writes_name_def Let_def, rule_format, OF len]
  show "length (fst (snd (snd (out_call (\<lambda>(b, n). c b n) s)))) = unat (size_rc lc)"
    using named by (simp add: split_beta)
  show "wp True (cvt (le_local lc) (fst (out_call (\<lambda>(b, n). c b n) s)))
      (\<lambda>r s'. length (fst (snd s')) = unat (size_rc lc)
        \<and> (case r of Ok fd \<Rightarrow> caller_named lc peer fd s' | _ \<Rightarrow> True)) (snd (out_call (\<lambda>(b, n). c b n) s))"
    using named by (simp add: io_wp split_beta caller_named_def)
qed (rule assms(2))

lemma wp_set_cloexec_names:
  assumes "accept_laws lc peer"
  shows "wp True (fd_set_cloexec lc tgt f) (\<lambda>r w'. peer w' = peer w) w"
  using assms by (simp add: accept_laws_def fd_set_cloexec_def io_wp Let_def)

lemma triple_sock_accept_names:
  assumes "rc_layout_ok lc" and L: "accept_laws lc peer"
  shows "triple (\<lambda>_. True) (sock_accept lc tgt self)
    (\<lambda>r w. \<exists>rc. peer w (sock_raw (fst r)) = Some (rc_bytes lc rc) \<and> snd r = BtAddr (rc_bdaddr rc))"
    (is "triple _ _ ?P")
proof (rule tripleI)
  fix w
  let ?N = "unat (size_rc lc)"
  define Q where "Q = (\<lambda>r w. case r of Ok a \<Rightarrow> ?P a w | _ \<Rightarrow> True)"
  have Q: "Q (Ok a) w \<longleftrightarrow> ?P a w" "Q (Err e) w" "Q Panic w" for a e w
    by (simp_all add: Q_def)
  let ?Q = "\<lambda>r (s :: 'a \<times> u8 list \<times> 32 word). Q r (fst s)"
  let ?addr = "\<lambda>s :: 'a \<times> u8 list \<times> 32 word. BtAddr (rc_bdaddr (rc_of_bytes lc (fst (snd s))))"
  have read: "rc_of_bytes lc (rc_bytes lc rc) = rc" for rc
    using assms(1) by (metis rc_layout_ok_def append_Nil2)
  have calls: "writes_name lc peer (\<lambda>b n. c_accept4 lc fd b n fl)" "writes_name lc peer (c_accept lc fd)" for fd fl
    using L by (simp_all add: accept_laws_def)
  have get: "wp True (io_bind (io_get ?addr) (\<lambda>a. io_ret (Socket (fd_new fd), a))) ?Q s"
    if "caller_named lc peer fd s" for fd s
    using that by (auto simp: io_wp caller_named_def fd_new_def read Q)
  have flag: "wp True (with_drop (\<lambda>s. (fd_drop lc (fd_new fd) (fst s), snd s))
      (io_bind (on_world (fd_set_cloexec lc tgt (fd_new fd))) (\<lambda>_.
        io_bind (io_get ?addr) (\<lambda>a. io_ret (Socket (fd_new fd), a))))) ?Q s"
    if "caller_named lc peer fd s" for fd s
    unfolding wp_with_drop wp_bind [where m = "on_world x" for x] wp_on_world
    by (rule wp_mono [OF wp_set_cloexec_names [OF L]])
      (use that in \<open>auto simp: io_wp caller_named_def fd_new_def read Q split: outcome.split\<close>)
  have fallback: "wp True (io_bind (cvt_r (kind_of lc) (le_local lc)
        (out_call (\<lambda>(addr, len). c_accept lc (sock_raw self) addr len))) (\<lambda>fd.
      let fd = fd_new fd in
      with_drop (\<lambda>s. (fd_drop lc fd (fst s), snd s))
        (io_bind (on_world (fd_set_cloexec lc tgt fd)) (\<lambda>_.
          io_bind (io_get ?addr) (\<lambda>a. io_ret (Socket fd, a)))))) ?Q s"
    if "length (fst (snd s)) = ?N" for s
    unfolding wp_bind [where m = "cvt_r x y z" for x y z] Let_def
    by (rule wp_mono [OF wp_accept_call [OF calls(2) that]], elim conjE, erule thin_rl)
      (use flag in \<open>simp add: Q split: outcome.splits\<close>)
  have "wp True (sock_accept lc tgt self) Q w"
  proof (cases "os tgt = Linux")
    case False
    then show ?thesis
      using fallback [of "(w, replicate ?N 0, size_rc lc)"]
      by (simp add: sock_accept_def Let_def wp_locals)
  next
    case True
    show ?thesis
      unfolding sock_accept_def Let_def wp_locals if_P [OF True] wp_match
      by (rule wp_mono [OF wp_accept_call [OF calls(1)]], simp)
        (use get fallback [unfolded Let_def] in \<open>auto simp: io_wp Q split: outcome.splits\<close>)
  qed
  then show "wp True (sock_accept lc tgt self) (\<lambda>r s'. case r of Ok a \<Rightarrow> ?P a s' | _ \<Rightarrow> True) w"
    by (simp add: Q_def)
qed

text \<open>The same of Windows, where the buffer is longer than the name.\<close>

definition win_accept_laws :: "'w winapi \<Rightarrow> ('w \<Rightarrow> win_socket_handle \<Rightarrow> u8 list option) \<Rightarrow> bool" where
  "win_accept_laws wa peer \<longleftrightarrow>
     (\<forall>s b n w. length b = unat (size_storage_lh (MW wa)) \<longrightarrow>
        (let r = w_accept wa s b n w in fst (fst r) = INVALID_SOCKET (KW wa)
         \<or> (\<exists>sab rest. fst (snd (fst r)) = bth_bytes (MW wa) sab @ rest
              \<and> peer (snd r) (fst (fst r)) = Some (bth_bytes (MW wa) sab))))
   \<and> (\<forall>h f v w. peer (snd (w_set_handle_info wa h f v w)) = peer w)"

lemma triple_win_accept_names:
  assumes "bth_layout_ok (MW wa)" and "win_accept_laws wa peer"
  shows "triple (\<lambda>_. True) (win_sock_accept wa self)
    (\<lambda>r w. \<exists>sab. peer w (win_raw (fst r)) = Some (bth_bytes (MW wa) sab) \<and> snd r = bth_addr (MW wa) sab)"
proof (rule tripleI)
  fix w
  let ?b = "replicate (unat (size_storage_lh (MW wa))) 0"
  define r where "r = w_accept wa (win_raw self) ?b (size_bth (MW wa)) w"
  have "fst (fst r) = INVALID_SOCKET (KW wa)
      \<or> (\<exists>sab rest. fst (snd (fst r)) = bth_bytes (MW wa) sab @ rest
           \<and> peer (snd r) (fst (fst r)) = Some (bth_bytes (MW wa) sab))"
    using assms(2) [unfolded win_accept_laws_def, THEN conjunct1, rule_format, of ?b] by (simp add: r_def Let_def)
  moreover have "bth_of_bytes (MW wa) (bth_bytes (MW wa) sab @ rest) = sab" for sab rest
    using assms(1) by (simp add: bth_layout_ok_def)
  moreover have "peer (snd (w_set_handle_info wa h f v x)) = peer x" for h f v x
    using assms(2) by (simp add: win_accept_laws_def)
  ultimately show "wp True (win_sock_accept wa self) (\<lambda>r s'. case r of
      Ok a \<Rightarrow> \<exists>sab. peer s' (win_raw (fst a)) = Some (bth_bytes (MW wa) sab) \<and> snd a = bth_addr (MW wa) sab
    | _ \<Rightarrow> True) w"
    by (auto simp: win_sock_accept_def win_owned_def win_set_no_inherit_def io_wp Let_def simp flip: r_def)
qed

subsection \<open>The contract holds of both backends\<close>

lemma accept_sels:
  "be_accept (unix_backend lc tgt) k = on_world (sock_accept lc tgt k)"
  "be_as_inner (unix_backend lc tgt) k = sock_raw k"
  "be_accept (win_backend wa) h = on_world (win_sock_accept wa h)"
  "be_as_inner (win_backend wa) h = win_raw h"
  by (simp_all add: unix_backend_def win_backend_def sock_as_inner_def win_as_inner_def)

lemma triple_on_world_static:
  assumes "\<And>st. triple (\<lambda>_. True) m (\<lambda>a w. P a (w, st))"
  shows "triple (\<lambda>_. True) (on_world m) P"
  using assms by (fastforce simp: triple_def io_wp cong: outcome.case_cong)

interpretation unix_accepting: accepting_backend
  "\<lambda>(lc, tgt). unix_backend lc tgt" "\<lambda>(lc, tgt). rc_layout_ok lc" "\<lambda>(lc, tgt). le_local lc"
  "\<lambda>(lc, tgt) peer. \<forall>st. accept_laws lc (\<lambda>w. peer (w, st))"
proof unfold_locales
  fix p :: "'a libc \<times> target" and peer :: "'a \<times> bool \<Rightarrow> c_int \<Rightarrow> u8 list option" and k
  obtain lc tgt where p: "p = (lc, tgt)"
    by (cases p)
  assume "case p of (lc, tgt) \<Rightarrow> rc_layout_ok lc"
    and "(case p of (lc, tgt) \<Rightarrow> \<lambda>peer. \<forall>st. accept_laws lc (\<lambda>w. peer (w, st))) peer"
  then have L: "rc_layout_ok lc" and A: "accept_laws lc (\<lambda>w. peer (w, st))" for st
    by (simp_all add: p)
  have "denotes (unix_backend lc tgt) (rc_bytes lc rc) (BtAddr (rc_bdaddr rc))" for rc
    using L by (simp add: denotes_def unix_backend_def unix_btc_def unix_from_storage_def rc_layout_ok_def
        word_le_nat_alt)
  then show "triple (\<lambda>_. True) (be_accept (case p of (lc, tgt) \<Rightarrow> unix_backend lc tgt) k)
      (\<lambda>r s. \<exists>name. peer s (be_as_inner (case p of (lc, tgt) \<Rightarrow> unix_backend lc tgt) (fst r)) = Some name
        \<and> denotes (case p of (lc, tgt) \<Rightarrow> unix_backend lc tgt) name (snd r))"
    unfolding p prod.case accept_sels
    by (intro triple_on_world_static triple_weaken [OF triple_sock_accept_names [OF L A]]) auto
qed

interpretation win_accepting: accepting_backend
  "\<lambda>wa. win_backend wa" "\<lambda>wa. bth_layout_ok (MW wa)" "\<lambda>wa s. last_error wa (fst s)"
  "\<lambda>wa peer. \<forall>st. win_accept_laws wa (\<lambda>w. peer (w, st))"
proof unfold_locales
  fix wa :: "'a winapi" and peer :: "'a \<times> bool \<Rightarrow> win_socket_handle \<Rightarrow> u8 list option" and k
  assume L: "bth_layout_ok (MW wa)" and A: "\<forall>st. win_accept_laws wa (\<lambda>w. peer (w, st))"
  have "denotes (win_backend wa) (bth_bytes (MW wa) sab) (bth_addr (MW wa) sab)" for sab
    using L by (simp add: denotes_def win_backend_def win_btc_def win_from_storage_def bth_layout_ok_def
        word_le_nat_alt)
  then show "triple (\<lambda>_. True) (be_accept (win_backend wa) k)
      (\<lambda>r s. \<exists>name. peer s (be_as_inner (win_backend wa) (fst r)) = Some name
        \<and> denotes (win_backend wa) name (snd r))"
    unfolding accept_sels
    by (intro triple_on_world_static triple_weaken [OF triple_win_accept_names [OF L A [rule_format]]]) auto
qed

subsection \<open>At the public interface\<close>

lemma io_bind_map: "io_bind (io_map f m) k = io_bind m (\<lambda>a. k (f a))"
  by (simp add: io_map_def io_bind_assoc)

context accepting_backend begin

lemma api_accept_peer:
  assumes "layout p" and "names_ok (B p) loc peer" and "accepts p peer"
  shows "triple (\<lambda>_. True)
    (io_bind (listener_accept (B p) l) (\<lambda>(c, a). io_map (\<lambda>b. (a, b)) (stream_peer_addr (B p) c)))
    (\<lambda>(a, b) _. b = a)"
  using accept_then_peer [OF assms, of "listener_inner l"]
  by (simp add: listener_accept_def stream_peer_addr_def io_bind_map case_prod_unfold)

end

text \<open>
  C11. On Unix, \<open>accept\<close> reports the address of the caller: asked at once, the new stream gives
  the same address as that of its peer, on the path through \<open>accept4\<close> as on the one that falls
  back to \<open>accept\<close>, however often the calls are interrupted.
\<close>

theorem unix_accept_peer:
  assumes "rc_layout_ok lc" and "accept_laws lc peer"
    and "names_ok (unix_backend lc tgt) loc (\<lambda>s. peer (fst s))"
  shows "triple (\<lambda>_. True)
    (io_bind (listener_accept (unix_backend lc tgt) l)
      (\<lambda>(c, a). io_map (\<lambda>b. (a, b)) (stream_peer_addr (unix_backend lc tgt) c)))
    (\<lambda>(a, b) _. b = a)"
  using unix_accepting.api_accept_peer [of "(lc, tgt)" loc "\<lambda>s. peer (fst s)" l] assms by simp

lemma sim_names_ok:
  "names_ok (unix_backend sim_libc tgt) (\<lambda>s h. Some (s_local (fst s))) (\<lambda>s h. Some (s_peer (fst s)))"
proof -
  have name: "\<exists>rest. sim_name name b = name @ rest" if "length name \<le> length b" for name b
    using that by (simp add: sim_name_def)
  show ?thesis
    using name by (simp add: names_ok_def unix_backend_def sim_defs sim_connect_def sim_ok_def
        sim_fails_def Let_def split: list.split)
qed

lemma sim_accept_laws: "accept_laws sim_libc (\<lambda>w _. Some (s_peer w))"
proof -
  have "length (sim_rc_bytes rc) = 10" for rc
    by (simp add: sim_rc_bytes_def Let_def case_prod_unfold)
  then have "writes_name sim_libc (\<lambda>w _. Some (s_peer w)) (\<lambda>b n. sim_fails (- 1, b, n) (sim_accept ce b n))" for ce
    by (auto simp: writes_name_def sim_fails_def sim_accept_def sim_name_def sim_defs Let_def split_beta
        split: list.split)
  then show ?thesis
    by (auto simp: accept_laws_def sim_defs sim_ok_def sim_fails_def sim_fcntl_def sim_fcntl_int_def sim_alloc_def
        split: list.split option.split)
qed

theorem unix_accept_peer_witness:
  "triple (\<lambda>_. True)
    (io_bind (listener_accept (unix_backend sim_libc linux_target)
        (BtListener \<lparr>l_inner = Socket (FileDesc 1), l_protocol = RFCOMM\<rparr>))
      (\<lambda>(c, a). io_map (\<lambda>b. (a, b)) (stream_peer_addr (unix_backend sim_libc linux_target) c)))
    (\<lambda>(a, b) _. b = a)"
  by (rule unix_accept_peer [OF sim_layout_ok sim_accept_laws sim_names_ok])

text \<open>
  C35. On Windows too, \<open>accept\<close> reports the address that the new stream gives as that of its peer.
\<close>

theorem win_accept_peer:
  assumes "bth_layout_ok (MW wa)" and "win_accept_laws wa peer"
    and "names_ok (win_backend wa) loc (\<lambda>s. peer (fst s))"
  shows "triple (\<lambda>_. True)
    (io_bind (listener_accept (win_backend wa) l)
      (\<lambda>(c, a). io_map (\<lambda>b. (a, b)) (stream_peer_addr (win_backend wa) c)))
    (\<lambda>(a, b) _. b = a)"
  using win_accepting.api_accept_peer [of wa loc "\<lambda>s. peer (fst s)" l] assms by simp

lemma x_names_ok:
  "names_ok (win_backend x_api) (\<lambda>s h. Some (x_local (fst s))) (\<lambda>s h. Some (x_peer (fst s)))"
proof -
  have name: "\<exists>rest. x_name name b = name @ rest" if "length name \<le> length b" for name b
    using that by (simp add: x_name_def)
  show ?thesis
    using name by (simp add: names_ok_def win_backend_def x_api_def x_connect_def x_ok_def x_fails_def
        Let_def split: list.split)
qed

lemma x_api_layout_ok: "bth_layout_ok (MW x_api)"
  using x_layout_ok by (simp add: x_api_def)

lemma x_accept_laws: "win_accept_laws x_api (\<lambda>w _. Some (x_peer w))"
proof -
  have "length (x_bth_bytes sab) = 30" for sab
    by (simp add: x_bth_bytes_def u64_list_def Let_def case_prod_unfold)
  then have "\<exists>rest. x_name (x_bth_bytes sab) b = x_bth_bytes sab @ rest" if "length b = 128" for sab b
    using that by (simp add: x_name_def)
  then show ?thesis
    by (auto simp: win_accept_laws_def x_api_def x_memory_def x_consts_def x_fails_def x_accept_def Let_def
        split_beta split: list.split)
qed

theorem win_accept_peer_witness:
  "triple (\<lambda>_. True)
    (io_bind (listener_accept (win_backend x_api)
        (BtListener \<lparr>l_inner = Win_Socket 4, l_protocol = RFCOMM\<rparr>))
      (\<lambda>(c, a). io_map (\<lambda>b. (a, b)) (stream_peer_addr (win_backend x_api) c)))
    (\<lambda>(a, b) _. b = a)"
  by (rule win_accept_peer [OF x_api_layout_ok x_accept_laws x_names_ok])

section \<open>Streams are connected\<close>

text \<open>
  A backend whose connecting operations succeed only on a connection, with \<open>conn\<close> the state of
  the attempt on each socket.
\<close>

locale connecting_backend =
  fixes B :: "'p \<Rightarrow> ('s, 'k, 'h) backend"
    and ok :: "'p \<Rightarrow> bool"
    and conn :: "'p \<Rightarrow> 's \<Rightarrow> 'h \<Rightarrow> connection"
  assumes connect_establishes: "ok p \<Longrightarrow>
      triple (\<lambda>_. True) (be_cvt_r (B p) (be_connect (B p) h a n)) (\<lambda>_ s. conn p s h = Established)"
    and timed_establishes: "ok p \<Longrightarrow>
      triple (\<lambda>_. True) (be_connect_timeout (B p) k addr d)
        (\<lambda>_ s. conn p s (be_as_inner (B p) k) = Established)"
begin

lemma sys_connected:
  assumes "ok p"
  shows "triple (\<lambda>_. True) (sys_connect (B p) addr pr) (\<lambda>c s. conn p s (be_as_inner (B p) (s_inner c)) = Established)"
    and "triple (\<lambda>_. True) (sys_connect_timeout (B p) addr pr d)
      (\<lambda>c s. conn p s (be_as_inner (B p) (s_inner c)) = Established)"
  unfolding sys_connect_def sys_connect_timeout_def
  by (auto split: prod.split intro!: triple_ret triple_with_drop triple_bind [OF triple_top]
      triple_bind [OF connect_establishes [OF assms]] triple_bind [OF timed_establishes [OF assms]])

lemma api_connected:
  assumes "ok p"
  shows "triple (\<lambda>_. True) (stream_connect (B p) addrs pr)
      (\<lambda>c s. conn p s (stream_handle (B p) c) = Established)"
    and "triple (\<lambda>_. True) (stream_connect_timeout (B p) addr pr d)
      (\<lambda>c s. conn p s (stream_handle (B p) c) = Established)"
  unfolding stream_connect_def stream_connect_timeout_def
  by (rule triple_map, rule triple_weaken [OF triple_each_addr [OF sys_connected(1) [OF assms]]], simp, simp)
    (rule triple_map, simp add: sys_connected(2) [OF assms])

end

lemma connect_sels:
  "be_connect_timeout (unix_backend lc tgt) k addr d = on_world (sock_connect_timeout lc k addr d)"
  "be_connect_timeout (win_backend wa) h addr d = on_world (win_connect_timeout wa h addr d)"
  "be_connect (unix_backend lc tgt) fd b n = call_on_world (c_connect lc fd b n)"
  "be_connect (win_backend wa) s b n = call_on_world (w_connect wa s b n)"
  by (simp_all add: unix_backend_def win_backend_def)

interpretation unix_connecting: connecting_backend
  "\<lambda>(lc, tgt, conn). unix_backend lc tgt" "\<lambda>(lc, tgt, conn). attempt_laws lc conn"
  "\<lambda>(lc, tgt, conn) s. conn (fst s)"
proof (unfold_locales, unfold split_paired_all prod.case)
  fix lc :: "'a libc" and tgt conn h a n k addr d
  assume L: "attempt_laws lc conn"
  show "triple (\<lambda>_. True) (be_cvt_r (unix_backend lc tgt) (be_connect (unix_backend lc tgt) h a n))
      (\<lambda>_ s. conn (fst s) h = Established)"
    using unix_codec.cvt_r_after [of "be_connect (unix_backend lc tgt) h a n" _ "(lc, tgt)"]
    by (simp add: connect_sels attempt_connect [OF L])
  show "triple (\<lambda>_. True) (be_connect_timeout (unix_backend lc tgt) k addr d)
      (\<lambda>_ s. conn (fst s) (be_as_inner (unix_backend lc tgt) k) = Established)"
    unfolding connect_sels accept_sels
    by (rule triple_on_world_static) (simp add: sock_connect_timeout_established [OF L])
qed

interpretation win_connecting: connecting_backend
  "\<lambda>(wa, conn). win_backend wa" "\<lambda>(wa, conn). win_attempt_laws wa conn" "\<lambda>(wa, conn) s. conn (fst s)"
proof (unfold_locales, unfold split_paired_all prod.case)
  fix wa :: "'a winapi" and conn h a n k addr d
  assume L: "win_attempt_laws wa conn"
  show "triple (\<lambda>_. True) (be_cvt_r (win_backend wa) (be_connect (win_backend wa) h a n))
      (\<lambda>_ s. conn (fst s) h = Established)"
    using win_codec.cvt_r_after [of "be_connect (win_backend wa) h a n" _ wa]
    by (simp add: connect_sels win_attempt_connect [OF L])
  show "triple (\<lambda>_. True) (be_connect_timeout (win_backend wa) k addr d)
      (\<lambda>_ s. conn (fst s) (be_as_inner (win_backend wa) k) = Established)"
    unfolding connect_sels accept_sels
    by (intro triple_on_world_static tripleI wp_mono [OF win_connect_timeout_answered [OF L]])
      (simp split: outcome.split)
qed





end
