(* ===== verification/Handles.thy ===== *)
theory Handles
  imports Bt_Api
begin

text \<open>
  The well-formedness of sockets: a \<open>Socket\<close> is only ever made around a handle that the system
  gave out, never around the value by which it reports a failure. Nothing is assumed of the
  system: the guards of the constructors alone ensure it.
\<close>

section \<open>What a computation yields\<close>

text \<open>A property of the value of a success, whatever the state.\<close>

abbreviation yields :: "('s, 'a) io \<Rightarrow> ('a \<Rightarrow> bool) \<Rightarrow> bool" where
  "yields m P \<equiv> triple (\<lambda>_. True) m (\<lambda>a _. P a)"

named_theorems yields_rules \<open>what the combinators yield\<close>

lemma yieldsI: "(\<And>s a s'. m s = Some (Ok a, s') \<Longrightarrow> P a) \<Longrightarrow> yields m P"
  by (auto simp: triple_def wp_def split: option.split outcome.split)

lemma yieldsD: "yields m P \<Longrightarrow> m s = Some (Ok a, s') \<Longrightarrow> P a"
  by (auto simp: triple_def wp_def dest: spec [of _ s])

lemma yields_match:
  assumes "yields m P'" and "\<And>a. P' a \<Longrightarrow> yields (k a) P" and "\<And>e. yields (h e) P"
  shows "yields (io_match m k h) P"
proof (rule yieldsI)
  fix s a s'
  assume run: "io_match m k h s = Some (Ok a, s')"
  then obtain r s1 where m: "m s = Some (r, s1)"
    by (auto simp: io_match_def split: option.splits)
  show "P a"
  proof (cases r)
    case (Ok b)
    with run m have "k b s1 = Some (Ok a, s')"
      by (simp add: io_match_def)
    from yieldsD [OF assms(2) [OF yieldsD [OF assms(1) m [unfolded Ok]]] this] show ?thesis .
  next
    case (Err e)
    with run m have "h e s1 = Some (Ok a, s')"
      by (simp add: io_match_def)
    from yieldsD [OF assms(3) this] show ?thesis .
  next
    case Panic
    with run m show ?thesis
      by (simp add: io_match_def)
  qed
qed

lemma yields_bind:
  assumes "yields m P'" and "\<And>a. P' a \<Longrightarrow> yields (k a) P"
  shows "yields (io_bind m k) P"
  unfolding io_bind_def by (rule yields_match [OF assms triple_err])

lemma yields_then: "(\<And>a. yields (k a) P) \<Longrightarrow> yields (io_bind m k) P"
  by (rule yields_bind [OF triple_top])

lemma yields_ret: "P a \<Longrightarrow> yields (io_ret a) P"
  by (rule triple_ret)

lemma yields_map:
  assumes "yields m P'" and "\<And>a. P' a \<Longrightarrow> P (f a)"
  shows "yields (io_map f m) P"
  unfolding io_map_def by (rule yields_bind [OF assms(1) yields_ret]) (rule assms(2))

lemma yields_on_world: "yields m P \<Longrightarrow> yields (on_world m) P"
  using triple_on_world [of "\<lambda>_. True" m "\<lambda>a _. P a"] by simp

lemma yields_locals: "yields m P \<Longrightarrow> yields (io_locals l m) P"
  using triple_locals [of "\<lambda>_. True" m "\<lambda>a _. P a" l] by simp

lemma yields_if: "(c \<Longrightarrow> yields m P) \<Longrightarrow> (\<not> c \<Longrightarrow> yields n P) \<Longrightarrow> yields (if c then m else n) P"
  by simp

lemma yields_each: "(\<And>a. yields (f a) P) \<Longrightarrow> yields (each_addr as f) P"
  by (rule triple_weaken [OF triple_each_addr [where Q = "\<lambda>_ b _. P b"]]) auto

section \<open>The contract\<close>

text \<open>\<open>invalid p\<close> is the value by which the platform reports that there is no handle.\<close>

locale handle_backend =
  fixes B :: "'p \<Rightarrow> ('s, 'k, 'h) backend" and invalid :: "'p \<Rightarrow> 'h"
  assumes new_valid: "yields (be_new (B p) pr) (\<lambda>k. be_as_inner (B p) k \<noteq> invalid p)"
    and accept_valid: "yields (be_accept (B p) l) (\<lambda>r. be_as_inner (B p) (fst r) \<noteq> invalid p)"
    and duplicate_valid: "yields (be_duplicate (B p) k) (\<lambda>k. be_as_inner (B p) k \<noteq> invalid p)"
begin

lemma sys_valid:
  shows "yields (sys_bind (B p) addr pr) (\<lambda>l. be_as_inner (B p) (l_inner l) \<noteq> invalid p)"
    and "yields (sys_connect (B p) addr pr) (\<lambda>c. be_as_inner (B p) (s_inner c) \<noteq> invalid p)"
    and "yields (sys_connect_timeout (B p) addr pr d) (\<lambda>c. be_as_inner (B p) (s_inner c) \<noteq> invalid p)"
proof -
  obtain b n where into: "be_into (B p) addr = (b, n)"
    by (cases "be_into (B p) addr")
  show "yields (sys_bind (B p) addr pr) (\<lambda>l. be_as_inner (B p) (l_inner l) \<noteq> invalid p)"
    unfolding sys_bind_def into prod.case
    by (rule yields_bind [OF new_valid], rule triple_with_drop, rule yields_then, rule yields_then,
        rule yields_then, rule yields_ret) simp
  show "yields (sys_connect (B p) addr pr) (\<lambda>c. be_as_inner (B p) (s_inner c) \<noteq> invalid p)"
    unfolding sys_connect_def into prod.case
    by (rule yields_bind [OF new_valid], rule triple_with_drop, rule yields_then, rule yields_ret) simp
  show "yields (sys_connect_timeout (B p) addr pr d) (\<lambda>c. be_as_inner (B p) (s_inner c) \<noteq> invalid p)"
    unfolding sys_connect_timeout_def
    by (rule yields_bind [OF new_valid], rule triple_with_drop, rule yields_then, rule yields_ret) simp
qed

lemma api_valid:
  shows "yields (listener_bind (B p) addrs pr) (\<lambda>l. listener_handle (B p) l \<noteq> invalid p)"
    and "yields (stream_connect (B p) addrs pr) (\<lambda>c. stream_handle (B p) c \<noteq> invalid p)"
    and "yields (stream_connect_timeout (B p) addr pr d) (\<lambda>c. stream_handle (B p) c \<noteq> invalid p)"
    and "yields (listener_accept (B p) l) (\<lambda>r. stream_handle (B p) (fst r) \<noteq> invalid p)"
    and "yields (listener_try_clone (B p) l) (\<lambda>l. listener_handle (B p) l \<noteq> invalid p)"
    and "yields (stream_try_clone (B p) c) (\<lambda>c. stream_handle (B p) c \<noteq> invalid p)"
proof -
  show "yields (listener_bind (B p) addrs pr) (\<lambda>l. listener_handle (B p) l \<noteq> invalid p)"
    unfolding listener_bind_def by (rule yields_map [OF yields_each [OF sys_valid(1)]]) simp
  show "yields (stream_connect (B p) addrs pr) (\<lambda>c. stream_handle (B p) c \<noteq> invalid p)"
    unfolding stream_connect_def by (rule yields_map [OF yields_each [OF sys_valid(2)]]) simp
  show "yields (stream_connect_timeout (B p) addr pr d) (\<lambda>c. stream_handle (B p) c \<noteq> invalid p)"
    unfolding stream_connect_timeout_def by (rule yields_map [OF sys_valid(3)]) simp
  show "yields (listener_accept (B p) l) (\<lambda>r. stream_handle (B p) (fst r) \<noteq> invalid p)"
    unfolding listener_accept_def sys_listener_accept_def io_map_map
    by (rule yields_map [OF accept_valid]) (simp add: split_beta)
  show "yields (listener_try_clone (B p) l) (\<lambda>l. listener_handle (B p) l \<noteq> invalid p)"
    unfolding listener_try_clone_def sys_listener_duplicate_def io_map_map
    by (rule yields_map [OF duplicate_valid]) simp
  show "yields (stream_try_clone (B p) c) (\<lambda>c. stream_handle (B p) c \<noteq> invalid p)"
    unfolding stream_try_clone_def sys_duplicate_def io_map_map
    by (rule yields_map [OF duplicate_valid]) simp
qed

end

section \<open>Unix\<close>

lemma yields_cvt: "yields (cvt_call lc c) (\<lambda>fd. fd \<noteq> - 1)"
  by (rule yieldsI) (auto simp: cvt_call_def io_defs cvt_def is_minus_one_def split: if_splits)

lemma yields_cvt_r: "yields (cvt_r kind le f) (\<lambda>fd. fd \<noteq> - 1)"
  by (rule tripleI, rule wp_cvt_r [where I = "\<lambda>_. True"]) (simp_all add: io_wp)

interpretation unix_handles: handle_backend "\<lambda>(lc, tgt). unix_backend lc tgt" "\<lambda>_. - 1"
proof (unfold_locales, unfold split_paired_all prod.case)
  fix lc :: "'a libc" and tgt pr l k
  have sel: "be_new (unix_backend lc tgt) pr = on_world (sock_new lc tgt pr)"
    "be_accept (unix_backend lc tgt) l = on_world (sock_accept lc tgt l)"
    "be_duplicate (unix_backend lc tgt) k = sock_duplicate lc tgt k"
    "be_as_inner (unix_backend lc tgt) k = sock_raw k" for k
    by (simp_all add: unix_backend_def sock_as_inner_def)
  have new: "yields (io_bind (cvt_call lc c) (\<lambda>fd. with_drop (d fd) (io_bind (m fd) (\<lambda>_. io_bind (n fd) (\<lambda>_. io_ret (Socket (FileDesc fd)))))))
      (\<lambda>k. sock_raw k \<noteq> - 1)" for c d and m n :: "c_int \<Rightarrow> ('a, unit) io"
    by (rule yields_bind [OF yields_cvt], rule triple_with_drop, rule yields_then, rule yields_then, rule yields_ret) simp
  show "yields (be_new (unix_backend lc tgt) pr) (\<lambda>k. be_as_inner (unix_backend lc tgt) k \<noteq> - 1)"
    unfolding sel sock_new_def Let_def fd_new_def
    by (rule yields_on_world, rule yields_if, rule yields_match [OF yields_cvt], rule yields_ret, simp,
        rule yields_if, rule new, rule triple_err, rule new)
  have accept: "yields (io_bind (cvt_r kd le f) (\<lambda>fd. with_drop (d fd) (io_bind (m fd) (\<lambda>_. io_bind g (\<lambda>a. io_ret (Socket (FileDesc fd), a))))))
      (\<lambda>r. sock_raw (fst r) \<noteq> - 1)" for kd le f d and m :: "c_int \<Rightarrow> ('a \<times> u8 list \<times> 32 word, unit) io" and g :: "('a \<times> u8 list \<times> 32 word, bt_addr) io"
    by (rule yields_bind [OF yields_cvt_r], rule triple_with_drop, rule yields_then, rule yields_then, rule yields_ret) simp
  show "yields (be_accept (unix_backend lc tgt) l) (\<lambda>r. be_as_inner (unix_backend lc tgt) (fst r) \<noteq> - 1)"
    unfolding sel sock_accept_def Let_def fd_new_def
    by (rule yields_on_world, rule yields_locals, rule yields_if, rule yields_match [OF yields_cvt_r],
        rule yields_then, rule yields_ret, simp)
      (rule yields_if accept triple_err)+
  have made: "fd \<noteq> - 1 \<Longrightarrow> yields (make_filedesc lc tgt fd) (\<lambda>f. raw_fd f \<noteq> - 1)" for fd
    unfolding make_filedesc_def fd_new_def Let_def
    by (rule triple_with_drop, rule yields_then, rule yields_ret) simp
  have plain: "yields (on_world (io_bind (cvt_call lc c) (make_filedesc lc tgt))) (\<lambda>f. raw_fd f \<noteq> - 1)" for c
    by (intro yields_on_world yields_bind [OF yields_cvt made])
  have "yields (fd_duplicate lc tgt f) (\<lambda>f. raw_fd f \<noteq> - 1)" for f
    unfolding fd_duplicate_def Let_def fd_new_def
    by (rule yields_then, rule yields_if, rule yields_match [OF yields_on_world [OF yields_cvt]], rule yields_if,
        erule yields_on_world [OF made], rule yields_ret, simp, rule yields_if, rule yields_then, rule plain,
        rule triple_err, rule plain)
  then show "yields (be_duplicate (unix_backend lc tgt) k) (\<lambda>k. be_as_inner (unix_backend lc tgt) k \<noteq> - 1)"
    unfolding sel sock_duplicate_def by (rule yields_map) simp
qed

section \<open>Windows\<close>

lemma yields_win_owned: "yields (win_owned wa n) (\<lambda>s. win_raw s \<noteq> INVALID_SOCKET (KW wa))"
  by (rule yieldsI) (auto simp: win_owned_def io_defs split: if_splits)

interpretation win_handles: handle_backend "\<lambda>wa. win_backend wa" "\<lambda>wa. INVALID_SOCKET (KW wa)"
proof unfold_locales
  fix wa :: "'a winapi" and pr l k
  let ?bad = "INVALID_SOCKET (KW wa)"
  have sel: "be_new (win_backend wa) pr = win_sock_new wa pr"
    "be_accept (win_backend wa) l = on_world (win_sock_accept wa l)"
    "be_duplicate (win_backend wa) k = on_world (win_sock_duplicate wa k)"
    "be_as_inner (win_backend wa) k = win_raw k" for k
    by (simp_all add: win_backend_def win_as_inner_def)
  have made: "yields (with_drop d (io_bind m (\<lambda>_. io_ret s))) (\<lambda>s. win_raw s \<noteq> ?bad)" if "win_raw s \<noteq> ?bad"
    for d s and m :: "('a, unit) io"
    by (rule triple_with_drop, rule yields_then, rule yields_ret, rule that)
  show "yields (be_new (win_backend wa) pr) (\<lambda>k. be_as_inner (win_backend wa) k \<noteq> ?bad)"
    unfolding sel win_sock_new_def
    by (rule yields_then, cases pr)
      (simp_all add: triple_err yields_on_world [OF yields_bind [OF yields_then [OF yields_win_owned] made]])
  show "yields (be_accept (win_backend wa) l) (\<lambda>r. be_as_inner (win_backend wa) (fst r) \<noteq> ?bad)"
    unfolding sel win_sock_accept_def
    by (rule yields_on_world, rule yields_locals,
        rule yields_bind [OF yields_then [OF yields_on_world [OF yields_win_owned]]],
        rule triple_with_drop, rule yields_then, rule yields_then, rule yields_ret) simp
  have "yields (case x of (r, info) \<Rightarrow> io_bind (m r) (\<lambda>_. io_bind (n info) (win_owned wa))) (\<lambda>s. win_raw s \<noteq> ?bad)"
    for x :: "c_int \<times> protocol_info" and m :: "c_int \<Rightarrow> ('a, c_int) io" and n
    by (cases x) (simp, rule yields_then, rule yields_then, rule yields_win_owned)
  then show "yields (be_duplicate (win_backend wa) k) (\<lambda>k. be_as_inner (win_backend wa) k \<noteq> ?bad)"
    unfolding sel win_sock_duplicate_def
    by (intro yields_on_world yields_bind [OF yields_then [OF yields_then] made])
qed

section \<open>Every socket of the public interface\<close>

definition all_valid :: "('s, 'k, 'h) backend \<Rightarrow> 'h \<Rightarrow> bool" where
  "all_valid B bad \<longleftrightarrow>
     (\<forall>addrs pr. yields (listener_bind B addrs pr) (\<lambda>l. listener_handle B l \<noteq> bad))
   \<and> (\<forall>addrs pr. yields (stream_connect B addrs pr) (\<lambda>c. stream_handle B c \<noteq> bad))
   \<and> (\<forall>addr pr d. yields (stream_connect_timeout B addr pr d) (\<lambda>c. stream_handle B c \<noteq> bad))
   \<and> (\<forall>l. yields (listener_accept B l) (\<lambda>r. stream_handle B (fst r) \<noteq> bad))
   \<and> (\<forall>l. yields (listener_try_clone B l) (\<lambda>l. listener_handle B l \<noteq> bad))
   \<and> (\<forall>c. yields (stream_try_clone B c) (\<lambda>c. stream_handle B c \<noteq> bad))"

text \<open>
  C10. The type invariant of sockets: every listener and stream that a function of the public
  interface returns holds a handle, never the value -1 (on Windows \<open>INVALID_SOCKET\<close>) by which the
  system reports a failure; so what its destructor closes is a handle it was given. This needs
  no assumption about the system.
\<close>

theorem sockets_valid:
  "all_valid (unix_backend lc tgt) (- 1) \<and> all_valid (win_backend wa) (INVALID_SOCKET (KW wa))"
  using unix_handles.api_valid [of "(lc, tgt)"] win_handles.api_valid [of wa] by (simp add: all_valid_def)

end
