(* ===== verification/Std_Io.thy ===== *)
theory Std_Io
  imports Rust_Std
begin

text \<open>
  The methods that the traits \<open>Read\<close> and \<open>Write\<close> of the standard library derive from \<open>read\<close>
  and \<open>write\<close>: the loops of \<open>read_to_end\<close> and \<open>write_all\<close>, as their documentation describes
  them, and what they make of a source or a sink of bytes. What they rely on is a locale each,
  which the implementations of the two traits in the program discharge.
\<close>

section \<open>Reading to the end\<close>

text \<open>
  The loop reads into the spare room behind the vector, makes more room when there is none
  (how much is the standard library's choice, the argument \<open>grow\<close>), tries again when it is
  interrupted, and ends at the first read of no bytes or at any other error. The state is the
  world with the vector; \<open>spare\<close> is the initialised room behind the bytes read so far. A count
  larger than the room would make the next slice panic.
\<close>

partial_function (option) read_to_end_loop ::
    "(io_error \<Rightarrow> error_kind) \<Rightarrow> ('w \<times> u8 list, usize) io \<Rightarrow> (nat \<Rightarrow> nat) \<Rightarrow> nat \<Rightarrow> u8 list \<Rightarrow>
     ('w \<times> u8 list, usize) io" where
  "read_to_end_loop kind rd grow start_len spare s =
     (let spare = (if spare = [] then replicate (grow (length (snd s))) 0 else spare)
      in case rd (fst s, spare) of
           None \<Rightarrow> None
         | Some (r, s1) \<Rightarrow>
             (case r of
                Ok n \<Rightarrow>
                  if n = 0 then Some (Ok (of_nat (length (snd s) - start_len)), (fst s1, snd s))
                  else if length (snd s1) < unat n then Some (Panic, (fst s1, snd s))
                  else read_to_end_loop kind rd grow start_len (drop (unat n) (snd s1))
                         (fst s1, snd s @ take (unat n) (snd s1))
              | Err e \<Rightarrow>
                  if kind e = Interrupted
                  then read_to_end_loop kind rd grow start_len (snd s1) (fst s1, snd s)
                  else Some (Err e, (fst s1, snd s))
              | Panic \<Rightarrow> Some (Panic, (fst s1, snd s))))"

declare read_to_end_loop.simps [code]

definition std_read_to_end ::
    "(io_error \<Rightarrow> error_kind) \<Rightarrow> ('w \<times> u8 list, usize) io \<Rightarrow> (nat \<Rightarrow> nat) \<Rightarrow> ('w \<times> u8 list, usize) io" where
  "std_read_to_end kind rd grow s = read_to_end_loop kind rd grow (length (snd s)) [] s"

text \<open>
  One read from a source with \<open>content\<close> still to come: it gives a part of the content from its
  start, nothing only at the end; a failing read takes nothing, and only finitely many reads in
  a row are interrupted (\<open>pending\<close>).
\<close>

definition reads_from ::
    "(io_error \<Rightarrow> error_kind) \<Rightarrow> ('w \<Rightarrow> u8 list) \<Rightarrow> ('w \<Rightarrow> nat) \<Rightarrow> 'w \<Rightarrow> u8 list \<Rightarrow> usize outcome \<Rightarrow> 'w \<Rightarrow> u8 list \<Rightarrow> bool"
  where
  "reads_from kind content pending w b r w' b' \<longleftrightarrow>
     length b' = length b \<and> pending w' \<le> pending w
   \<and> (case r of
        Ok k \<Rightarrow> unat k \<le> length b \<and> unat k \<le> length (content w) \<and> take (unat k) b' = take (unat k) (content w)
          \<and> content w' = drop (unat k) (content w) \<and> (k = 0 \<longrightarrow> content w = [])
      | Err e \<Rightarrow> content w' = content w \<and> (kind e = Interrupted \<longrightarrow> pending w' < pending w)
      | Panic \<Rightarrow> False)"

text \<open>What the loop promises from any state on.\<close>

definition read_all :: "('w \<Rightarrow> u8 list) \<Rightarrow> nat \<Rightarrow> 'w \<times> u8 list \<Rightarrow> usize outcome \<Rightarrow> 'w \<times> u8 list \<Rightarrow> bool" where
  "read_all content start s r s' \<longleftrightarrow>
     (\<exists>got. snd s' = snd s @ got \<and> content (fst s) = got @ content (fst s'))
   \<and> (case r of
        Ok k \<Rightarrow> content (fst s') = [] \<and> k = of_nat (length (snd s') - start)
      | Err e \<Rightarrow> True
      | Panic \<Rightarrow> False)"

lemma read_all_step:
  assumes "read_all content start (w1, buf @ got) r s'" and "content w = got @ content w1"
  shows "read_all content start (w, buf) r s'"
  using assms by (auto simp: read_all_def)

text \<open>
  A source of bytes, for every value \<open>p\<close> of the parameters of the program for which \<open>ok p\<close> says
  that the platform behaves. A slice has fewer than \<open>2 ^ 63\<close> bytes.
\<close>

locale byte_source =
  fixes kind :: "'p \<Rightarrow> io_error \<Rightarrow> error_kind"
    and rd :: "'p \<Rightarrow> ('w \<times> u8 list, usize) io"
    and ok :: "'p \<Rightarrow> bool"
    and content :: "'p \<Rightarrow> 'w \<Rightarrow> u8 list"
    and pending :: "'p \<Rightarrow> 'w \<Rightarrow> nat"
  assumes reads: "ok p \<Longrightarrow> b \<noteq> [] \<Longrightarrow> length b < 2 ^ 63 \<Longrightarrow>
    \<exists>r w' b'. rd p (w, b) = Some (r, (w', b')) \<and> reads_from (kind p) (content p) (pending p) w b r w' b'"
begin

lemma read_loop_total:
  assumes "ok p" and "\<And>n. 0 < grow n \<and> grow n < 2 ^ 63" and "length spare < 2 ^ 63"
  shows "\<exists>r s'. read_to_end_loop (kind p) (rd p) grow start spare (w, buf) = Some (r, s')
    \<and> read_all (content p) start (w, buf) r s'"
  using assms(3)
proof (induction "pending p w + length (content p w)" arbitrary: w buf spare rule: less_induct)
  case less
  define sp where "sp = (if spare = [] then replicate (grow (length buf)) 0 else spare)"
  have sp: "sp \<noteq> []" "length sp < 2 ^ 63"
    using less(2) assms(2) [of "length buf"] by (auto simp: sp_def)
  obtain r w1 b' where run: "rd p (w, sp) = Some (r, (w1, b'))"
    and step: "reads_from (kind p) (content p) (pending p) w sp r w1 b'"
    using reads [OF assms(1) sp] by blast
  have spare: "(if spare = [] then replicate (grow (length (snd (w, buf)))) 0 else spare) = sp"
    by (simp add: sp_def)
  have loop: "read_to_end_loop (kind p) (rd p) grow start spare (w, buf) =
     (case r of
        Ok n \<Rightarrow>
          if n = 0 then Some (Ok (of_nat (length buf - start)), (w1, buf))
          else if length b' < unat n then Some (Panic, (w1, buf))
          else read_to_end_loop (kind p) (rd p) grow start (drop (unat n) b') (w1, buf @ take (unat n) b')
      | Err e \<Rightarrow>
          if kind p e = Interrupted then read_to_end_loop (kind p) (rd p) grow start b' (w1, buf)
          else Some (Err e, (w1, buf))
      | Panic \<Rightarrow> Some (Panic, (w1, buf)))"
    by (subst read_to_end_loop.simps) (simp only: spare Let_def, simp add: run split: outcome.split)
  show ?case
  proof (cases r)
    case (Ok n)
    show ?thesis
    proof (cases "n = 0")
      case True
      with Ok step loop show ?thesis
        by (simp add: reads_from_def read_all_def)
    next
      case False
      with Ok step have n: "unat n \<le> length b'" "0 < unat n" "unat n \<le> length (content p w)"
        and got: "take (unat n) b' = take (unat n) (content p w)" "content p w1 = drop (unat n) (content p w)"
        and same: "pending p w1 \<le> pending p w" "length b' = length sp"
        by (simp_all add: reads_from_def unat_gt_0)
      from n same(1) got(2) have "pending p w1 + length (content p w1) < pending p w + length (content p w)"
        by simp
      from less(1) [OF this, of "drop (unat n) b'" "buf @ take (unat n) b'"] same(2) sp(2) False Ok n loop
      obtain q s' where "read_to_end_loop (kind p) (rd p) grow start spare (w, buf) = Some (q, s')"
        and "read_all (content p) start (w1, buf @ take (unat n) b') q s'"
        by (auto simp: less_imp_diff_less)
      then show ?thesis
        by (auto intro: read_all_step simp: got)
    qed
  next
    case (Err e)
    show ?thesis
    proof (cases "kind p e = Interrupted")
      case True
      with Err step have "pending p w1 + length (content p w1) < pending p w + length (content p w)"
        and same: "content p w1 = content p w" "length b' = length sp"
        by (simp_all add: reads_from_def)
      from less(1) [OF this(1), of b' buf] same sp(2) True Err loop show ?thesis
        by (auto simp: read_all_def)
    next
      case False
      with Err step loop show ?thesis
        by (simp add: reads_from_def read_all_def)
    qed
  next
    case Panic
    with step show ?thesis
      by (simp add: reads_from_def)
  qed
qed

lemma reads_to_end:
  assumes "ok p" and "\<And>n. 0 < grow n \<and> grow n < 2 ^ 63"
  shows "\<exists>r w' got. std_read_to_end (kind p) (rd p) grow (w, buf) = Some (r, (w', buf @ got)) \<and> r \<noteq> Panic
    \<and> content p w = got @ content p w' \<and> (\<forall>k. r = Ok k \<longrightarrow> content p w' = [] \<and> k = of_nat (length got))"
proof -
  obtain r w' buf' where run: "std_read_to_end (kind p) (rd p) grow (w, buf) = Some (r, (w', buf'))"
    and "read_all (content p) (length buf) (w, buf) r (w', buf')"
    using read_loop_total [where spare = "[]" and start = "length buf" and w = w and buf = buf
        and grow = grow, OF assms]
    by (auto simp: std_read_to_end_def)
  then obtain got where got: "buf' = buf @ got" "content p w = got @ content p w'"
    and r: "case r of Ok k \<Rightarrow> content p w' = [] \<and> k = of_nat (length buf' - length buf) | Err e \<Rightarrow> True
      | Panic \<Rightarrow> False"
    unfolding read_all_def fst_conv snd_conv by blast
  from r got(1) have "r \<noteq> Panic \<and> (\<forall>k. r = Ok k \<longrightarrow> content p w' = [] \<and> k = of_nat (length got))"
    by (cases r) simp_all
  with run got show ?thesis
    by blast
qed

end

section \<open>Writing everything\<close>

text \<open>
  \<open>write_all\<close>: write what is left until nothing is, trying again when interrupted; a write of no
  bytes is an error. A count beyond the slice would make the next slice panic.
\<close>

definition write_zero :: io_error where
  "write_zero = Custom WriteZero ''failed to write whole buffer''"

partial_function (option) write_all ::
    "(io_error \<Rightarrow> error_kind) \<Rightarrow> (u8 list \<Rightarrow> ('s, usize) io) \<Rightarrow> u8 list \<Rightarrow> ('s, unit) io" where
  "write_all kind wr buf s =
     (if buf = [] then Some (Ok (), s)
      else case wr buf s of
             None \<Rightarrow> None
           | Some (r, s1) \<Rightarrow>
               (case r of
                  Ok n \<Rightarrow>
                    if n = 0 then Some (Err write_zero, s1)
                    else if length buf < unat n then Some (Panic, s1)
                    else write_all kind wr (drop (unat n) buf) s1
                | Err e \<Rightarrow>
                    if kind e = Interrupted then write_all kind wr buf s1 else Some (Err e, s1)
                | Panic \<Rightarrow> Some (Panic, s1)))"

declare write_all.simps [code]

text \<open>
  One write to a sink that has taken the bytes \<open>sent\<close> so far: it takes a part of the buffer from
  its start; a failing write takes nothing, and only finitely many in a row are interrupted.
\<close>

definition writes_to ::
    "(io_error \<Rightarrow> error_kind) \<Rightarrow> ('s \<Rightarrow> u8 list) \<Rightarrow> ('s \<Rightarrow> nat) \<Rightarrow> u8 list \<Rightarrow> 's \<Rightarrow> usize outcome \<Rightarrow> 's \<Rightarrow> bool" where
  "writes_to kind sent pending b s r s' \<longleftrightarrow> pending s' \<le> pending s
   \<and> (case r of
        Ok k \<Rightarrow> unat k \<le> length b \<and> sent s' = sent s @ take (unat k) b
      | Err e \<Rightarrow> sent s' = sent s \<and> (kind e = Interrupted \<longrightarrow> pending s' < pending s)
      | Panic \<Rightarrow> False)"

locale byte_sink =
  fixes kind :: "'p \<Rightarrow> io_error \<Rightarrow> error_kind"
    and wr :: "'p \<Rightarrow> u8 list \<Rightarrow> ('s, usize) io"
    and ok :: "'p \<Rightarrow> bool"
    and sent :: "'p \<Rightarrow> 's \<Rightarrow> u8 list"
    and pending :: "'p \<Rightarrow> 's \<Rightarrow> nat"
  assumes writes: "ok p \<Longrightarrow> b \<noteq> [] \<Longrightarrow> length b < 2 ^ 63 \<Longrightarrow>
    \<exists>r s'. wr p b s = Some (r, s') \<and> writes_to (kind p) (sent p) (pending p) b s r s'"
begin

lemma writes_all:
  assumes "ok p" and "length buf < 2 ^ 63"
  shows "\<exists>r s' put. write_all (kind p) (wr p) buf s = Some (r, s') \<and> r \<noteq> Panic
    \<and> sent p s' = sent p s @ take put buf \<and> put \<le> length buf \<and> (r = Ok () \<longrightarrow> put = length buf)"
  using assms(2)
proof (induction "pending p s + length buf" arbitrary: s buf rule: less_induct)
  case less
  show ?case
  proof (cases "buf = []")
    case True
    then show ?thesis
      by (subst write_all.simps) simp
  next
    case False
    obtain r s1 where run: "wr p buf s = Some (r, s1)"
      and step: "writes_to (kind p) (sent p) (pending p) buf s r s1"
      using writes [OF assms(1) False less(2)] by blast
    show ?thesis
    proof (cases r)
      case (Ok n)
      show ?thesis
      proof (cases "n = 0")
        case True
        with Ok step run False show ?thesis
          by (subst write_all.simps) (auto simp: writes_to_def intro!: exI [of _ 0])
      next
        case nz: False
        with Ok step have n: "unat n \<le> length buf" "0 < unat n" and s1: "sent p s1 = sent p s @ take (unat n) buf"
          and "pending p s1 \<le> pending p s"
          by (simp_all add: writes_to_def unat_gt_0)
        then have "pending p s1 + length (drop (unat n) buf) < pending p s + length buf"
          by simp
        from less(1) [OF this] less(2) obtain q s' put where
          "write_all (kind p) (wr p) (drop (unat n) buf) s1 = Some (q, s')" "q \<noteq> Panic"
          "sent p s' = sent p s1 @ take put (drop (unat n) buf)" "put \<le> length (drop (unat n) buf)"
          "q = Ok () \<longrightarrow> put = length (drop (unat n) buf)"
          by (auto simp: less_imp_diff_less)
        moreover from this(1) n nz Ok run False have "write_all (kind p) (wr p) buf s = Some (q, s')"
          by (subst write_all.simps) simp
        ultimately show ?thesis
          using n by (intro exI [of _ q] exI [of _ s'] exI [of _ "unat n + put"]) (auto simp: s1 take_add)
      qed
    next
      case (Err e)
      show ?thesis
      proof (cases "kind p e = Interrupted")
        case True
        with Err step have "pending p s1 + length buf < pending p s + length buf" and "sent p s1 = sent p s"
          by (simp_all add: writes_to_def)
        with less(1) [OF this(1) less(2)] True Err run False show ?thesis
          by (subst write_all.simps) simp
      next
        case nint: False
        with Err step run False show ?thesis
          by (subst write_all.simps) (auto simp: writes_to_def intro!: exI [of _ 0])
      qed
    next
      case Panic
      with step show ?thesis
        by (simp add: writes_to_def)
    qed
  qed
qed

end

end
