(* ===== verification/Unix_Read.thy ===== *)
theory Unix_Read
  imports Unix_Fd Std_Io
begin

text \<open>
  \<open>FileDesc::read_to_end\<close> of \<open>src/sys/unix/fd.rs\<close>. The function hands over to the method of
  the trait \<open>Read\<close> in the standard library, whose loop is in \<open>Std_Io\<close>; the descriptor is a source
  of bytes for it.
\<close>

section \<open>The operation\<close>

definition fd_read_to_end ::
    "'w libc \<Rightarrow> target \<Rightarrow> (nat \<Rightarrow> nat) \<Rightarrow> file_desc \<Rightarrow> ('w \<times> u8 list, usize) io" where
  "fd_read_to_end lc tgt grow self = std_read_to_end (kind_of lc) (fd_ref_read lc tgt self) grow"

section \<open>What is read\<close>

text \<open>
  \<open>read(2)\<close> and \<open>recv(2)\<close> on a descriptor with \<open>content\<close> still to come, as the call \<open>c\<close>: it gives a
  part of the content from its start, nothing only at the end or if nothing was asked for; a
  failing call takes nothing, and only finitely many in a row are interrupted (\<open>pending\<close>).
\<close>

definition reads_content ::
    "'w libc \<Rightarrow> (u8 list \<Rightarrow> usize \<Rightarrow> ('w, ssize_t \<times> u8 list) call) \<Rightarrow> ('w \<Rightarrow> u8 list) \<Rightarrow> ('w \<Rightarrow> nat) \<Rightarrow> bool" where
  "reads_content lc c content pending \<longleftrightarrow> (\<forall>b n w. unat n \<le> length b \<longrightarrow>
    (let ((r, b'), w') = c b n w
     in length b' = length b \<and> pending w' \<le> pending w
      \<and> (if r = - 1
         then content w' = content w \<and> (kind_of lc (last_os_error lc w') = Interrupted \<longrightarrow> pending w' < pending w)
         else unat r \<le> unat n \<and> unat r \<le> length (content w)
           \<and> take (unat r) b' = take (unat r) (content w) \<and> content w' = drop (unat r) (content w)
           \<and> (r = 0 \<longrightarrow> n = 0 \<or> content w = []))))"

lemma reads_content_step:
  assumes "reads_content lc c content pending" and "unat n \<le> length b" and "n \<noteq> 0"
    and "c b n w = ((r, b'), w')"
  shows "reads_from (kind_of lc) content pending w b (if r = - 1 then Err (last_os_error lc w') else Ok r) w' b'"
  using assms(1) [unfolded reads_content_def, rule_format, OF assms(2), of w] assms(2-4)
  by (auto simp: reads_from_def Let_def split: if_splits)

lemma fd_read_run:
  "fd_read lc tgt self (w, b) =
     (let c = c_read lc (raw_fd self) b (min (buf_len b) (max_len tgt)) w
      in Some (if fst (fst c) = - 1 then Err (last_os_error lc (snd c)) else Ok (ucast (fst (fst c))),
               (snd c, snd (fst c))))"
  by (simp add: fd_read_def io_defs cvt_def is_minus_one_def le_local_def Let_def)

lemma chunk_asked:
  assumes "sp \<noteq> []" and "length sp < 2 ^ 63"
  shows "min (buf_len sp) (max_len tgt) \<noteq> 0" and "unat (min (buf_len sp) (max_len tgt)) \<le> length sp"
proof -
  have u: "unat (buf_len sp) = length sp"
    unfolding buf_len_def using assms(2) by (intro unat_of_nat_small) simp
  with assms(1) have "buf_len sp \<noteq> 0"
    by (metis length_0_conv unsigned_0)
  then show "min (buf_len sp) (max_len tgt) \<noteq> 0"
    by (simp add: min_def max_len_def)
  have "unat (min (buf_len sp) (max_len tgt)) \<le> unat (buf_len sp)"
    by (simp add: min_def word_le_nat_alt)
  with u show "unat (min (buf_len sp) (max_len tgt)) \<le> length sp"
    by simp
qed

lemma fd_read_source:
  assumes "reads_content lc (c_read lc (raw_fd self)) content pending" and "b \<noteq> []" and "length b < 2 ^ 63"
  shows "\<exists>r w' b'. fd_read lc tgt self (w, b) = Some (r, (w', b'))
    \<and> reads_from (kind_of lc) content pending w b r w' b'"
proof -
  define n where "n = min (buf_len b) (max_len tgt)"
  obtain r b' w' where c: "c_read lc (raw_fd self) b n w = ((r, b'), w')"
    by (metis surj_pair)
  have n: "n \<noteq> 0" "unat n \<le> length b"
    unfolding n_def by (rule chunk_asked [OF assms(2,3)])+
  from reads_content_step [OF assms(1) n(2,1) c] show ?thesis
    by (auto simp: fd_read_run c Let_def simp flip: n_def)
qed

interpretation fd_source: byte_source
  "\<lambda>(lc, tgt, self, content, pending). kind_of lc" "\<lambda>(lc, tgt, self, content, pending). fd_read lc tgt self"
  "\<lambda>(lc, tgt, self, content, pending). reads_content lc (c_read lc (raw_fd self)) content pending"
  "\<lambda>(lc, tgt, self, content, pending). content" "\<lambda>(lc, tgt, self, content, pending). pending"
  by unfold_locales (auto intro: fd_read_source)

text \<open>
  C13. Reading to the end, in a world where reads are interrupted finitely often: the call
  returns and does not panic; whatever its result, the vector has grown by exactly the bytes
  taken from the descriptor, in their order, so an error loses nothing; and on success
  nothing is left to read and the result is the number of bytes appended.
\<close>

theorem read_to_end_spec:
  assumes "reads_content lc (c_read lc (raw_fd self)) content pending"
    and "\<And>n. 0 < grow n \<and> grow n < 2 ^ 63"
  shows "\<exists>r w' got. fd_read_to_end lc tgt grow self (w, buf) = Some (r, (w', buf @ got)) \<and> r \<noteq> Panic
    \<and> content w = got @ content w' \<and> (\<forall>k. r = Ok k \<longrightarrow> content w' = [] \<and> k = of_nat (length got))"
  using fd_source.reads_to_end [of "(lc, tgt, self, content, pending)" grow w buf] assms
  by (simp add: fd_read_to_end_def)

text \<open>A descriptor that gives at most four bytes at a time.\<close>

definition short_reads :: "sim libc" where
  "short_reads = sim_libc\<lparr>c_read := (\<lambda>fd b n. sim_fails (- 1, b) (\<lambda>w.
     let d = take (min 4 (min (unat n) (length b))) (s_inbox w)
     in ((of_nat (length d), d @ drop (length d) b), w\<lparr>s_inbox := drop (length d) (s_inbox w)\<rparr>)))\<rparr>"

lemma short_count:
  fixes k :: nat
  assumes "k \<le> 4"
  shows "unat (of_nat k :: ssize_t) = k" and "of_nat k \<noteq> (- 1 :: ssize_t)"
proof -
  show u: "unat (of_nat k :: ssize_t) = k"
    using assms by (intro unat_of_nat_small) simp
  show "of_nat k \<noteq> (- 1 :: ssize_t)"
  proof
    assume "of_nat k = (- 1 :: ssize_t)"
    with u unat_minus_one_max [where 'a = 64] assms show False
      by simp
  qed
qed

lemma short_reads_content: "reads_content short_reads (c_read short_reads fd) s_inbox (\<lambda>w. length (s_script w))"
  unfolding reads_content_def
proof (intro allI impI)
  fix b :: "u8 list" and n :: usize and w :: sim
  assume n: "unat n \<le> length b"
  define d where "d = take (min 4 (min (unat n) (length b))) (s_inbox w)"
  have d: "length d \<le> 4" "length d \<le> unat n" "length d \<le> length b" "length d \<le> length (s_inbox w)"
    and got: "take (length d) (s_inbox w) = d"
    by (auto simp: d_def min_def)
  have empty: "of_nat (length d) = (0 :: ssize_t) \<Longrightarrow> n = 0 \<or> s_inbox w = []"
    using n short_count(1) [OF d(1)] by (auto simp: d_def min_def unat_eq_0 split: if_splits)
  consider (read) es where "c_read short_reads fd b n w = ((of_nat (length d), d @ drop (length d) b),
        w\<lparr>s_script := es, s_inbox := drop (length d) (s_inbox w)\<rparr>)" "length es \<le> length (s_script w)"
    | (failed) es e where "c_read short_reads fd b n w = ((- 1, b), w\<lparr>s_script := es, s_errno := e\<rparr>)"
        "length es < length (s_script w)"
  proof (cases "s_script w")
    case Nil
    then have "c_read short_reads fd b n w = ((of_nat (length d), d @ drop (length d) b),
        w\<lparr>s_script := s_script w, s_inbox := drop (length d) (s_inbox w)\<rparr>)"
      by (simp add: short_reads_def sim_fails_def Let_def d_def)
    then show thesis
      by (rule read(1)) simp
  next
    case (Cons e es)
    show thesis
    proof (cases "e = 0")
      case True
      with Cons have "c_read short_reads fd b n w = ((of_nat (length d), d @ drop (length d) b),
          w\<lparr>s_script := es, s_inbox := drop (length d) (s_inbox w)\<rparr>)"
        by (simp add: short_reads_def sim_fails_def Let_def d_def)
      then show thesis
        by (rule read(1)) (simp add: Cons)
    next
      case False
      with Cons have "c_read short_reads fd b n w = ((- 1, b), w\<lparr>s_script := es, s_errno := e\<rparr>)"
        by (simp add: short_reads_def sim_fails_def)
      then show thesis
        by (rule failed(1)) (simp add: Cons)
    qed
  qed
  then show "let ((r, b'), w') = c_read short_reads fd b n w
     in length b' = length b \<and> length (s_script w') \<le> length (s_script w)
      \<and> (if r = - 1
         then s_inbox w' = s_inbox w
           \<and> (kind_of short_reads (last_os_error short_reads w') = Interrupted \<longrightarrow>
                length (s_script w') < length (s_script w))
         else unat r \<le> unat n \<and> unat r \<le> length (s_inbox w) \<and> take (unat r) b' = take (unat r) (s_inbox w)
           \<and> s_inbox w' = drop (unat r) (s_inbox w) \<and> (r = 0 \<longrightarrow> n = 0 \<or> s_inbox w = []))"
  proof cases
    case (read es)
    then show ?thesis
      using d got empty short_count [OF d(1)] by (simp add: Let_def del: of_nat_eq_0_iff)
  next
    case (failed es e)
    then show ?thesis
      by (simp add: Let_def)
  qed
qed

theorem read_to_end_spec_witness:
  "\<exists>r w' got. fd_read_to_end short_reads linux_target (\<lambda>_. 32) (FileDesc 3)
       (sim_init\<lparr>s_inbox := [1, 2, 3, 4, 5, 6], s_script := [4, 0]\<rparr>, [9]) = Some (r, (w', [9] @ got))
    \<and> r \<noteq> Panic \<and> [1, 2, 3, 4, 5, 6] = got @ s_inbox w' \<and> (\<forall>k. r = Ok k \<longrightarrow> s_inbox w' = [] \<and> k = of_nat (length got))"
  using read_to_end_spec [OF short_reads_content, of "\<lambda>_. 32" linux_target "FileDesc 3"
      "sim_init\<lparr>s_inbox := [1, 2, 3, 4, 5, 6], s_script := [4, 0]\<rparr>" "[9]"]
  by simp

end
