(* ===== verification/Stream_Io.thy ===== *)
theory Stream_Io
  imports Bt_Api Unix_Read
begin

text \<open>
  \<open>BtStream\<close> as a \<open>Read\<close> and a \<open>Write\<close> of the standard library (the two implementations in
  \<open>src/bt/mod.rs\<close>): on both backends they keep the contracts of \<open>Std_Io\<close>, so that the derived
  methods \<open>read_to_end\<close> and \<open>write_all\<close> lose, repeat and reorder nothing.
\<close>

lemma chunk_len:
  assumes "b \<noteq> []" and "length b < 2 ^ 63"
  shows "unat (buf_len b) = length b" and "buf_len b \<noteq> 0"
proof -
  show u: "unat (buf_len b) = length b"
    unfolding buf_len_def using assms(2) by (intro unat_of_nat_small) simp
  with assms(1) show "buf_len b \<noteq> 0"
    by (metis length_0_conv unsigned_0)
qed

section \<open>Unix\<close>

abbreviation stream_fd :: "unix_socket bt_stream \<Rightarrow> c_int" where
  "stream_fd c \<equiv> sock_raw (s_inner (stream_inner c))"

text \<open>\<open>send(2)\<close>, as the call \<open>c\<close>: it takes a part of the buffer from its start.\<close>

definition takes_data ::
    "'w libc \<Rightarrow> (u8 list \<Rightarrow> usize \<Rightarrow> ('w, ssize_t) call) \<Rightarrow> ('w \<Rightarrow> u8 list) \<Rightarrow> ('w \<Rightarrow> nat) \<Rightarrow> bool" where
  "takes_data lc c sent pending \<longleftrightarrow> (\<forall>b n w. unat n \<le> length b \<longrightarrow>
    (let (r, w') = c b n w
     in pending w' \<le> pending w
      \<and> (if r = - 1
         then sent w' = sent w \<and> (kind_of lc (last_os_error lc w') = Interrupted \<longrightarrow> pending w' < pending w)
         else unat r \<le> unat n \<and> sent w' = sent w @ take (unat r) b)))"

lemma unix_read_read_run:
  "read_read (unix_backend lc tgt) c (s, b) =
     (let r = c_recv lc (stream_fd c) b (buf_len b) 0 (fst s)
      in Some (if fst (fst r) = - 1 then Err (last_os_error lc (snd r)) else Ok (fst (fst r)),
               ((snd r, snd s), snd (fst r))))"
  by (simp add: read_read_def sys_recv_def unix_backend_def with_static_def sock_read_def
      sock_recv_with_flags_def io_defs cvt_def is_minus_one_def Let_def)

lemma unix_write_write_run:
  "write_write (unix_backend lc tgt) c b s =
     (let r = c_send lc (stream_fd c) b (buf_len b) (msg_nosignal lc tgt) (fst s)
      in Some (if fst r = - 1 then Err (last_os_error lc (snd r)) else Ok (fst r), (snd r, snd s)))"
proof -
  have "wr_len (unix_backend lc tgt) b = buf_len b"
    by (simp add: wr_len_def unix_backend_def unix_btc_def min_def)
  then show ?thesis
    by (simp add: write_write_def sys_send_def unix_backend_def unix_btc_def sock_as_inner_def
        cvt_call_def io_defs cvt_def is_minus_one_def Let_def)
qed

interpretation unix_stream_source: byte_source
  "\<lambda>(lc, tgt, c, content, pending). kind_of lc"
  "\<lambda>(lc, tgt, c, content, pending). read_read (unix_backend lc tgt) c"
  "\<lambda>(lc, tgt, c, content, pending). reads_content lc (\<lambda>b n. c_recv lc (stream_fd c) b n 0) content pending"
  "\<lambda>(lc, tgt, c, content, pending) s. content (fst s)"
  "\<lambda>(lc, tgt, c, content, pending) s. pending (fst s)"
proof (unfold_locales, unfold split_paired_all prod.case fst_conv)
  fix lc :: "'a libc" and tgt c content pending and b :: "u8 list" and w :: 'a and st :: bool
  assume ok: "reads_content lc (\<lambda>b n. c_recv lc (stream_fd c) b n 0) content pending"
    and b: "b \<noteq> []" "length b < 2 ^ 63"
  obtain r b' w' where call: "c_recv lc (stream_fd c) b (buf_len b) 0 w = ((r, b'), w')"
    by (metis surj_pair)
  from reads_content_step [OF ok _ chunk_len(2) [OF b] call] chunk_len(1) [OF b]
  show "\<exists>r w' b'. read_read (unix_backend lc tgt) c ((w, st), b) = Some (r, (w', b'))
      \<and> reads_from (kind_of lc) (\<lambda>s. content (fst s)) (\<lambda>s. pending (fst s)) (w, st) b r w' b'"
    by (auto simp: unix_read_read_run call reads_from_def Let_def split: if_splits)
qed

interpretation unix_stream_sink: byte_sink
  "\<lambda>(lc, tgt, c, sent, pending). kind_of lc"
  "\<lambda>(lc, tgt, c, sent, pending). write_write (unix_backend lc tgt) c"
  "\<lambda>(lc, tgt, c, sent, pending). takes_data lc (\<lambda>b n. c_send lc (stream_fd c) b n (msg_nosignal lc tgt)) sent pending"
  "\<lambda>(lc, tgt, c, sent, pending) s. sent (fst s)"
  "\<lambda>(lc, tgt, c, sent, pending) s. pending (fst s)"
proof (unfold_locales, unfold split_paired_all prod.case fst_conv)
  fix lc :: "'a libc" and tgt c sent pending and b :: "u8 list" and w :: 'a and st :: bool
  assume ok: "takes_data lc (\<lambda>b n. c_send lc (stream_fd c) b n (msg_nosignal lc tgt)) sent pending"
    and b: "b \<noteq> []" "length b < 2 ^ 63"
  obtain r w' where call: "c_send lc (stream_fd c) b (buf_len b) (msg_nosignal lc tgt) w = (r, w')"
    by (metis surj_pair)
  from ok [unfolded takes_data_def, rule_format, of "buf_len b" b w] chunk_len(1) [OF b]
  show "\<exists>r s'. write_write (unix_backend lc tgt) c b (w, st) = Some (r, s')
      \<and> writes_to (kind_of lc) (\<lambda>s. sent (fst s)) (\<lambda>s. pending (fst s)) b (w, st) r s'"
    by (auto simp: unix_write_write_run call writes_to_def Let_def split: if_splits)
qed

text \<open>
  C9. A stream on Unix under the derived methods of \<open>Read\<close> and \<open>Write\<close>, where calls are
  interrupted finitely often. Reading to the end returns without panic; the vector has grown by
  exactly the bytes taken from the connection, in their order, also when it fails, and on
  success nothing is left. Writing everything returns without panic; the connection has taken
  the start of the buffer, once and in order, and on success all of it.
\<close>

theorem unix_stream_io:
  assumes "reads_content lc (\<lambda>b n. c_recv lc (stream_fd c) b n 0) content pending"
    and "takes_data lc (\<lambda>b n. c_send lc (stream_fd c) b n (msg_nosignal lc tgt)) sent pending"
    and "\<And>n. 0 < grow n \<and> grow n < 2 ^ 63" and "length data < 2 ^ 63"
  shows "(\<exists>r w' got. std_read_to_end (kind_of lc) (read_read (unix_backend lc tgt) c) grow ((w, st), buf)
        = Some (r, (w', buf @ got)) \<and> r \<noteq> Panic \<and> content w = got @ content (fst w')
      \<and> (\<forall>k. r = Ok k \<longrightarrow> content (fst w') = [] \<and> k = of_nat (length got)))
    \<and> (\<exists>r w' put. write_all (kind_of lc) (write_write (unix_backend lc tgt) c) data (w, st) = Some (r, w')
      \<and> r \<noteq> Panic \<and> sent (fst w') = sent w @ take put data \<and> put \<le> length data
      \<and> (r = Ok () \<longrightarrow> put = length data))"
  using unix_stream_source.reads_to_end [of "(lc, tgt, c, content, pending)" grow "(w, st)" buf]
    unix_stream_sink.writes_all [of "(lc, tgt, c, sent, pending)" data "(w, st)"] assms
  by simp

text \<open>A kernel that receives and sends at most four bytes at a time.\<close>

definition short_io :: "sim libc" where
  "short_io = short_reads
     \<lparr>c_recv := (\<lambda>fd b n fl. c_read short_reads fd b n),
      c_send := (\<lambda>fd b n fl. sim_fails (- 1) (\<lambda>w.
        let k = min 4 (min (unat n) (length b)) in (of_nat k, w\<lparr>s_sent := take k b # s_sent w\<rparr>)))\<rparr>"

lemma short_io_errors: "last_os_error short_io = last_os_error short_reads" "K short_io = K short_reads"
  by (simp_all add: short_io_def last_os_error_def fun_eq_iff)

lemma short_io_reads:
  "reads_content short_io (\<lambda>b n. c_recv short_io fd b n fl) s_inbox (\<lambda>w. length (s_script w))"
proof -
  have "(\<lambda>b n. c_recv short_io fd b n fl) = c_read short_reads fd"
    by (simp add: short_io_def)
  moreover have "reads_content short_io = reads_content short_reads"
    by (intro ext) (simp only: reads_content_def short_io_errors)
  ultimately show ?thesis
    by (simp only: short_reads_content)
qed

lemma short_io_takes:
  "takes_data short_io (\<lambda>b n. c_send short_io fd b n fl) (\<lambda>w. concat (rev (s_sent w))) (\<lambda>w. length (s_script w))"
proof -
  have "unat (of_nat (min 4 k) :: ssize_t) = min 4 k" and "of_nat (min 4 k) \<noteq> (- 1 :: ssize_t)" for k :: nat
    by (rule short_count, simp)+
  then show ?thesis
    by (auto simp: takes_data_def short_io_def sim_fails_def Let_def split: list.split)
qed

theorem unix_stream_io_witness:
  "\<exists>r w' put. write_all (kind_of short_io) (write_write (unix_backend short_io linux_target)
        (BtStream \<lparr>s_inner = Socket (FileDesc 3), s_protocol = RFCOMM\<rparr>)) [1, 2, 3, 4, 5, 6]
        (sim_init\<lparr>s_script := [4, 0]\<rparr>, True) = Some (r, w')
      \<and> r \<noteq> Panic \<and> concat (rev (s_sent (fst w'))) = take put [1, 2, 3, 4, 5, 6] \<and> put \<le> length [1 :: u8, 2, 3, 4, 5, 6]
      \<and> (r = Ok () \<longrightarrow> put = length [1 :: u8, 2, 3, 4, 5, 6])"
  using unix_stream_io [where c = "BtStream \<lparr>s_inner = Socket (FileDesc 3), s_protocol = RFCOMM\<rparr>" and grow = "\<lambda>_. 32"
        and data = "[1, 2, 3, 4, 5, 6]" and tgt = linux_target and w = "sim_init\<lparr>s_script := [4, 0]\<rparr>"
        and st = True and buf = "[]", OF short_io_reads short_io_takes, THEN conjunct2]
  by (simp add: sim_init_def)

section \<open>Windows\<close>

abbreviation stream_socket :: "win_socket bt_stream \<Rightarrow> win_socket_handle" where
  "stream_socket c \<equiv> win_raw (s_inner (stream_inner c))"

text \<open>
  \<open>recv\<close> and \<open>send\<close> of Winsock: as on Unix, with an \<open>int\<close> for the counts, and \<open>WSAESHUTDOWN\<close> when
  nothing more can be received.
\<close>

definition win_reads_content ::
    "'w winapi \<Rightarrow> win_socket_handle \<Rightarrow> ('w \<Rightarrow> u8 list) \<Rightarrow> ('w \<Rightarrow> nat) \<Rightarrow> bool" where
  "win_reads_content wa h content pending \<longleftrightarrow> (\<forall>b n w. 0 \<le> sint n \<and> unat n \<le> length b \<longrightarrow>
    (let ((r, b'), w') = w_recv wa h b n 0 w
     in length b' = length b \<and> pending w' \<le> pending w
      \<and> (if r = - 1
         then content w' = content w \<and> (wsa_error wa w' = WSAESHUTDOWN (KW wa) \<longrightarrow> content w = [])
           \<and> (win_kind wa (last_error wa w') = Interrupted \<longrightarrow> pending w' < pending w)
         else 0 \<le> sint r \<and> sint r \<le> sint n \<and> unat r \<le> length (content w)
           \<and> take (unat r) b' = take (unat r) (content w) \<and> content w' = drop (unat r) (content w)
           \<and> (r = 0 \<longrightarrow> n = 0 \<or> content w = []))))"

definition win_takes_data ::
    "'w winapi \<Rightarrow> win_socket_handle \<Rightarrow> ('w \<Rightarrow> u8 list) \<Rightarrow> ('w \<Rightarrow> nat) \<Rightarrow> bool" where
  "win_takes_data wa h sent pending \<longleftrightarrow> (\<forall>b n w. 0 \<le> sint n \<and> unat n \<le> length b \<longrightarrow>
    (let (r, w') = w_send wa h b n 0 w
     in pending w' \<le> pending w
      \<and> (if r = - 1
         then sent w' = sent w \<and> (win_kind wa (last_error wa w') = Interrupted \<longrightarrow> pending w' < pending w)
         else 0 \<le> sint r \<and> sint r \<le> sint n \<and> sent w' = sent w @ take (unat r) b)))"

lemma win_read_read_run:
  "read_read (win_backend wa) c (s, b) =
     (let r = w_recv wa (stream_socket c) b (win_len b) 0 (fst s)
      in Some (if fst (fst r) = - 1
               then if wsa_error wa (snd r) = WSAESHUTDOWN (KW wa) then Ok 0 else Err (last_error wa (snd r))
               else Ok (scast (fst (fst r))),
               ((snd r, snd s), snd (fst r))))"
  by (simp add: read_read_def sys_recv_def win_backend_def with_static_def win_read_def
      win_recv_with_flags_def io_defs out_call_def Let_def)

lemma win_write_write_run:
  "write_write (win_backend wa) c b s =
     (let r = w_send wa (stream_socket c) b (win_len b) 0 (fst s)
      in Some (if fst r = - 1 then Err (last_error wa (snd r)) else Ok (scast (fst r)), (snd r, snd s)))"
  by (simp add: write_write_def sys_send_def win_backend_def win_btc_def win_as_inner_def wr_len_def win_len_def
      io_defs win_cvt_def win_is_minus_one_def Let_def)

lemma win_chunk:
  assumes "b \<noteq> []" and "length b < 2 ^ 63"
  shows "0 \<le> sint (win_len b)" and "unat (win_len b) \<le> length b" and "win_len b \<noteq> 0"
proof -
  have u: "unat (win_len b) = min (length b) (2 ^ 31 - 1)"
    using assms(2) by (intro unat_win_len) simp
  then show "unat (win_len b) \<le> length b" and "win_len b \<noteq> 0"
    using assms(1) by (auto simp: unat_eq_0 [symmetric] min_def)
  from u show "0 \<le> sint (win_len b)"
    by (simp add: sint_small)
qed

text \<open>A count that is not negative, as an \<open>int\<close> and as the \<open>usize\<close> it is cast to.\<close>

lemma win_nat_sint: "0 \<le> sint x \<Longrightarrow> nat (sint x) = unat x" for x :: c_int
proof -
  assume "0 \<le> sint x"
  moreover have "sint x < 2 ^ 31"
    using sint_lt [of x] by simp
  ultimately have "uint x = sint x"
    by (simp add: uint_sint take_bit_int_eq_self)
  then show ?thesis
    by (simp flip: nat_uint_eq)
qed

lemma win_count:
  fixes r n :: c_int
  assumes "0 \<le> sint r" and "sint r \<le> sint n" and "0 \<le> sint n"
  shows "unat (scast r :: usize) = unat r" and "unat r \<le> unat n" and "(scast r :: usize) = 0 \<longleftrightarrow> r = 0"
proof -
  note nat = win_nat_sint
  then show u: "unat (scast r :: usize) = unat r"
    using assms(1) by (simp only: unat_scast_pos)
  show "unat r \<le> unat n"
    using nat_mono [OF assms(2)] by (simp only: nat [OF assms(1)] nat [OF assms(3)])
  show "(scast r :: usize) = 0 \<longleftrightarrow> r = 0"
    using u by (metis unat_eq_0)
qed

interpretation win_stream_source: byte_source
  "\<lambda>(wa, c, content, pending). win_kind wa"
  "\<lambda>(wa, c, content, pending). read_read (win_backend wa) c"
  "\<lambda>(wa, c, content, pending). win_reads_content wa (stream_socket c) content pending"
  "\<lambda>(wa, c, content, pending) s. content (fst s)"
  "\<lambda>(wa, c, content, pending) s. pending (fst s)"
proof (unfold_locales, unfold split_paired_all prod.case fst_conv)
  fix wa :: "'a winapi" and c content pending and b :: "u8 list" and w :: 'a and st :: bool
  assume ok: "win_reads_content wa (stream_socket c) content pending"
    and b: "b \<noteq> []" "length b < 2 ^ 63"
  obtain r b' w' where call: "w_recv wa (stream_socket c) b (win_len b) 0 w = ((r, b'), w')"
    by (metis surj_pair)
  note chunk = win_chunk [OF b]
  from ok [unfolded win_reads_content_def, rule_format, of "win_len b" b w] chunk
    win_count [of r "win_len b"]
  show "\<exists>r w' b'. read_read (win_backend wa) c ((w, st), b) = Some (r, (w', b'))
      \<and> reads_from (win_kind wa) (\<lambda>s. content (fst s)) (\<lambda>s. pending (fst s)) (w, st) b r w' b'"
    by (auto simp: win_read_read_run call reads_from_def Let_def split: if_splits)
qed

interpretation win_stream_sink: byte_sink
  "\<lambda>(wa, c, sent, pending). win_kind wa"
  "\<lambda>(wa, c, sent, pending). write_write (win_backend wa) c"
  "\<lambda>(wa, c, sent, pending). win_takes_data wa (stream_socket c) sent pending"
  "\<lambda>(wa, c, sent, pending) s. sent (fst s)"
  "\<lambda>(wa, c, sent, pending) s. pending (fst s)"
proof (unfold_locales, unfold split_paired_all prod.case fst_conv)
  fix wa :: "'a winapi" and c sent pending and b :: "u8 list" and w :: 'a and st :: bool
  assume ok: "win_takes_data wa (stream_socket c) sent pending"
    and b: "b \<noteq> []" "length b < 2 ^ 63"
  obtain r w' where call: "w_send wa (stream_socket c) b (win_len b) 0 w = (r, w')"
    by (metis surj_pair)
  note chunk = win_chunk [OF b]
  from ok [unfolded win_takes_data_def, rule_format, of "win_len b" b w] chunk
    win_count [of r "win_len b"]
  show "\<exists>r s'. write_write (win_backend wa) c b (w, st) = Some (r, s')
      \<and> writes_to (win_kind wa) (\<lambda>s. sent (fst s)) (\<lambda>s. pending (fst s)) b (w, st) r s'"
    by (auto simp: win_write_write_run call writes_to_def Let_def split: if_splits)
qed


text \<open>A Winsock that never fails to receive.\<close>

definition plain_api :: "wsim winapi" where
  "plain_api = x_api\<lparr>w_recv := (\<lambda>s b n fl w.
     let d = take (unat n) (x_inbox w) in
     ((of_nat (length d), d @ drop (length d) b), w\<lparr>x_inbox := drop (length d) (x_inbox w)\<rparr>))\<rparr>"

lemma plain_reads: "win_reads_content plain_api h x_inbox (\<lambda>_. 0)"
  unfolding win_reads_content_def
proof (intro allI impI, elim conjE)
  fix b :: "u8 list" and n :: c_int and w :: wsim
  assume n: "0 \<le> sint n" "unat n \<le> length b"
  define d where "d = take (unat n) (x_inbox w)"
  have call: "w_recv plain_api h b n 0 w
      = ((of_nat (length d), d @ drop (length d) b), w\<lparr>x_inbox := drop (length d) (x_inbox w)\<rparr>)"
    by (simp add: plain_api_def d_def Let_def)
  have d: "length d \<le> unat n" "length d \<le> length (x_inbox w)" "take (length d) (x_inbox w) = d"
    by (auto simp: d_def min_def)
  have "unat n < 2 ^ 31"
    using n(1) win_nat_sint [OF n(1)] sint_lt [of n] by simp
  with d(1) have small: "length d < 2 ^ 31"
    by simp
  then have u: "unat (of_nat (length d) :: c_int) = length d"
    by (intro unat_of_nat_small) simp
  then have s: "sint (of_nat (length d) :: c_int) = int (length d)"
    using small by (simp add: sint_small del: of_nat_unat)
  have "sint n = int (unat n)"
    using \<open>unat n < 2 ^ 31\<close> by (rule sint_small)
  moreover have "of_nat (length d) \<noteq> (- 1 :: c_int)"
  proof
    assume "of_nat (length d) = (- 1 :: c_int)"
    with s show False by simp
  qed
  moreover have "of_nat (length d) = (0 :: c_int) \<longrightarrow> n = 0 \<or> x_inbox w = []"
    using u d_def by (auto simp: unat_eq_0 min_def split: if_splits)
  ultimately show "let ((r, b'), w') = w_recv plain_api h b n 0 w
     in length b' = length b \<and> 0 \<le> (0 :: nat)
      \<and> (if r = - 1
         then x_inbox w' = x_inbox w \<and> (wsa_error plain_api w' = WSAESHUTDOWN (KW plain_api) \<longrightarrow> x_inbox w = [])
           \<and> (win_kind plain_api (last_error plain_api w') = Interrupted \<longrightarrow> (0 :: nat) < 0)
         else 0 \<le> sint r \<and> sint r \<le> sint n \<and> unat r \<le> length (x_inbox w)
           \<and> take (unat r) b' = take (unat r) (x_inbox w) \<and> x_inbox w' = drop (unat r) (x_inbox w)
           \<and> (r = 0 \<longrightarrow> n = 0 \<or> x_inbox w = []))"
    unfolding call Let_def prod.case using d n(2) u s by (simp del: of_nat_eq_0_iff of_nat_unat)
qed

lemma plain_takes: "win_takes_data plain_api h (\<lambda>w. concat (rev (x_sent w))) (\<lambda>_. 0)"
  by (auto simp: win_takes_data_def plain_api_def x_api_def x_fails_def last_error_def Let_def split: list.split)


end
