(* ===== verification/Channel.thy ===== *)
theory Channel
  imports Stream_Io
begin

text \<open>
  The two ends of a connection. What one stream is given to write, the other reads: a state
  machine whose steps are single reads and writes (and whatever else the program does without
  touching the connection), in any order and with any result, and its invariant, on both
  backends.
\<close>

section \<open>Reading and writing in any order\<close>

text \<open>The world, the bytes the writer was told were taken, the bytes the reader has got.\<close>

record 's dialog =
  d_world :: 's
  d_said :: "u8 list"
  d_heard :: "u8 list"

definition counted :: "usize outcome \<Rightarrow> u8 list \<Rightarrow> u8 list" where
  "counted r b = (case r of Ok k \<Rightarrow> take (unat k) b | _ \<Rightarrow> [])"

definition chunk :: "u8 list \<Rightarrow> bool" where
  "chunk b \<longleftrightarrow> b \<noteq> [] \<and> length b < 2 ^ 63"

inductive dialog_step ::
    "('s \<Rightarrow> u8 list) \<Rightarrow> ('s \<times> u8 list, usize) io \<Rightarrow> (u8 list \<Rightarrow> ('s, usize) io) \<Rightarrow> 's dialog \<Rightarrow> 's dialog \<Rightarrow> bool"
  for content rd wr where
  say: "chunk b \<Longrightarrow> wr b (d_world d) = Some (r, s) \<Longrightarrow>
     dialog_step content rd wr d (d\<lparr>d_world := s, d_said := d_said d @ counted r b\<rparr>)"
| hear: "chunk b \<Longrightarrow> rd (d_world d, b) = Some (r, (s, b')) \<Longrightarrow>
     dialog_step content rd wr d (d\<lparr>d_world := s, d_heard := d_heard d @ counted r b'\<rparr>)"
| elsewhere: "content s = content (d_world d) \<Longrightarrow>
     dialog_step content rd wr d (d\<lparr>d_world := s\<rparr>)"

text \<open>
  A source and a sink that share their content, the bytes under way from one to the other.
\<close>

locale byte_channel =
  source: byte_source kind rd ok content pending + sink: byte_sink kind wr ok content pending
  for kind :: "'p \<Rightarrow> io_error \<Rightarrow> error_kind"
    and rd :: "'p \<Rightarrow> ('w \<times> u8 list, usize) io"
    and wr :: "'p \<Rightarrow> u8 list \<Rightarrow> ('w, usize) io"
    and ok :: "'p \<Rightarrow> bool"
    and content :: "'p \<Rightarrow> 'w \<Rightarrow> u8 list"
    and pending :: "'p \<Rightarrow> 'w \<Rightarrow> nat"
begin

lemma step_fifo:
  assumes "ok p" and "dialog_step (content p) (rd p) (wr p) d d'"
    and "u @ d_said d = d_heard d @ content p (d_world d)"
  shows "u @ d_said d' = d_heard d' @ content p (d_world d')"
  using assms(2)
proof cases
  case (say b r s)
  with sink.writes [OF assms(1), of b "d_world d"] assms(3) show ?thesis
    by (auto simp: chunk_def writes_to_def counted_def split: outcome.splits)
next
  case (hear b r s b')
  with source.reads [OF assms(1), of b "d_world d"] assms(3) show ?thesis
    by (auto simp: chunk_def reads_from_def counted_def split: outcome.splits)
next
  case (elsewhere s)
  with assms(3) show ?thesis by simp
qed

lemma fifo:
  assumes "ok p" and "(dialog_step (content p) (rd p) (wr p))\<^sup>*\<^sup>* \<lparr>d_world = s, d_said = [], d_heard = []\<rparr> d"
  shows "content p s @ d_said d = d_heard d @ content p (d_world d)"
  using assms(2)
proof (induction rule: rtranclp_induct)
  case base
  show ?case by simp
next
  case (step d d')
  from step_fifo [OF assms(1) step.hyps(2) step.IH] show ?case .
qed

text \<open>The reader is told the end only when it has everything.\<close>

lemma end_complete:
  assumes "ok p" and "(dialog_step (content p) (rd p) (wr p))\<^sup>*\<^sup>* \<lparr>d_world = s, d_said = [], d_heard = []\<rparr> d"
    and "chunk b" and "rd p (d_world d, b) = Some (Ok 0, s')"
  shows "d_heard d = content p s @ d_said d"
proof -
  have "content p (d_world d) = []"
    using source.reads [OF assms(1), of b "d_world d"] assms(3,4)
    by (auto simp: chunk_def reads_from_def)
  with fifo [OF assms(1,2)] show ?thesis by simp
qed

end

section \<open>The two backends\<close>

interpretation unix_channel: byte_channel
  "\<lambda>(lc, tgt, a, b, content, pending). kind_of lc"
  "\<lambda>(lc, tgt, a, b, content, pending). read_read (unix_backend lc tgt) b"
  "\<lambda>(lc, tgt, a, b, content, pending). write_write (unix_backend lc tgt) a"
  "\<lambda>(lc, tgt, a, b, content, pending).
     reads_content lc (\<lambda>buf n. c_recv lc (stream_fd b) buf n 0) content pending
   \<and> takes_data lc (\<lambda>buf n. c_send lc (stream_fd a) buf n (msg_nosignal lc tgt)) content pending"
  "\<lambda>(lc, tgt, a, b, content, pending) s. content (fst s)"
  "\<lambda>(lc, tgt, a, b, content, pending) s. pending (fst s)"
proof (unfold_locales, unfold split_paired_all prod.case)
  fix lc :: "'a libc" and tgt a b content pending and buf :: "u8 list" and w :: 'a and st :: bool
  assume ok: "reads_content lc (\<lambda>buf n. c_recv lc (stream_fd b) buf n 0) content pending
     \<and> takes_data lc (\<lambda>buf n. c_send lc (stream_fd a) buf n (msg_nosignal lc tgt)) content pending"
    and buf: "buf \<noteq> []" "length buf < 2 ^ 63"
  from unix_stream_source.reads [of "(lc, tgt, b, content, pending)" buf "(w, st)"] ok buf
  show "\<exists>r w' b'. read_read (unix_backend lc tgt) b ((w, st), buf) = Some (r, (w', b'))
      \<and> reads_from (kind_of lc) (\<lambda>s. content (fst s)) (\<lambda>s. pending (fst s)) (w, st) buf r w' b'"
    by simp
  from unix_stream_sink.writes [of "(lc, tgt, a, content, pending)" buf "(w, st)"] ok buf
  show "\<exists>r s'. write_write (unix_backend lc tgt) a buf (w, st) = Some (r, s')
      \<and> writes_to (kind_of lc) (\<lambda>s. content (fst s)) (\<lambda>s. pending (fst s)) buf (w, st) r s'"
    by simp
qed

interpretation win_channel: byte_channel
  "\<lambda>(wa, a, b, content, pending). win_kind wa"
  "\<lambda>(wa, a, b, content, pending). read_read (win_backend wa) b"
  "\<lambda>(wa, a, b, content, pending). write_write (win_backend wa) a"
  "\<lambda>(wa, a, b, content, pending).
     win_reads_content wa (stream_socket b) content pending \<and> win_takes_data wa (stream_socket a) content pending"
  "\<lambda>(wa, a, b, content, pending) s. content (fst s)"
  "\<lambda>(wa, a, b, content, pending) s. pending (fst s)"
proof (unfold_locales, unfold split_paired_all prod.case)
  fix wa :: "'a winapi" and a b content pending and buf :: "u8 list" and w :: 'a and st :: bool
  assume ok: "win_reads_content wa (stream_socket b) content pending
      \<and> win_takes_data wa (stream_socket a) content pending"
    and buf: "buf \<noteq> []" "length buf < 2 ^ 63"
  from win_stream_source.reads [of "(wa, b, content, pending)" buf "(w, st)"] ok buf
  show "\<exists>r w' b'. read_read (win_backend wa) b ((w, st), buf) = Some (r, (w', b'))
      \<and> reads_from (win_kind wa) (\<lambda>s. content (fst s)) (\<lambda>s. pending (fst s)) (w, st) buf r w' b'"
    by simp
  from win_stream_sink.writes [of "(wa, a, content, pending)" buf "(w, st)"] ok buf
  show "\<exists>r s'. write_write (win_backend wa) a buf (w, st) = Some (r, s')
      \<and> writes_to (win_kind wa) (\<lambda>s. content (fst s)) (\<lambda>s. pending (fst s)) buf (w, st) r s'"
    by simp
qed

text \<open>
  C17. What one end of a connection writes, the other reads, on both backends: in whatever order
  the two streams write and read, with partial transfers, errors and interruptions, the bytes the
  reader has got followed by those under way are the bytes that were under way at the start
  followed by those the writer was told were taken. Nothing is lost, repeated or reordered; and
  when the reader is told that the stream has ended, it has got all of them.
\<close>

theorem channel_fifo:
  assumes "reads_content lc (\<lambda>buf n. c_recv lc (stream_fd b) buf n 0) content pending"
    and "takes_data lc (\<lambda>buf n. c_send lc (stream_fd a) buf n (msg_nosignal lc tgt)) content pending"
    and "(dialog_step (\<lambda>s. content (fst s)) (read_read (unix_backend lc tgt) b)
      (write_write (unix_backend lc tgt) a))\<^sup>*\<^sup>* \<lparr>d_world = s, d_said = [], d_heard = []\<rparr> d"
    and "win_reads_content wa (stream_socket b') content' pending'"
    and "win_takes_data wa (stream_socket a') content' pending'"
    and "(dialog_step (\<lambda>s. content' (fst s)) (read_read (win_backend wa) b')
      (write_write (win_backend wa) a'))\<^sup>*\<^sup>* \<lparr>d_world = s', d_said = [], d_heard = []\<rparr> d'"
  shows "content (fst s) @ d_said d = d_heard d @ content (fst (d_world d))
    \<and> (\<forall>buf s1. chunk buf \<and> read_read (unix_backend lc tgt) b (d_world d, buf) = Some (Ok 0, s1) \<longrightarrow>
         d_heard d = content (fst s) @ d_said d)
    \<and> content' (fst s') @ d_said d' = d_heard d' @ content' (fst (d_world d'))
    \<and> (\<forall>buf s1. chunk buf \<and> read_read (win_backend wa) b' (d_world d', buf) = Some (Ok 0, s1) \<longrightarrow>
         d_heard d' = content' (fst s') @ d_said d')"
proof -
  note u = unix_channel.fifo [of "(lc, tgt, a, b, content, pending)" s d]
    unix_channel.end_complete [of "(lc, tgt, a, b, content, pending)" s d]
  note w = win_channel.fifo [of "(wa, a', b', content', pending')" s' d']
    win_channel.end_complete [of "(wa, a', b', content', pending')" s' d']
  show ?thesis
    using u w assms unfolding prod.case by blast
qed

section \<open>A connection of a process with itself\<close>

text \<open>What is sent arrives in the inbox, at most four bytes at a time on Unix.\<close>

definition loop_libc :: "sim libc" where
  "loop_libc = short_io\<lparr>c_send := (\<lambda>fd b n fl. sim_fails (- 1) (\<lambda>w.
     let k = min 4 (min (unat n) (length b)) in (of_nat k, w\<lparr>s_inbox := s_inbox w @ take k b\<rparr>)))\<rparr>"

definition loop_api :: "wsim winapi" where
  "loop_api = plain_api\<lparr>w_send := (\<lambda>s b n fl w. (n, w\<lparr>x_inbox := x_inbox w @ take (unat n) b\<rparr>))\<rparr>"

lemma loop_reads: "reads_content loop_libc (\<lambda>b n. c_recv loop_libc fd b n fl) s_inbox (\<lambda>w. length (s_script w))"
proof -
  have "(\<lambda>b n. c_recv loop_libc fd b n fl) = (\<lambda>b n. c_recv short_io fd b n fl)"
    and "last_os_error loop_libc = last_os_error short_io" and "K loop_libc = K short_io"
    by (simp_all add: loop_libc_def last_os_error_def fun_eq_iff)
  then have "reads_content loop_libc (\<lambda>b n. c_recv loop_libc fd b n fl)
      = reads_content short_io (\<lambda>b n. c_recv short_io fd b n fl)"
    by (intro ext) (simp only: reads_content_def)
  then show ?thesis
    using short_io_reads by simp
qed

lemma loop_takes:
  "takes_data loop_libc (\<lambda>b n. c_send loop_libc fd b n fl) s_inbox (\<lambda>w. length (s_script w))"
proof -
  have "unat (of_nat (min 4 k) :: ssize_t) = min 4 k" and "of_nat (min 4 k) \<noteq> (- 1 :: ssize_t)" for k :: nat
    by (rule short_count, simp)+
  then show ?thesis
    by (auto simp: takes_data_def loop_libc_def sim_fails_def Let_def split: list.split)
qed

lemma loop_win_reads: "win_reads_content loop_api h x_inbox (\<lambda>_. 0)"
proof -
  have "w_recv loop_api = w_recv plain_api" and "wsa_error loop_api = wsa_error plain_api"
    and "KW loop_api = KW plain_api" and "win_kind loop_api = win_kind plain_api"
    and "last_error loop_api = last_error plain_api"
    by (simp_all add: loop_api_def last_error_def fun_eq_iff)
  then have "win_reads_content loop_api = win_reads_content plain_api"
    by (intro ext) (simp only: win_reads_content_def)
  then show ?thesis
    using plain_reads by simp
qed

lemma loop_win_takes: "win_takes_data loop_api h x_inbox (\<lambda>_. 0)"
  by (auto simp: win_takes_data_def loop_api_def)

text \<open>Steps that say a list of bytes or hear into a buffer.\<close>

datatype act = Say "u8 list" | Hear "u8 list"

fun act_bytes :: "act \<Rightarrow> u8 list" where
  "act_bytes (Say b) = b"
| "act_bytes (Hear b) = b"

fun act_step :: "('s \<times> u8 list, usize) io \<Rightarrow> (u8 list \<Rightarrow> ('s, usize) io) \<Rightarrow> act \<Rightarrow> 's dialog \<Rightarrow> 's dialog" where
  "act_step rd wr (Say b) d =
     (case wr b (d_world d) of
        None \<Rightarrow> d
      | Some (r, s) \<Rightarrow> d\<lparr>d_world := s, d_said := d_said d @ counted r b\<rparr>)"
| "act_step rd wr (Hear b) d =
     (case rd (d_world d, b) of
        None \<Rightarrow> d
      | Some (r, (s, b')) \<Rightarrow> d\<lparr>d_world := s, d_heard := d_heard d @ counted r b'\<rparr>)"

lemma act_step_dialog: "chunk (act_bytes a) \<Longrightarrow> (dialog_step content rd wr)\<^sup>*\<^sup>* d (act_step rd wr a d)"
  by (cases a) (auto intro: dialog_step.intros split: option.split)

lemma acts_dialog:
  "\<forall>a \<in> set as. chunk (act_bytes a) \<Longrightarrow> (dialog_step content rd wr)\<^sup>*\<^sup>* d (fold (act_step rd wr) as d)"
  by (induction as arbitrary: d) (auto intro: rtranclp_trans act_step_dialog)

definition chat :: "act list" where
  "chat = [Say [1, 2, 3, 4, 5, 6], Hear [0, 0, 0], Say [5, 6], Hear [0, 0]]"

lemma chat_chunks: "\<forall>a \<in> set chat. chunk (act_bytes a)"
  by (simp add: chat_def chunk_def)

abbreviation unix_end :: "unix_socket bt_stream" where
  "unix_end \<equiv> BtStream \<lparr>s_inner = Socket (FileDesc 3), s_protocol = RFCOMM\<rparr>"

abbreviation win_end :: "win_socket bt_stream" where
  "win_end \<equiv> BtStream \<lparr>s_inner = Win_Socket 4, s_protocol = RFCOMM\<rparr>"

definition unix_chat :: "(sim \<times> bool) dialog" where
  "unix_chat = fold (act_step (read_read (unix_backend loop_libc linux_target) unix_end)
     (write_write (unix_backend loop_libc linux_target) unix_end)) chat
     \<lparr>d_world = (sim_init, True), d_said = [], d_heard = []\<rparr>"

definition win_chat :: "(wsim \<times> bool) dialog" where
  "win_chat = fold (act_step (read_read (win_backend loop_api) win_end)
     (write_write (win_backend loop_api) win_end)) chat
     \<lparr>d_world = (wsim_init, True), d_said = [], d_heard = []\<rparr>"

lemma unix_chat_heard: "d_heard unix_chat = [1, 2, 3, 4, 5]"
  by code_simp

lemma win_chat_said: "d_said win_chat = [1, 2, 3, 4, 5, 6, 5, 6]"
  by code_simp

theorem channel_fifo_witness:
  "d_said unix_chat = [1, 2, 3, 4, 5] @ s_inbox (fst (d_world unix_chat))
   \<and> [1, 2, 3, 4, 5, 6, 5, 6] = d_heard win_chat @ x_inbox (fst (d_world win_chat))"
proof -
  have u: "(dialog_step (\<lambda>s. s_inbox (fst s)) (read_read (unix_backend loop_libc linux_target) unix_end)
      (write_write (unix_backend loop_libc linux_target) unix_end))\<^sup>*\<^sup>*
      \<lparr>d_world = (sim_init, True), d_said = [], d_heard = []\<rparr> unix_chat"
    unfolding unix_chat_def by (rule acts_dialog [OF chat_chunks])
  have w: "(dialog_step (\<lambda>s. x_inbox (fst s)) (read_read (win_backend loop_api) win_end)
      (write_write (win_backend loop_api) win_end))\<^sup>*\<^sup>*
      \<lparr>d_world = (wsim_init, True), d_said = [], d_heard = []\<rparr> win_chat"
    unfolding win_chat_def by (rule acts_dialog [OF chat_chunks])
  have "s_inbox sim_init = []" and "x_inbox wsim_init = []"
    by (simp_all add: sim_init_def wsim_init_def)
  with channel_fifo [OF loop_reads loop_takes u loop_win_reads loop_win_takes w]
  show ?thesis
    by (simp add: unix_chat_heard win_chat_said)
qed

end
