(* ===== verification/Interleave.thy ===== *)
theory Interleave
  imports Unix_Kernel
begin

text \<open>
  Threads whose system calls interleave. A job is a program of single steps over the world and a
  static variable of type \<open>AtomicBool\<close>; \<open>rg\<close> is its contract towards the other threads (what it
  relies on and what it guarantees), \<open>pool_ok\<close> the invariant of all threads together, and
  \<open>within\<close> a bound on the steps. The locale \<open>thread_jobs\<close> is what a client provides.
\<close>

section \<open>Programs of single steps\<close>

text \<open>
  A program has finished, or goes on with a call, a load of the static or a store to it. A
  call and the reading of its error code are one step: the code belongs to the thread.
\<close>

datatype ('w, 'a) prog =
    Return "'a outcome"
  | Atomic "'w \<Rightarrow> ('w, 'a) prog \<times> 'w"
  | Load "bool \<Rightarrow> ('w, 'a) prog"
  | Store bool "('w, 'a) prog"

primrec p_match ::
    "('w, 'a) prog \<Rightarrow> ('a \<Rightarrow> ('w, 'b) prog) \<Rightarrow> (io_error \<Rightarrow> ('w, 'b) prog) \<Rightarrow> ('w, 'b) prog" where
  "p_match (Return r) k h = (case r of Ok a \<Rightarrow> k a | Err e \<Rightarrow> h e | Panic \<Rightarrow> Return Panic)"
| "p_match (Atomic f) k h = Atomic (\<lambda>w. map_prod (\<lambda>p. p_match p k h) id (f w))"
| "p_match (Load l) k h = Load (\<lambda>b. p_match (l b) k h)"
| "p_match (Store b p) k h = Store b (p_match p k h)"

definition p_bind :: "('w, 'a) prog \<Rightarrow> ('a \<Rightarrow> ('w, 'b) prog) \<Rightarrow> ('w, 'b) prog" where
  "p_bind p k = p_match p k (\<lambda>e. Return (Err e))"

primrec p_with_drop :: "('w \<Rightarrow> 'w) \<Rightarrow> ('w, 'a) prog \<Rightarrow> ('w, 'a) prog" where
  "p_with_drop d (Return r) =
     (case r of Ok a \<Rightarrow> Return (Ok a) | _ \<Rightarrow> Atomic (\<lambda>w. (Return r, d w)))"
| "p_with_drop d (Atomic f) = Atomic (\<lambda>w. map_prod (p_with_drop d) id (f w))"
| "p_with_drop d (Load l) = Load (\<lambda>b. p_with_drop d (l b))"
| "p_with_drop d (Store b p) = Store b (p_with_drop d p)"

definition p_cvt_call :: "'w libc \<Rightarrow> ('w, 'i::len word) call \<Rightarrow> ('w, 'i word) prog" where
  "p_cvt_call lc c = Atomic (\<lambda>w. let (t, w') = c w in
     (Return (if is_minus_one t then Err (last_os_error lc w') else Ok t), w'))"

text \<open>A program that runs alone, on the pair of the world and the static.\<close>

primrec run :: "('w, 'a) prog \<Rightarrow> ('w \<times> bool, 'a) io" where
  "run (Return r) = (\<lambda>s. Some (r, s))"
| "run (Atomic f) = (\<lambda>s. let q = map_prod run id (f (fst s)) in fst q (snd q, snd s))"
| "run (Load l) = (\<lambda>s. run (l (snd s)) s)"
| "run (Store b p) = (\<lambda>s. run p (fst s, b))"

section \<open>A program that runs alone\<close>

lemma prog_induct [case_names Return Atomic Load Store]:
  assumes "\<And>r. P (Return r)" and "\<And>f. (\<And>w. P (fst (f w))) \<Longrightarrow> P (Atomic f)"
    and "\<And>l. (\<And>b. P (l b)) \<Longrightarrow> P (Load l)" and "\<And>b p. P p \<Longrightarrow> P (Store b p)"
  shows "P p"
proof (induction p)
  case (Atomic f)
  then show ?case
    by (intro assms(2)) (metis fsts.intros rangeI)
qed (simp_all add: assms)

lemma run_match: "run (p_match p k h) = io_match (run p) (\<lambda>a. run (k a)) (\<lambda>e. run (h e))"
  by (induction p rule: prog_induct)
    (auto simp: io_match_def fun_eq_iff Let_def split: outcome.split)

lemma run_bind: "run (p_bind p k) = io_bind (run p) (\<lambda>a. run (k a))"
  by (simp add: p_bind_def run_match io_bind_def io_err_def [abs_def])

lemma run_with_drop:
  "run (p_with_drop d p) = with_drop (\<lambda>s. (d (fst s), snd s)) (run p)"
  by (induction p rule: prog_induct)
    (auto simp: with_drop_def fun_eq_iff Let_def split: outcome.split)

lemma run_cvt_call: "run (p_cvt_call lc c) = on_world (cvt_call lc c)"
  by (auto simp: p_cvt_call_def cvt_call_def cvt_def io_defs fun_eq_iff split: prod.split)

lemma on_world_bind: "on_world (io_bind m k) = io_bind (on_world m) (\<lambda>a. on_world (k a))"
  by (rule ext) (simp add: io_defs split: option.split prod.split outcome.split)

lemma on_world_ret: "on_world (io_ret a) = io_ret a"
  by (rule ext) (simp add: io_defs)

lemma on_world_with_drop:
  "on_world (with_drop d m) = with_drop (\<lambda>s. (d (fst s), snd s)) (on_world m)"
  by (rule ext) (simp add: io_defs split: option.split prod.split outcome.split)

lemmas on_world_simps = on_world_bind on_world_ret on_world_with_drop if_distrib [of on_world]

lemma run_return: "run (Return (Ok a)) = io_ret a" "run (Return (Err e)) = io_err e"
  by (simp_all add: io_ret_def io_err_def)

lemma run_static:
  "run (Load l) = io_bind (io_get snd) (\<lambda>b. run (l b))"
  "run (Store b p) = io_bind (io_modify (\<lambda>s. (fst s, b))) (\<lambda>_. run p)"
  by (simp_all add: io_defs fun_eq_iff)

lemmas run_simps = run_match run_bind run_with_drop run_cvt_call run_return run_static
  if_distrib [of run]

section \<open>A thread among others\<close>

text \<open>
  \<open>rg V S J p Q own ce\<close>: the program \<open>p\<close>, while its thread owns the open descriptors \<open>own\<close>
  and exactly those in \<open>ce\<close> of them are close-on-exec, leaves the descriptors it does not
  own open and their flag as it is, and ends with a result and a share that satisfy \<open>Q\<close>;
  wherever it waits for its next step, its share satisfies \<open>J\<close>. The other threads may change
  everything else between two steps. A load gives any of the values \<open>S\<close>, and no other is stored.
\<close>

definition others :: "'w kview \<Rightarrow> c_int set \<Rightarrow> 'w \<Rightarrow> c_int set" where
  "others V own w = opened V w - own"

definition untouched :: "'w kview \<Rightarrow> c_int set \<Rightarrow> 'w \<Rightarrow> 'w \<Rightarrow> bool" where
  "untouched V X w w' \<longleftrightarrow> X \<subseteq> opened V w' \<and> X \<inter> cloexec V w' = X \<inter> cloexec V w"

primrec rg :: "'w kview \<Rightarrow> bool set \<Rightarrow> (c_int set \<Rightarrow> c_int set \<Rightarrow> bool) \<Rightarrow> ('w, 'a) prog \<Rightarrow>
    ('a outcome \<Rightarrow> c_int set \<Rightarrow> c_int set \<Rightarrow> bool) \<Rightarrow> c_int set \<Rightarrow> c_int set \<Rightarrow> bool" where
  "rg V S J (Return r) = (\<lambda>Q own ce. Q r own ce)"
| "rg V S J (Atomic f) = (\<lambda>Q own ce. J own ce \<and> (\<forall>w. own \<subseteq> opened V w \<and> own \<inter> cloexec V w = ce \<longrightarrow>
     (let step = map_prod (rg V S J) id (f w); w' = snd step; own' = opened V w' - others V own w
      in untouched V (others V own w) w w' \<and> fst step Q own' (own' \<inter> cloexec V w'))))"
| "rg V S J (Load l) = (\<lambda>Q own ce. J own ce \<and> (\<forall>b \<in> S. rg V S J (l b) Q own ce))"
| "rg V S J (Store b p) = (\<lambda>Q own ce. J own ce \<and> b \<in> S \<and> rg V S J p Q own ce)"

lemma rg_mono:
  assumes "rg V S J p Q own ce" and "\<And>r own ce. Q r own ce \<Longrightarrow> R r own ce"
  shows "rg V S J p R own ce"
  using assms(1) by (induction p arbitrary: own ce rule: prog_induct) (auto simp: Let_def assms(2))

lemma rg_match:
  assumes "rg V S J p (\<lambda>r own ce. case r of Ok a \<Rightarrow> rg V S J (k a) Q own ce
      | Err e \<Rightarrow> rg V S J (h e) Q own ce | Panic \<Rightarrow> Q Panic own ce) own ce"
  shows "rg V S J (p_match p k h) Q own ce"
  using assms by (induction p arbitrary: own ce rule: prog_induct)
    (auto simp: Let_def split: outcome.splits)

lemma rg_bind:
  assumes "rg V S J p (\<lambda>r own ce. case r of Ok a \<Rightarrow> rg V S J (k a) Q own ce
      | Err e \<Rightarrow> Q (Err e) own ce | Panic \<Rightarrow> Q Panic own ce) own ce"
  shows "rg V S J (p_bind p k) Q own ce"
  unfolding p_bind_def by (rule rg_match) (use assms in \<open>simp cong: outcome.case_cong\<close>)

text \<open>
  \<open>passes V own w own' ce' w'\<close>: from \<open>w\<close> to \<open>w'\<close> the share \<open>own\<close> became \<open>own'\<close>, of
  which \<open>ce'\<close> is close-on-exec, and the rest stayed.
\<close>

definition passes ::
    "'w kview \<Rightarrow> c_int set \<Rightarrow> 'w \<Rightarrow> c_int set \<Rightarrow> c_int set \<Rightarrow> 'w \<Rightarrow> bool" where
  "passes V own w own' ce' w' \<longleftrightarrow>
     opened V w' = others V own w \<union> own' \<and> others V own w \<inter> own' = {}
   \<and> others V own w \<inter> cloexec V w' = others V own w \<inter> cloexec V w \<and> own' \<inter> cloexec V w' = ce'"

lemma rg_atomic:
  assumes J: "J own ce" and "\<And>w. own \<subseteq> opened V w \<Longrightarrow> own \<inter> cloexec V w = ce \<Longrightarrow>
    \<exists>own' ce'. passes V own w own' ce' (snd (f w)) \<and> rg V S J (fst (f w)) Q own' ce'"
  shows "rg V S J (Atomic f) Q own ce"
proof -
  have "untouched V (others V own w) w (snd (f w))
      \<and> rg V S J (fst (f w)) Q (opened V (snd (f w)) - others V own w)
          ((opened V (snd (f w)) - others V own w) \<inter> cloexec V (snd (f w)))"
    if w: "own \<subseteq> opened V w" "own \<inter> cloexec V w = ce" for w
  proof -
    from assms(2) [OF w] obtain own' ce' where p: "passes V own w own' ce' (snd (f w))"
      and r: "rg V S J (fst (f w)) Q own' ce'"
      by blast
    from p have "opened V (snd (f w)) - others V own w = own'"
      by (auto simp: passes_def)
    with p r show ?thesis
      by (auto simp: passes_def untouched_def)
  qed
  with J show ?thesis by (simp add: Let_def)
qed

lemma rg_cvt_call:
  assumes J: "J own ce" and "\<And>w. own \<subseteq> opened V w \<Longrightarrow> own \<inter> cloexec V w = ce \<Longrightarrow>
    \<exists>own' ce'. passes V own w own' ce' (snd (c w))
      \<and> Q (if fst (c w) = - 1 then Err (last_os_error lc (snd (c w))) else Ok (fst (c w))) own' ce'"
  shows "rg V S J (p_cvt_call lc c) Q own ce"
  unfolding p_cvt_call_def
  by (rule rg_atomic [where J = J, OF J]) (use assms(2) in \<open>simp add: Let_def case_prod_beta is_minus_one_def\<close>)

text \<open>
  The calls: duplication adds a descriptor to the share of the thread, the calls on a
  descriptor of its own change the flag of that one only, the drop takes it away.
\<close>

lemma rg_opens:
  assumes J: "J own ce" and "opens V ce' c id"
    and "\<And>w. fst (c w) = - 1 \<Longrightarrow> Q (Err (last_os_error lc (snd (c w)))) own ce"
    and "\<And>t. t \<notin> own \<Longrightarrow> Q (Ok t) (insert t own) (if ce' then insert t ce else ce)"
  shows "rg V S J (p_cvt_call lc c) Q own ce"
proof (rule rg_cvt_call [where J = J, OF J])
  fix w
  assume w: "own \<subseteq> opened V w" "own \<inter> cloexec V w = ce"
  have o: "opened_by V ce' (fst (c w)) w (snd (c w))"
    using assms(2) by (simp add: opens_def)
  show "\<exists>own' ce'. passes V own w own' ce' (snd (c w))
      \<and> Q (if fst (c w) = - 1 then Err (last_os_error lc (snd (c w))) else Ok (fst (c w))) own' ce'"
  proof (cases "fst (c w) = - 1")
    case True
    with o w assms(3) show ?thesis
      by (intro exI [of _ own] exI [of _ ce]) (auto simp: opened_by_def passes_def others_def)
  next
    case False
    let ?t = "fst (c w)"
    have n: "?t \<notin> opened V w" "opened V (snd (c w)) = insert ?t (opened V w)"
      "cloexec V (snd (c w)) = (if ce' then insert ?t (cloexec V w) else cloexec V w - {?t})"
      using o False by (simp_all add: opened_by_def)
    with w have t: "?t \<notin> own" by blast
    have "passes V own w (insert ?t own) (if ce' then insert ?t ce else ce) (snd (c w))"
      using n w unfolding passes_def others_def by (auto simp: t)
    with False assms(4) [OF t] show ?thesis by auto
  qed
qed

lemma rg_flags:
  assumes J: "J own ce" and "keeps (opened V) c" and "flags (cloexec V) True fd c" and "fd \<in> own"
    and "\<And>e. Q (Err e) own ce" and "\<And>t. Q (Ok t) own (insert fd ce)"
  shows "rg V S J (p_cvt_call lc c) Q own ce"
proof (rule rg_cvt_call [where J = J, OF J])
  fix w
  assume w: "own \<subseteq> opened V w" "own \<inter> cloexec V w = ce"
  show "\<exists>own' ce'. passes V own w own' ce' (snd (c w))
      \<and> Q (if fst (c w) = - 1 then Err (last_os_error lc (snd (c w))) else Ok (fst (c w))) own' ce'"
    using w assms(4-6) keeps_view [OF assms(2), of w] flags_view [OF assms(3), of w]
    by (intro exI [of _ own] exI [of _ "if fst (c w) = - 1 then ce else insert fd ce"])
      (auto simp: passes_def others_def)
qed

lemma rg_neutral:
  assumes J: "J own ce" and "neutral V c" and "\<And>e. Q (Err e) own ce"
    and "\<And>w. own \<inter> cloexec V w = ce \<Longrightarrow> fst (c w) \<noteq> - 1 \<Longrightarrow> Q (Ok (fst (c w))) own ce"
  shows "rg V S J (p_cvt_call lc c) Q own ce"
proof (rule rg_cvt_call [where J = J, OF J])
  fix w
  assume w: "own \<subseteq> opened V w" "own \<inter> cloexec V w = ce"
  show "\<exists>own' ce'. passes V own w own' ce' (snd (c w))
      \<and> Q (if fst (c w) = - 1 then Err (last_os_error lc (snd (c w))) else Ok (fst (c w))) own' ce'"
    using w assms(3,4) neutral_views [OF assms(2), of w]
    by (intro exI [of _ own] exI [of _ ce]) (auto simp: passes_def others_def)
qed

text \<open>A thread that waits keeps \<open>J\<close>, one that has finished has its postcondition.\<close>

lemma rg_now: "rg V S J p Q own ce \<Longrightarrow> J own ce \<or> (\<exists>r. p = Return r \<and> Q r own ce)"
  by (cases p) auto

section \<open>Threads that interleave\<close>

text \<open>
  The jobs of the threads, the world they share, and the values the static has had, the
  last one first. A load takes any of them, as a relaxed load may: each job loads at most
  once, so the coherence of one location asks for nothing more.
\<close>

record ('w, 'a) pool =
  jobs :: "('w, 'a) prog list"
  shared :: 'w
  static_values :: "bool list"

inductive pool_step :: "('w, 'a) pool \<Rightarrow> ('w, 'a) pool \<Rightarrow> bool" where
  call_step: "i < length (jobs c) \<Longrightarrow> jobs c ! i = Atomic f \<Longrightarrow>
     pool_step c (c\<lparr>jobs := (jobs c)[i := fst (f (shared c))], shared := snd (f (shared c))\<rparr>)"
| load_step: "i < length (jobs c) \<Longrightarrow> jobs c ! i = Load l \<Longrightarrow> b \<in> set (static_values c) \<Longrightarrow>
     pool_step c (c\<lparr>jobs := (jobs c)[i := l b]\<rparr>)"
| store_step: "i < length (jobs c) \<Longrightarrow> jobs c ! i = Store b p \<Longrightarrow>
     pool_step c (c\<lparr>jobs := (jobs c)[i := p], static_values := b # static_values c\<rparr>)"

text \<open>
  The invariant: there are shares, disjoint from each other and from the descriptors \<open>B\<close>
  open at the start, that make up the open descriptors, and each thread is safe with its
  share.
\<close>

definition pool_ok :: "'w kview \<Rightarrow> bool set \<Rightarrow> (c_int set \<Rightarrow> c_int set \<Rightarrow> bool) \<Rightarrow> ('a outcome \<Rightarrow> c_int set \<Rightarrow> c_int set \<Rightarrow> bool) \<Rightarrow>
    c_int set \<Rightarrow> c_int set \<Rightarrow> (nat \<Rightarrow> c_int set) \<Rightarrow> ('w, 'a) pool \<Rightarrow> bool" where
  "pool_ok V S J Q B C share c \<longleftrightarrow>
     (\<forall>i < length (jobs c). rg V S J (jobs c ! i) Q (share i) (share i \<inter> cloexec V (shared c)))
   \<and> opened V (shared c) = B \<union> (\<Union>i < length (jobs c). share i)
   \<and> (\<forall>i < length (jobs c). share i \<inter> B = {})
   \<and> (\<forall>i < length (jobs c). \<forall>j < length (jobs c). i \<noteq> j \<longrightarrow> share i \<inter> share j = {})
   \<and> B \<inter> cloexec V (shared c) = C
   \<and> set (static_values c) \<subseteq> S"

lemma pool_okD:
  assumes "pool_ok V S J Q B C share c"
  shows "i < length (jobs c) \<Longrightarrow> rg V S J (jobs c ! i) Q (share i) (share i \<inter> cloexec V (shared c))"
    and "opened V (shared c) = B \<union> (\<Union>i < length (jobs c). share i)"
    and "i < length (jobs c) \<Longrightarrow> share i \<inter> B = {}"
    and "i < length (jobs c) \<Longrightarrow> j < length (jobs c) \<Longrightarrow> i \<noteq> j \<Longrightarrow> share i \<inter> share j = {}"
    and "B \<inter> cloexec V (shared c) = C"
    and "set (static_values c) \<subseteq> S"
  using assms by (simp_all add: pool_ok_def)

lemma pool_ok_update:
  assumes ok: "pool_ok V S J Q B C share c" and i: "i < length (jobs c)"
    and p: "rg V S J p Q own (own \<inter> cloexec V w')"
    and u: "untouched V (others V (share i) (shared c)) (shared c) w'"
    and own: "own = opened V w' - others V (share i) (shared c)"
    and h: "set h \<subseteq> S"
  shows "pool_ok V S J Q B C (share(i := own))
     \<lparr>jobs = (jobs c)[i := p], shared = w', static_values = h\<rparr>"
proof -
  let ?n = "length (jobs c)" and ?O = "others V (share i) (shared c)"
  have mine: "share j \<subseteq> ?O" if "j < ?n" "j \<noteq> i" for j
    using that i pool_okD(2,4) [OF ok] by (auto simp: others_def)
  have base: "B \<subseteq> ?O"
    using i pool_okD(2,3) [OF ok] by (auto simp: others_def)
  have flags: "X \<inter> cloexec V w' = X \<inter> cloexec V (shared c)" if "X \<subseteq> ?O" for X
    using u that by (auto simp: untouched_def)
  have rest: "?O = B \<union> (\<Union>j \<in> {..< ?n} - {i}. share j)"
    using i mine base pool_okD(2) [OF ok] by (auto simp: others_def)
  have "opened V w' = ?O \<union> own"
    using u by (auto simp: own untouched_def)
  also have "\<dots> = B \<union> (\<Union>j < ?n. (share(i := own)) j)"
    unfolding rest using i by auto
  finally have total: "opened V w' = B \<union> (\<Union>j < ?n. (share(i := own)) j)" .
  have apart: "own \<inter> X = {}" if "X \<subseteq> ?O" for X
    using that by (auto simp: own)
  show ?thesis
    unfolding pool_ok_def
  proof (intro conjI allI impI ballI)
    fix j
    assume "j < length (jobs \<lparr>jobs = (jobs c)[i := p], shared = w', static_values = h\<rparr>)"
    then have j: "j < ?n" by simp
    show "rg V S J (jobs \<lparr>jobs = (jobs c)[i := p], shared = w', static_values = h\<rparr> ! j) Q
        ((share(i := own)) j) ((share(i := own)) j \<inter> cloexec V
          (shared \<lparr>jobs = (jobs c)[i := p], shared = w', static_values = h\<rparr>))"
      using p pool_okD(1) [OF ok j] flags [OF mine [OF j]] i j by (cases "j = i") simp_all
    show "(share(i := own)) j \<inter> B = {}"
      using apart [OF base] pool_okD(3) [OF ok j] by simp
    fix k
    assume "k < length (jobs \<lparr>jobs = (jobs c)[i := p], shared = w', static_values = h\<rparr>)"
      and "j \<noteq> k"
    then show "(share(i := own)) j \<inter> (share(i := own)) k = {}"
      using apart [OF mine] pool_okD(4) [OF ok] j by (auto simp: Int_commute)
  qed (use total flags [OF base] pool_okD(5) [OF ok] h in \<open>auto\<close>)
qed

lemma pool_updates:
  "c\<lparr>jobs := js, shared := w\<rparr> = \<lparr>jobs = js, shared = w, static_values = static_values c\<rparr>"
  "c\<lparr>jobs := js\<rparr> = \<lparr>jobs = js, shared = shared c, static_values = static_values c\<rparr>"
  "c\<lparr>jobs := js, static_values := h\<rparr> = \<lparr>jobs = js, shared = shared c, static_values = h\<rparr>"
  by simp_all

lemma pool_ok_step:
  assumes "pool_step c c'" and ok: "pool_ok V S J Q B C share c"
  shows "\<exists>share'. pool_ok V S J Q B C share' c'"
proof -
  have still: "untouched V X w w" if "X \<subseteq> opened V w" for X w
    using that by (simp add: untouched_def)
  have keep: "share i = opened V (shared c) - others V (share i) (shared c)"
    if "i < length (jobs c)" for i
    using that pool_okD(2) [OF ok] by (auto simp: others_def)
  have rest: "others V X w \<subseteq> opened V w" for X w
    by (auto simp: others_def)
  show ?thesis
    using assms(1)
  proof (cases rule: pool_step.cases)
    case (call_step i f)
    let ?own = "opened V (snd (f (shared c))) - others V (share i) (shared c)"
    have "share i \<subseteq> opened V (shared c)"
      using call_step(2) pool_okD(2) [OF ok] by auto
    with pool_okD(1) [OF ok call_step(2)]
    have "rg V S J (fst (f (shared c))) Q ?own (?own \<inter> cloexec V (snd (f (shared c))))"
      and "untouched V (others V (share i) (shared c)) (shared c) (snd (f (shared c)))"
      by (simp_all add: call_step(3) Let_def)
    from pool_ok_update [OF ok call_step(2) this refl pool_okD(6) [OF ok]] show ?thesis
      by (auto simp: call_step(1) pool_updates(1) simp del: pool.simps)
  next
    case (load_step i l b)
    have "rg V S J (l b) Q (share i) (share i \<inter> cloexec V (shared c))"
      using pool_okD(1) [OF ok load_step(2)] pool_okD(6) [OF ok] load_step(3,4) by auto
    from pool_ok_update [OF ok load_step(2) this still [OF rest] keep [OF load_step(2)]
      pool_okD(6) [OF ok]]
    show ?thesis by (auto simp: load_step(1) pool_updates(2) simp del: pool.simps)
  next
    case (store_step i b p)
    have "rg V S J p Q (share i) (share i \<inter> cloexec V (shared c))" and "b \<in> S"
      using pool_okD(1) [OF ok store_step(2)] by (simp_all add: store_step(3))
    from pool_ok_update [OF ok store_step(2) this(1) still [OF rest] keep [OF store_step(2)],
      of "b # static_values c"] this(2) pool_okD(6) [OF ok]
    show ?thesis by (auto simp: store_step(1) pool_updates(3) simp del: pool.simps)
  qed
qed

lemma pool_ok_reaches:
  assumes "pool_step\<^sup>*\<^sup>* c c'" and "pool_ok V S J Q B C share c"
  shows "\<exists>share'. pool_ok V S J Q B C share' c'"
  using assms by (induction arbitrary: share rule: converse_rtranclp_induct) (blast dest: pool_ok_step)+

text \<open>
  What a job that starts with the share \<open>own\<close>, \<open>ce\<close> may end with, when its results hold the
  descriptor \<open>raw\<close>: one descriptor more, close-on-exec, or the share as it was; no panic.
\<close>

definition obtained ::
    "('a \<Rightarrow> c_int) \<Rightarrow> c_int set \<Rightarrow> c_int set \<Rightarrow> 'a outcome \<Rightarrow> c_int set \<Rightarrow> c_int set \<Rightarrow> bool" where
  "obtained raw own ce r own' ce' \<longleftrightarrow>
     (case r of
        Ok a \<Rightarrow> raw a \<notin> own \<and> own' = insert (raw a) own \<and> ce' = insert (raw a) ce
      | Err e \<Rightarrow> own' = own \<and> ce' = ce
      | Panic \<Rightarrow> False)"

lemma pool_obtained:
  assumes ok: "pool_ok V S J (obtained raw {} {}) (opened V w) (opened V w \<inter> cloexec V w) share c"
  shows "(\<forall>i < length (jobs c). \<forall>f. jobs c ! i = Return (Ok f) \<longrightarrow>
       raw f \<in> opened V (shared c) - opened V w \<and> raw f \<in> cloexec V (shared c)
     \<and> (\<forall>j < length (jobs c). \<forall>g. j \<noteq> i \<and> jobs c ! j = Return (Ok g) \<longrightarrow> raw g \<noteq> raw f))
   \<and> Return Panic \<notin> set (jobs c)
   \<and> opened V w \<subseteq> opened V (shared c)
   \<and> opened V w \<inter> cloexec V (shared c) = opened V w \<inter> cloexec V w
   \<and> ((\<forall>p \<in> set (jobs c). \<exists>r. p = Return r) \<longrightarrow>
       opened V (shared c) = opened V w \<union> {raw f | f. Return (Ok f) \<in> set (jobs c)})"
proof -
  have fin: "obtained raw {} {} r (share i) (share i \<inter> cloexec V (shared c))"
    if "i < length (jobs c)" and "jobs c ! i = Return r" for i r
    using pool_okD(1) [OF ok that(1)] that(2) by simp
  have held: "share i = {raw f}" "raw f \<in> cloexec V (shared c)"
    if "i < length (jobs c)" and "jobs c ! i = Return (Ok f)" for i f
    using fin [OF that] by (auto simp: obtained_def)
  have "Return Panic \<notin> set (jobs c)"
    using fin [of _ Panic] by (auto simp: in_set_conv_nth obtained_def)
  moreover
  have "raw f \<in> opened V (shared c) - opened V w" "raw f \<in> cloexec V (shared c)"
    if "i < length (jobs c)" and "jobs c ! i = Return (Ok f)" for i f
    using held [OF that] pool_okD(2,3) [OF ok] that(1) by auto
  moreover
  have "raw g \<noteq> raw f" if "i < length (jobs c)" "jobs c ! i = Return (Ok f)"
    "j < length (jobs c)" "jobs c ! j = Return (Ok g)" "j \<noteq> i" for i f j g
    using held [OF that(1,2)] held [OF that(3,4)] pool_okD(4) [OF ok that(1,3)] that(5) by auto
  moreover
  have "opened V (shared c) = opened V w \<union> {raw f | f. Return (Ok f) \<in> set (jobs c)}"
    if all: "\<forall>p \<in> set (jobs c). \<exists>r. p = Return r"
  proof -
    have "share i = {raw f | f. jobs c ! i = Return (Ok f)}" if i: "i < length (jobs c)" for i
    proof -
      from all i obtain r where r: "jobs c ! i = Return r" by (meson nth_mem)
      with fin [OF i r] show ?thesis
        by (cases r) (auto simp: obtained_def)
    qed
    then have "(\<Union>i < length (jobs c). share i) = {raw f | f. Return (Ok f) \<in> set (jobs c)}"
      by (auto simp: in_set_conv_nth)
    with pool_okD(2) [OF ok] show ?thesis by simp
  qed
  moreover have "opened V w \<subseteq> opened V (shared c)"
    using pool_okD(2) [OF ok] by simp
  ultimately show ?thesis
    using pool_okD(5,6) [OF ok] by auto
qed

text \<open>Where the descriptors of waiting threads are all close-on-exec, so are those of all threads.\<close>

lemma pool_no_window:
  assumes ok: "pool_ok V S (\<subseteq>) (obtained raw {} {}) (opened V w) (opened V w \<inter> cloexec V w) share c"
  shows "opened V (shared c) - cloexec V (shared c) = opened V w - cloexec V w"
proof -
  have "share i \<subseteq> cloexec V (shared c)" if "i < length (jobs c)" for i
    using rg_now [OF pool_okD(1) [OF ok that]]
  proof (elim disjE exE conjE)
    fix r
    assume "obtained raw {} {} r (share i) (share i \<inter> cloexec V (shared c))"
    then show ?thesis
      by (cases r) (auto simp: obtained_def)
  qed blast
  then have "(\<Union>i < length (jobs c). share i) \<subseteq> cloexec V (shared c)"
    by blast
  with pool_okD(2,5) [OF ok] show ?thesis
    by auto
qed

text \<open>
  What a client of this theory shows of the jobs of its threads, for every value \<open>p\<close> of the
  parameters of the program that satisfies \<open>ok\<close>: each is safe from the empty share on.
\<close>

locale thread_jobs =
  fixes ok :: "'p \<Rightarrow> bool"
    and view :: "'p \<Rightarrow> 'w kview"
    and loads :: "'p \<Rightarrow> bool set"
    and waiting :: "'p \<Rightarrow> c_int set \<Rightarrow> c_int set \<Rightarrow> bool"
    and post :: "'p \<Rightarrow> 'a outcome \<Rightarrow> c_int set \<Rightarrow> c_int set \<Rightarrow> bool"
    and job :: "'p \<Rightarrow> 'x \<Rightarrow> ('w, 'a) prog"
    and initial :: "'p \<Rightarrow> bool"
  assumes safe: "ok p \<Longrightarrow> rg (view p) (loads p) (waiting p) (job p x) (post p) {} {}"
    and initial: "ok p \<Longrightarrow> initial p \<in> loads p"
begin

lemma shares:
  assumes "ok p"
    and "pool_step\<^sup>*\<^sup>* \<lparr>jobs = map (job p) xs, shared = w, static_values = [initial p]\<rparr> c"
  shows "\<exists>share. pool_ok (view p) (loads p) (waiting p) (post p) (opened (view p) w)
     (opened (view p) w \<inter> cloexec (view p) w) share c"
proof (rule pool_ok_reaches [OF assms(2)])
  show "pool_ok (view p) (loads p) (waiting p) (post p) (opened (view p) w)
     (opened (view p) w \<inter> cloexec (view p) w) (\<lambda>_. {})
     \<lparr>jobs = map (job p) xs, shared = w, static_values = [initial p]\<rparr>"
    using safe [OF assms(1)] initial [OF assms(1)] by (simp add: pool_ok_def)
qed

end

section \<open>Schedules\<close>

text \<open>
  One step of thread \<open>i\<close>, if it has one; the load takes the value that is \<open>k\<close> stores old.
\<close>

definition schedule :: "nat \<times> nat \<Rightarrow> ('w, 'a) pool \<Rightarrow> ('w, 'a) pool" where
  "schedule ik c =
     (let (i, k) = ik in
      if i < length (jobs c)
      then (case jobs c ! i of
          Return r \<Rightarrow> c
        | Atomic f \<Rightarrow>
            (let (p, w) = f (shared c) in c\<lparr>jobs := (jobs c)[i := p], shared := w\<rparr>)
        | Load l \<Rightarrow>
            if k < length (static_values c)
            then c\<lparr>jobs := (jobs c)[i := l (static_values c ! k)]\<rparr> else c
        | Store b p \<Rightarrow>
            c\<lparr>jobs := (jobs c)[i := p], static_values := b # static_values c\<rparr>)
      else c)"

lemma schedule_steps: "pool_step\<^sup>*\<^sup>* c (schedule ik c)"
  by (auto simp: schedule_def Let_def case_prod_beta intro: pool_step.intros
      split: prog.split intro!: r_into_rtranclp)

lemma schedules_steps: "pool_step\<^sup>*\<^sup>* c (fold schedule iks c)"
  by (induction iks arbitrary: c) (auto intro: rtranclp_trans schedule_steps)

section \<open>Every schedule ends\<close>

text \<open>The program takes at most \<open>n\<close> steps, whatever the calls and the load give.\<close>

primrec within :: "('w, 'a) prog \<Rightarrow> nat \<Rightarrow> bool" where
  "within (Return r) = (\<lambda>n. True)"
| "within (Atomic f) = (\<lambda>n. 0 < n \<and> (\<forall>w. fst (map_prod within id (f w)) (n - 1)))"
| "within (Load l) = (\<lambda>n. 0 < n \<and> (\<forall>b. within (l b) (n - 1)))"
| "within (Store b p) = (\<lambda>n. 0 < n \<and> within p (n - 1))"

lemma within_mono: "within p m \<Longrightarrow> m \<le> n \<Longrightarrow> within p n"
  by (induction p arbitrary: m n rule: prog_induct) (auto, (metis diff_le_mono)+)

lemma within_match:
  assumes "within p m" and "\<And>a. within (k a) n" and "\<And>e. within (h e) n"
  shows "within (p_match p k h) (m + n)"
  using assms(1)
proof (induction p arbitrary: m rule: prog_induct)
  case (Return r)
  then show ?case
    using assms(2,3) by (auto split: outcome.split intro: within_mono [OF _ le_add2])
next
  case (Atomic f)
  then show ?case by (fastforce dest: spec)
next
  case (Load l)
  then show ?case by fastforce
next
  case (Store b p)
  then show ?case by fastforce
qed

lemma within_bind:
  "within p m \<Longrightarrow> (\<And>a. within (k a) n) \<Longrightarrow> within (p_bind p k) (m + n)"
  unfolding p_bind_def by (rule within_match) simp_all

lemma within_with_drop: "within p m \<Longrightarrow> within (p_with_drop d p) (Suc m)"
proof (induction p arbitrary: m rule: prog_induct)
  case (Return r)
  then show ?case by (cases r) simp_all
next
  case (Atomic f)
  then show ?case by (fastforce simp: gr0_conv_Suc)
next
  case (Load l)
  then show ?case by (fastforce simp: gr0_conv_Suc)
next
  case (Store b p)
  then show ?case by (fastforce simp: gr0_conv_Suc)
qed

lemma within_cvt_call: "within (p_cvt_call lc c) 1"
  by (simp add: p_cvt_call_def Let_def case_prod_beta)

lemma pool_step_within:
  assumes "pool_step c c'" and "list_all2 within (jobs c) ks"
  shows "\<exists>ks'. list_all2 within (jobs c') ks' \<and> sum_list ks' < sum_list ks"
proof -
  from assms(1) obtain i p where i: "i < length (jobs c)" and p: "jobs c' = (jobs c)[i := p]"
    and less: "\<And>k. within (jobs c ! i) k \<Longrightarrow> 0 < k \<and> within p (k - 1)"
  proof cases
    case (call_step i f)
    then show ?thesis by (intro that [of i "fst (f (shared c))"]) auto
  next
    case (load_step i l b)
    then show ?thesis by (intro that [of i "l b"]) auto
  next
    case (store_step i b p)
    then show ?thesis by (intro that [of i p]) auto
  qed
  from i assms(2) have k: "within (jobs c ! i) (ks ! i)" "i < length ks"
    by (auto simp: list_all2_conv_all_nth)
  with less have "0 < ks ! i" and "within p (ks ! i - 1)" by blast+
  moreover have "ks ! i \<le> sum_list ks"
    using k(2) by (simp add: member_le_sum_list)
  ultimately show ?thesis
    using k(2) assms(2) p
    by (intro exI [of _ "ks[i := ks ! i - 1]"])
      (auto simp: sum_list_update intro!: list_all2_update_cong)
qed

lemma pool_steps_within:
  "(pool_step ^^ m) c c' \<Longrightarrow> list_all2 within (jobs c) ks \<Longrightarrow>
     \<exists>ks'. list_all2 within (jobs c') ks' \<and> sum_list ks' + m \<le> sum_list ks"
proof (induction m arbitrary: c')
  case 0
  then show ?case by auto
next
  case (Suc m)
  then obtain d ks' where "pool_step d c'" and ks': "list_all2 within (jobs d) ks'"
    and le: "sum_list ks' + m \<le> sum_list ks"
    by (auto elim!: relpowp_Suc_E) blast
  from pool_step_within [OF this(1) ks'] le show ?case by force
qed

lemma pool_steps_static:
  "(pool_step ^^ m) c c' \<Longrightarrow> static_values c \<noteq> [] \<Longrightarrow>
     static_values c' \<noteq> [] \<and> length (jobs c') = length (jobs c)"
  by (induction m arbitrary: c') (force elim!: relpowp_Suc_E pool_step.cases)+

primrec prog_result :: "('w, 'a) prog \<Rightarrow> 'a outcome option" where
  "prog_result (Return r) = Some r"
| "prog_result (Atomic f) = None"
| "prog_result (Load l) = None"
| "prog_result (Store b p) = None"

lemma prog_result_Some: "prog_result p = Some r \<longleftrightarrow> p = Return r"
  by (cases p) auto

lemma pool_finishes:
  assumes "(pool_step ^^ m) \<lparr>jobs = ps, shared = w, static_values = [b]\<rparr> c"
    and "\<forall>p \<in> set ps. within p k"
  shows "m \<le> k * length ps \<and> length (jobs c) = length ps
    \<and> ((\<nexists>c'. pool_step c c') \<longrightarrow> (\<forall>p \<in> set (jobs c). \<exists>r. p = Return r))"
proof -
  let ?c = "\<lparr>jobs = ps, shared = w, static_values = [b]\<rparr>"
  have "list_all2 within (jobs ?c) (replicate (length ps) k)"
    using assms(2) by (simp add: list_all2_conv_all_nth)
  from pool_steps_within [OF assms(1) this] have "m \<le> k * length ps"
    by (auto simp: sum_list_replicate mult.commute)
  moreover have s: "static_values c \<noteq> []" "length (jobs c) = length ps"
    using pool_steps_static [OF assms(1)] by auto
  moreover have "\<exists>c'. pool_step c c'" if "p \<in> set (jobs c)" "\<nexists>r. p = Return r" for p
  proof -
    from that(1) obtain i where "i < length (jobs c)" "jobs c ! i = p"
      by (auto simp: in_set_conv_nth)
    with that(2) s(1) show ?thesis
      by (cases p) (auto intro: pool_step.intros [of i] last_in_set)
  qed
  ultimately show ?thesis by blast
qed

end
