(* ===== verification/Threads.thy ===== *)
theory Threads
  imports Unix_Fd Interleave
begin

text \<open>
  Duplication from several threads (\<open>FileDesc::duplicate\<close> in \<open>src/sys/unix/fd.rs\<close>). The
  function shares the static \<open>TRY_CLOEXEC\<close> with all threads, loaded and stored with relaxed
  ordering. Here it is written as a program whose single calls can be interleaved with those of
  other threads; \<open>p_duplicate_run\<close> shows that it is the duplication of \<open>Unix_Fd\<close> when
  it runs alone.
\<close>

section \<open>Duplication\<close>

definition p_set_cloexec :: "'w libc \<Rightarrow> target \<Rightarrow> file_desc \<Rightarrow> ('w, unit) prog" where
  "p_set_cloexec lc tgt self =
     (if \<not> cloexec_by_fcntl tgt
      then p_bind (p_cvt_call lc (c_ioctl lc (raw_fd self) (FIOCLEX (K lc)))) (\<lambda>_. Return (Ok ()))
      else p_bind (p_cvt_call lc (c_fcntl lc (raw_fd self) (F_GETFD (K lc)))) (\<lambda>previous.
        let new = previous OR FD_CLOEXEC (K lc) in
        if new \<noteq> previous
        then p_bind (p_cvt_call lc (c_fcntl_int lc (raw_fd self) (F_SETFD (K lc)) new))
               (\<lambda>_. Return (Ok ()))
        else Return (Ok ())))"

definition p_make_filedesc :: "'w libc \<Rightarrow> target \<Rightarrow> c_int \<Rightarrow> ('w, file_desc) prog" where
  "p_make_filedesc lc tgt fd =
     (let fd = fd_new fd in
      p_with_drop (fd_drop lc fd)
        (p_bind (p_set_cloexec lc tgt fd) (\<lambda>_. Return (Ok fd))))"

definition p_duplicate :: "'w libc \<Rightarrow> target \<Rightarrow> file_desc \<Rightarrow> ('w, file_desc) prog" where
  "p_duplicate lc tgt self =
     (let fd = fd_raw self;
          plain = p_bind (p_cvt_call lc (c_fcntl_int lc fd (F_DUPFD (K lc)) 0))
                    (p_make_filedesc lc tgt)
      in Load (\<lambda>try_cloexec.
        if try_cloexec
        then p_match (p_cvt_call lc (c_fcntl_int lc fd (dupfd_cloexec lc tgt) 0))
               (\<lambda>fd. if os tgt = Linux then p_make_filedesc lc tgt fd
                     else Return (Ok (fd_new fd)))
               (\<lambda>e. if raw_os_error e = Some (EINVAL (codes (K lc)))
                    then Store False plain
                    else Return (Err e))
        else plain))"

lemma run_set_cloexec: "run (p_set_cloexec lc tgt f) = on_world (fd_set_cloexec lc tgt f)"
  by (simp add: p_set_cloexec_def fd_set_cloexec_def Let_def run_simps on_world_simps io_map_def
      del: run.simps cong: if_cong)

lemma run_make_filedesc: "run (p_make_filedesc lc tgt fd) = on_world (make_filedesc lc tgt fd)"
  by (simp add: p_make_filedesc_def make_filedesc_def Let_def run_simps on_world_simps
      run_set_cloexec del: run.simps)

text \<open>
  The program of single steps is the duplication of the sequential model.
\<close>

theorem p_duplicate_run: "run (p_duplicate lc tgt self) = fd_duplicate lc tgt self"
  by (simp add: p_duplicate_def fd_duplicate_def Let_def run_simps on_world_simps
      run_make_filedesc del: run.simps cong: if_cong)

lemma rg_with_drop:
  assumes "kernel_ok lc V"
    and "rg V S J p (\<lambda>r own ce. case r of Ok a \<Rightarrow> Q (Ok a) own ce
      | r \<Rightarrow> Q r (own - {raw_fd f}) (ce - {raw_fd f}) \<and> raw_fd f \<in> own \<and> J own ce) own ce"
  shows "rg V S J (p_with_drop (fd_drop lc f) p) Q own ce"
  using assms(2)
proof (induction p arbitrary: own ce rule: prog_induct)
  case (Return r)
  have "rg V S J (Atomic (\<lambda>w. (Return r, fd_drop lc f w))) Q own ce"
    if "raw_fd f \<in> own" and "Q r (own - {raw_fd f}) (ce - {raw_fd f})" and "J own ce" for r
  proof (rule rg_atomic [where J = J, OF that(3)], intro exI conjI)
    fix w
    assume "own \<subseteq> opened V w" "own \<inter> cloexec V w = ce"
    then show "passes V own w (own - {raw_fd f}) (ce - {raw_fd f}) (snd (Return r, fd_drop lc f w))"
      using that(1) kernel_close(1) [OF assms(1), of "raw_fd f" w]
        kernel_close_flags(1) [OF assms(1), of _ "raw_fd f" w]
      by (auto simp: passes_def others_def fd_drop_def)
  qed (simp add: that(2))
  with Return show ?case
    by (cases r) (auto simp del: rg.simps(2))
qed (auto simp: Let_def)

lemma rg_set_cloexec:
  assumes "kernel_ok lc V" and "raw_fd f \<in> own"
    and "\<And>e. Q (Err e) own ce" and "Q (Ok ()) own (insert (raw_fd f) ce)" and J: "J own ce"
  shows "rg V S J (p_set_cloexec lc tgt f) Q own ce"
proof (cases "cloexec_by_fcntl tgt")
  case False
  then show ?thesis
    using assms(3,4)
    by (auto simp: p_set_cloexec_def intro!: rg_bind
        rg_flags [where J = J, OF J kernel_keeps(1) [OF assms(1)] kernel_flags(1) [OF assms(1)] assms(2)])
next
  case True
  let ?fd = "raw_fd f" and ?ce = "FD_CLOEXEC (K lc)"
  have second: "rg V S J (p_cvt_call lc (c_fcntl_int lc ?fd (F_SETFD (K lc)) (p OR ?ce)))
      (\<lambda>r own ce. case r of Ok a \<Rightarrow> rg V S J (Return (Ok ())) Q own ce
         | Err e \<Rightarrow> Q (Err e) own ce | Panic \<Rightarrow> Q Panic own ce) own ce" for p
    using kernel_flags(3) [OF assms(1), where fd = ?fd and v = "p OR ?ce"] kernel_masks(1) [OF assms(1)]
    by (intro rg_flags [where J = J, OF J kernel_keeps(5) [OF assms(1)] _ assms(2)])
      (simp_all add: or_mask_zero assms(3,4))
  have set_before: "insert ?fd ce = ce"
    if "own \<inter> cloexec V w = ce" and "fst (c_fcntl lc ?fd (F_GETFD (K lc)) w) \<noteq> - 1"
      and "p = fst (c_fcntl lc ?fd (F_GETFD (K lc)) w)" and "p OR ?ce = p" for w p
    using that assms(2) kernel_getfd [OF assms(1) that(2)]
      or_mask_same [OF that(4) kernel_masks(1) [OF assms(1)]]
    by auto
  have rest: "rg V S J
      (let new = p OR ?ce in
       if new \<noteq> p
       then p_bind (p_cvt_call lc (c_fcntl_int lc ?fd (F_SETFD (K lc)) new)) (\<lambda>_. Return (Ok ()))
       else Return (Ok ())) Q own ce"
    if "own \<inter> cloexec V w = ce" and "fst (c_fcntl lc ?fd (F_GETFD (K lc)) w) \<noteq> - 1"
      and "p = fst (c_fcntl lc ?fd (F_GETFD (K lc)) w)" for w p
  proof (cases "p OR ?ce = p")
    case True
    with set_before [OF that] assms(4) show ?thesis by (simp add: Let_def)
  next
    case False
    then show ?thesis by (simp add: Let_def rg_bind [OF second])
  qed
  with True show ?thesis
    unfolding p_set_cloexec_def
    by (simp, intro rg_bind rg_neutral [where J = J, OF J kernel_neutral(1) [OF assms(1)]])
      (simp_all add: assms(3))
qed

lemma rg_make_filedesc:
  assumes "kernel_ok lc V" and "fd \<notin> own" and "ce' = ce \<or> ce' = insert fd ce" and "ce \<subseteq> own"
    and J: "J (insert fd own) ce'"
  shows "rg V S J (p_make_filedesc lc tgt fd) (obtained raw_fd own ce) (insert fd own) ce'"
  unfolding p_make_filedesc_def Let_def
  by (rule rg_with_drop [OF assms(1)], rule rg_bind, rule rg_set_cloexec [where J = J, OF assms(1) _ _ _ J])
    (use assms(2-5) in \<open>auto simp: fd_new_def obtained_def\<close>)

text \<open>
  The plain duplication, whose result waits for its flag, and the other one, which may fall back
  on it unless the kernel knows the request.
\<close>

lemma rg_plain:
  assumes "kernel_ok lc V" and "ce \<subseteq> own" and J: "J own ce" "\<And>t. t \<notin> own \<Longrightarrow> J (insert t own) ce"
  shows "rg V S J (p_bind (p_cvt_call lc (c_fcntl_int lc fd (F_DUPFD (K lc)) 0)) (p_make_filedesc lc tgt))
    (obtained raw_fd own ce) own ce"
  by (rule rg_bind, rule rg_opens [where J = J, OF J(1) kernel_opens(4) [OF assms(1)]])
    (simp_all add: obtained_def [of _ _ _ "Err _"] rg_make_filedesc [OF assms(1)] assms(2) J(2))

definition knows_dupfd_cloexec :: "'w libc \<Rightarrow> bool" where
  "knows_dupfd_cloexec lc \<longleftrightarrow> (\<forall>fd w. let (r, w') = c_fcntl_int lc fd (F_DUPFD_CLOEXEC (K lc)) 0 w
     in r = - 1 \<longrightarrow> errno lc w' \<noteq> EINVAL (codes (K lc)))"

lemma rg_duplicate:
  assumes "kernel_ok lc V" and "os tgt \<noteq> Haiku" and "ce \<subseteq> own" and "True \<in> S \<Longrightarrow> try_cloexec_init tgt"
    and J: "J own ce" "\<And>t. t \<notin> own \<Longrightarrow> J (insert t own) (insert t ce)"
    and fallback: "False \<in> S \<and> (\<forall>t. t \<notin> own \<longrightarrow> J (insert t own) ce)
      \<or> False \<notin> S \<and> knows_dupfd_cloexec lc"
  shows "rg V S J (p_duplicate lc tgt self) (obtained raw_fd own ce) own ce"
proof -
  let ?plain = "\<lambda>fd. p_bind (p_cvt_call lc (c_fcntl_int lc fd (F_DUPFD (K lc)) 0)) (p_make_filedesc lc tgt)"
  have plain: "rg V S J (?plain fd) (obtained raw_fd own ce) own ce" if "False \<in> S" for fd
    using that fallback by (intro rg_plain [where J = J, OF assms(1,3) J(1)]) blast
  have made: "rg V S J (p_make_filedesc lc tgt fd) (obtained raw_fd own ce) (insert fd own) (insert fd ce)"
    if "fd \<notin> own" for fd
    using that by (intro rg_make_filedesc [where J = J, OF assms(1)] J(2)) (simp_all add: assms(3))
  have flagged: "rg V S J (p_match (p_cvt_call lc (c_fcntl_int lc fd (dupfd_cloexec lc tgt) 0))
      (\<lambda>fd. if os tgt = Linux then p_make_filedesc lc tgt fd else Return (Ok (fd_new fd)))
      (\<lambda>e. if raw_os_error e = Some (EINVAL (codes (K lc))) then Store False (?plain fd)
           else Return (Err e))) (obtained raw_fd own ce) own ce"
    if "True \<in> S" for fd
  proof (rule rg_match)
    have dup: "dupfd_cloexec lc tgt = F_DUPFD_CLOEXEC (K lc)"
      using assms(4) [OF that] assms(2) by (simp add: dupfd_cloexec_def try_cloexec_init_def)
    have "raw_os_error (last_os_error lc (snd (c_fcntl_int lc fd (F_DUPFD_CLOEXEC (K lc)) 0 w)))
        \<noteq> Some (EINVAL (codes (K lc)))"
      if "False \<notin> S" and "fst (c_fcntl_int lc fd (F_DUPFD_CLOEXEC (K lc)) 0 w) = - 1" for w
      using that fallback
      by (auto simp: knows_dupfd_cloexec_def last_os_error_def Let_def case_prod_beta)
    with plain made J(1) show "rg V S J (p_cvt_call lc (c_fcntl_int lc fd (dupfd_cloexec lc tgt) 0))
       (\<lambda>r own' ce'. case r of
           Ok fd \<Rightarrow> rg V S J (if os tgt = Linux then p_make_filedesc lc tgt fd
             else Return (Ok (fd_new fd))) (obtained raw_fd own ce) own' ce'
         | Err e \<Rightarrow> rg V S J (if raw_os_error e = Some (EINVAL (codes (K lc))) then Store False (?plain fd)
             else Return (Err e)) (obtained raw_fd own ce) own' ce'
         | Panic \<Rightarrow> obtained raw_fd own ce Panic own' ce') own ce"
      unfolding dup
      by (intro rg_opens [where J = J, OF J(1) kernel_opens(5) [OF assms(1)]])
        (auto simp: fd_new_def obtained_def [of _ _ _ "Ok _"] obtained_def [of _ _ _ "Err _"] simp del: rg.simps(2))
  qed
  have "rg V S J (if b then p_match (p_cvt_call lc (c_fcntl_int lc (fd_raw self) (dupfd_cloexec lc tgt) 0))
      (\<lambda>fd. if os tgt = Linux then p_make_filedesc lc tgt fd else Return (Ok (fd_new fd)))
      (\<lambda>e. if raw_os_error e = Some (EINVAL (codes (K lc))) then Store False (?plain (fd_raw self))
           else Return (Err e)) else ?plain (fd_raw self)) (obtained raw_fd own ce) own ce" if "b \<in> S" for b
    using that plain flagged by (cases b) simp_all
  with J(1) show ?thesis
    by (simp add: p_duplicate_def Let_def)
qed

text \<open>Each thread duplicates a descriptor; the static has its initial value.\<close>

definition duplicating :: "'w libc \<Rightarrow> target \<Rightarrow> file_desc list \<Rightarrow> 'w \<Rightarrow> ('w, file_desc) pool" where
  "duplicating lc tgt fs w =
     \<lparr>jobs = map (p_duplicate lc tgt) fs, shared = w, static_values = [try_cloexec_init tgt]\<rparr>"

interpretation duplicates: thread_jobs
  "\<lambda>(lc, tgt, V). kernel_ok lc V \<and> os tgt \<noteq> Haiku" "\<lambda>(lc, tgt, V). V"
  "\<lambda>(lc, tgt, V). {b. b \<longrightarrow> try_cloexec_init tgt}" "\<lambda>_ _ _. True" "\<lambda>_. obtained raw_fd {} {}"
  "\<lambda>(lc, tgt, V). p_duplicate lc tgt" "\<lambda>(lc, tgt, V). try_cloexec_init tgt"
  by unfold_locales (auto intro: rg_duplicate)

text \<open>Where the kernel knows the request, every descriptor of a waiting thread is close-on-exec.\<close>

interpretation atomic_duplicates: thread_jobs
  "\<lambda>(lc, tgt, V). kernel_ok lc V \<and> os tgt \<notin> {Android, Haiku} \<and> knows_dupfd_cloexec lc"
  "\<lambda>(lc, tgt, V). V" "\<lambda>_. {True}" "\<lambda>_. (\<subseteq>)" "\<lambda>_. obtained raw_fd {} {}"
  "\<lambda>(lc, tgt, V). p_duplicate lc tgt" "\<lambda>(lc, tgt, V). try_cloexec_init tgt"
  by unfold_locales (auto intro: rg_duplicate simp: try_cloexec_init_def)

text \<open>
  Any number of threads that duplicate descriptors at the same time, in any
  interleaving of their calls and with any value a relaxed load of the static may give: each
  thread that has finished has either failed or holds a descriptor that is open, was not
  open before, is close-on-exec and is held by no other thread; none panics; the
  descriptors open before are untouched, and once all threads have finished nothing else is
  open. The static is only ever cleared.
\<close>

theorem duplicate_from_threads:
  assumes "kernel_ok lc V" and "os tgt \<noteq> Haiku"
    and "pool_step\<^sup>*\<^sup>* (duplicating lc tgt fs w) c"
  shows "(\<forall>i < length (jobs c). \<forall>f. jobs c ! i = Return (Ok f) \<longrightarrow>
       raw_fd f \<in> opened V (shared c) - opened V w \<and> raw_fd f \<in> cloexec V (shared c)
     \<and> (\<forall>j < length (jobs c). \<forall>g. j \<noteq> i \<and> jobs c ! j = Return (Ok g) \<longrightarrow> raw_fd g \<noteq> raw_fd f))
   \<and> Return Panic \<notin> set (jobs c)
   \<and> opened V w \<subseteq> opened V (shared c)
   \<and> opened V w \<inter> cloexec V (shared c) = opened V w \<inter> cloexec V w
   \<and> ((\<forall>p \<in> set (jobs c). \<exists>r. p = Return r) \<longrightarrow>
       opened V (shared c) = opened V w \<union> {raw_fd f | f. Return (Ok f) \<in> set (jobs c)})
   \<and> (\<forall>b \<in> set (static_values c). b \<longrightarrow> try_cloexec_init tgt)"
proof -
  from duplicates.shares [of "(lc, tgt, V)" fs w c] assms obtain share where
    ok: "pool_ok V {b. b \<longrightarrow> try_cloexec_init tgt} (\<lambda>_ _. True) (obtained raw_fd {} {}) (opened V w)
      (opened V w \<inter> cloexec V w) share c"
    by (auto simp: duplicating_def)
  from pool_obtained [OF ok] pool_okD(6) [OF ok] show ?thesis
    by auto
qed

text \<open>
  Where the kernel knows \<open>F_DUPFD_CLOEXEC\<close>, duplication is atomic, as its comment wants: at
  every moment, between any two calls of any number of threads, the descriptors that an \<open>exec\<close>
  would hand on are exactly those that it would have handed on before the threads started. The
  request is never given up.
\<close>

theorem duplicate_atomically:
  assumes "kernel_ok lc V" and "os tgt \<notin> {Android, Haiku}" and "knows_dupfd_cloexec lc"
    and "pool_step\<^sup>*\<^sup>* (duplicating lc tgt fs w) c"
  shows "opened V (shared c) - cloexec V (shared c) = opened V w - cloexec V w
    \<and> False \<notin> set (static_values c)"
proof -
  from atomic_duplicates.shares [of "(lc, tgt, V)" fs w c] assms obtain share where
    ok: "pool_ok V {True} (\<subseteq>) (obtained raw_fd {} {}) (opened V w) (opened V w \<inter> cloexec V w) share c"
    by (auto simp: duplicating_def)
  from pool_no_window [OF ok] pool_okD(6) [OF ok] show ?thesis
    by auto
qed

text \<open>A kernel that knows the request.\<close>

definition modern_libc :: "sim libc" where
  "modern_libc = sim_libc\<lparr>c_fcntl_int := (\<lambda>fd cmd v.
     if cmd = 1030 then sim_alloc True else sim_fcntl_int fd cmd v)\<rparr>"

lemma modern_kernel_ok: "kernel_ok modern_libc sim_view"
proof -
  have "fcntl_laws modern_libc sim_view"
    using sim_fcntl_laws sim_alloc_opens [of True]
    by (simp add: fcntl_laws_def modern_libc_def sim_defs)
  then show ?thesis
    using sim_socket_laws sim_close_laws sim_neutral_laws sim_hci_laws sim_data_laws
    by (simp add: kernel_ok_def modern_libc_def socket_laws_def close_laws_def neutral_laws_def
        hci_laws_def data_laws_def)
qed

lemma modern_knows: "knows_dupfd_cloexec modern_libc"
  by (auto simp: knows_dupfd_cloexec_def modern_libc_def sim_defs sim_alloc_def Let_def case_prod_beta
      dest!: sim_fds_minus_one [OF nth_mem] simp: find_Some_iff split: option.split)

lemma within_set_cloexec: "within (p_set_cloexec lc tgt f) 2" for lc :: "'w libc"
proof -
  have last: "within (p_bind (p_cvt_call lc c) (\<lambda>_. Return (Ok ()))) 1"
    for c :: "('w, c_int) call"
    using within_bind [OF within_cvt_call, of "\<lambda>_. Return (Ok ())" 0] by simp
  have "within (p_bind (p_cvt_call lc c) (\<lambda>previous. let new = h previous in
      if new \<noteq> previous then p_bind (p_cvt_call lc (d new)) (\<lambda>_. Return (Ok ()))
      else Return (Ok ()))) 2" for c :: "('w, c_int) call" and d :: "c_int \<Rightarrow> ('w, c_int) call" and h
    by (subst one_add_one [symmetric], rule within_bind [OF within_cvt_call]) (use last in \<open>simp add: Let_def\<close>)
  then show ?thesis
    using within_mono [OF last, of 2] by (simp add: p_set_cloexec_def)
qed

lemma within_make_filedesc: "within (p_make_filedesc lc tgt fd) 3"
  using within_with_drop [OF within_bind [OF within_set_cloexec, of "\<lambda>_. Return (Ok (fd_new fd))" 0]]
  by (simp add: p_make_filedesc_def Let_def numeral_3_eq_3)

lemma within_duplicate: "within (p_duplicate lc tgt self) 7"
proof -
  have plain: "within (p_bind (p_cvt_call lc c) (p_make_filedesc lc tgt)) 4" for c
    using within_bind [OF within_cvt_call within_make_filedesc] by simp
  have "within (p_match (p_cvt_call lc c)
      (\<lambda>fd. if os tgt = Linux then p_make_filedesc lc tgt fd else Return (Ok (fd_new fd)))
      (\<lambda>e. if raw_os_error e = Some v
           then Store False (p_bind (p_cvt_call lc c') (p_make_filedesc lc tgt))
           else Return (Err e))) (1 + 5)" for c c' v
    by (rule within_match [OF within_cvt_call])
      (simp_all add: plain within_mono [OF within_make_filedesc])
  then show ?thesis
    using within_mono [OF plain] by (simp add: p_duplicate_def Let_def)
qed

text \<open>
  Threads that duplicate descriptors always finish: however their steps interleave, there
  are at most seven for each thread, and as long as one thread has not finished a step is
  possible. This needs nothing of the kernel.
\<close>

theorem duplicate_threads_finish:
  assumes "(pool_step ^^ m) (duplicating lc tgt fs w) c"
  shows "m \<le> 7 * length fs \<and> length (jobs c) = length fs
    \<and> ((\<nexists>c'. pool_step c c') \<longrightarrow> (\<forall>p \<in> set (jobs c). \<exists>r. p = Return r))"
  using pool_finishes [OF assms [unfolded duplicating_def], of 7] within_duplicate by auto

section \<open>Two threads on an old kernel\<close>

text \<open>
  The request with the flag is unknown to the kernel. The second thread loads the static
  after the first has cleared it, and still gets the old value.
\<close>

definition old_kernel :: sim where
  "old_kernel = sim_init\<lparr>s_script := [22, 22]\<rparr>"

definition two_duplicates :: "(sim, file_desc) pool" where
  "two_duplicates = fold schedule
     [(0, 0), (0, 0), (0, 0), (1, 1), (1, 0), (1, 0), (0, 0), (1, 0), (1, 0), (0, 0)]
     (duplicating sim_libc linux_target [FileDesc 1, FileDesc 2] old_kernel)"

lemma two_duplicates_results:
  "map prog_result (jobs two_duplicates) = [Some (Ok (FileDesc 3)), Some (Ok (FileDesc 4))]
   \<and> static_values two_duplicates = [False, False, True]"
  by code_simp

lemma two_duplicates_jobs: "jobs two_duplicates = [Return (Ok (FileDesc 3)), Return (Ok (FileDesc 4))]"
  using two_duplicates_results by (auto simp: prog_result_Some)

lemma two_duplicates_reached:
  "pool_step\<^sup>*\<^sup>* (duplicating sim_libc linux_target [FileDesc 1, FileDesc 2] old_kernel)
     two_duplicates"
  unfolding two_duplicates_def by (rule schedules_steps)

theorem duplicate_from_threads_witness:
  "opened sim_view (shared two_duplicates) = {0, 1, 2, 3, 4}
   \<and> {3, 4} \<subseteq> cloexec sim_view (shared two_duplicates)"
proof -
  have "os linux_target \<noteq> Haiku"
    by (simp add: linux_target_def)
  from duplicate_from_threads [OF sim_kernel_ok this two_duplicates_reached]
  have "opened sim_view (shared two_duplicates)
      = {0, 1, 2} \<union> {raw_fd f | f. f = FileDesc 3 \<or> f = FileDesc 4}"
    and "{3, 4} \<subseteq> cloexec sim_view (shared two_duplicates)"
    by (simp_all add: two_duplicates_jobs All_less_Suc old_kernel_def sim_init_def)
  then show ?thesis
    by (auto intro: exI [of _ "FileDesc 3"] exI [of _ "FileDesc 4"])
qed

theorem duplicate_threads_finish_witness:
  "\<exists>m. (pool_step ^^ m) (duplicating sim_libc linux_target [FileDesc 1, FileDesc 2] old_kernel)
     two_duplicates \<and> m \<le> 14 \<and> length (jobs two_duplicates) = 2"
  using rtranclp_imp_relpowp [OF two_duplicates_reached] duplicate_threads_finish by fastforce

theorem duplicate_atomically_witness:
  "let c = fold schedule [(0, 0), (1, 0), (0, 0), (1, 0)]
       (duplicating modern_libc linux_target [FileDesc 1, FileDesc 2] sim_init)
   in s_open (shared c) = [4, 3, 0, 1, 2]
     \<and> opened sim_view (shared c) - cloexec sim_view (shared c) = {0, 1, 2}"
proof -
  have "os linux_target \<notin> {Android, Haiku}"
    by (simp add: linux_target_def)
  moreover have "s_open (shared (fold schedule [(0, 0), (1, 0), (0, 0), (1, 0)]
       (duplicating modern_libc linux_target [FileDesc 1, FileDesc 2] sim_init))) = [4, 3, 0, 1, 2]"
    by code_simp
  ultimately show ?thesis
    using duplicate_atomically [OF modern_kernel_ok _ modern_knows schedules_steps [of
          "duplicating modern_libc linux_target [FileDesc 1, FileDesc 2] sim_init" "[(0, 0), (1, 0), (0, 0), (1, 0)]"]]
    by (auto simp: Let_def sim_init_def)
qed

end
