(* ===== verification/Socket_Threads.thy ===== *)
theory Socket_Threads
  imports Unix_Bt Threads
begin

text \<open>
  Sockets from several threads: \<open>Socket::new\<close> and \<open>Socket::duplicate\<close> of \<open>src/sys/unix/bt.rs\<close> as
  programs of single steps, run by any number of threads at once.
\<close>

section \<open>The operations\<close>

definition p_setsockopt_int ::
    "'w libc \<Rightarrow> unix_socket \<Rightarrow> c_int \<Rightarrow> c_int \<Rightarrow> c_int \<Rightarrow> ('w, unit) prog" where
  "p_setsockopt_int lc sock opt val payload =
     p_bind (p_cvt_call lc (c_setsockopt_int lc (sock_as_inner sock) opt val payload 4)) (\<lambda>_. Return (Ok ()))"

definition p_sock_new :: "'w libc \<Rightarrow> target \<Rightarrow> bt_protocol \<Rightarrow> ('w, unix_socket) prog" where
  "p_sock_new lc tgt protocol =
     (let k = K lc;
          proto = (case protocol of L2CAP \<Rightarrow> BTPROTO_L2CAP k | RFCOMM \<Rightarrow> BTPROTO_RFCOMM k);
          fallback =
            p_bind (p_cvt_call lc (c_socket lc (AF_BLUETOOTH k) (SOCK_STREAM k) proto)) (\<lambda>fd.
              let fd = fd_new fd in
              p_with_drop (fd_drop lc fd)
                (p_bind (p_set_cloexec lc tgt fd) (\<lambda>_.
                  let socket = Socket fd in
                  p_bind
                    (if is_apple tgt
                     then p_setsockopt_int lc socket (SOL_SOCKET k) (SO_NOSIGPIPE k) 1
                     else Return (Ok ()))
                    (\<lambda>_. Return (Ok socket)))))
      in if os tgt = Linux
         then p_match
                (p_cvt_call lc (c_socket lc (AF_BLUETOOTH k) (SOCK_STREAM k OR SOCK_CLOEXEC k) proto))
                (\<lambda>fd. Return (Ok (Socket (fd_new fd))))
                (\<lambda>e. if raw_os_error e = Some (EINVAL (codes k)) then fallback else Return (Err e))
         else fallback)"

definition p_sock_duplicate :: "'w libc \<Rightarrow> target \<Rightarrow> unix_socket \<Rightarrow> ('w, unix_socket) prog" where
  "p_sock_duplicate lc tgt self =
     p_bind (p_duplicate lc tgt (sock_fd self)) (\<lambda>f. Return (Ok (Socket f)))"

section \<open>Running alone\<close>

lemma run_setsockopt_int:
  "run (p_setsockopt_int lc sock x y v) = on_world (unix_setsockopt_int lc sock x y v)"
  by (simp add: p_setsockopt_int_def unix_setsockopt_int_def setsockopt_def run_simps
      on_world_simps cvt_call_def del: run.simps)

text \<open>Running alone, the programs are the operations of the sequential model.\<close>

theorem p_sock_new_run: "run (p_sock_new lc tgt protocol) = on_world (sock_new lc tgt protocol)"
proof -
  have on_match: "on_world (io_match m k h) = io_match (on_world m) (\<lambda>a. on_world (k a)) (\<lambda>e. on_world (h e))"
    for m :: "('w, 'x) io" and k :: "'x \<Rightarrow> ('w, 'y) io" and h
    by (rule ext) (simp add: io_defs split: option.split prod.split outcome.split)
  have on_err: "on_world (io_err e) = io_err e" for e
    by (rule ext) (simp add: io_defs)
  show ?thesis
    by (simp add: p_sock_new_def sock_new_def Let_def run_simps on_world_simps on_match on_err
        run_set_cloexec run_setsockopt_int del: run.simps cong: if_cong)
qed

theorem p_sock_duplicate_run: "run (p_sock_duplicate lc tgt self) = sock_duplicate lc tgt self"
  by (simp add: p_sock_duplicate_def sock_duplicate_def io_map_def run_bind p_duplicate_run
      run_return del: run.simps)

section \<open>Among other threads\<close>

definition knows_sock_cloexec :: "'w libc \<Rightarrow> bool" where
  "knows_sock_cloexec lc \<longleftrightarrow> (\<forall>proto w.
     let (r, w') = c_socket lc (AF_BLUETOOTH (K lc)) (SOCK_STREAM (K lc) OR SOCK_CLOEXEC (K lc)) proto w
     in r = - 1 \<longrightarrow> errno lc w' \<noteq> EINVAL (codes (K lc)))"

lemma kernel_opens_socket:
  assumes "kernel_ok lc V"
  shows "opens V False (c_socket lc af (SOCK_STREAM (K lc)) proto) id"
    and "opens V True (c_socket lc af (SOCK_STREAM (K lc) OR SOCK_CLOEXEC (K lc)) proto) id"
  using kernel_opens(1) [OF assms, of "SOCK_STREAM (K lc)"]
    kernel_opens(1) [OF assms, of "SOCK_STREAM (K lc) OR SOCK_CLOEXEC (K lc)"] kernel_masks [OF assms]
  by (simp_all add: or_mask_zero)

text \<open>The end of the fallback, which owns the descriptor it got.\<close>

lemma rg_new_fallback:
  assumes "kernel_ok lc V" and "fd \<notin> own" and "ce \<subseteq> own"
    and J: "J (insert fd own) ce" "J (insert fd own) (insert fd ce)"
  shows "rg V S J
     (p_with_drop (fd_drop lc (FileDesc fd))
       (p_bind (p_set_cloexec lc tgt (FileDesc fd)) (\<lambda>_.
         p_bind
           (if is_apple tgt then p_setsockopt_int lc (Socket (FileDesc fd)) x y v else Return (Ok ()))
           (\<lambda>_. Return (Ok (Socket (FileDesc fd)))))))
     (obtained sock_raw own ce) (insert fd own) ce"
proof (rule rg_with_drop [OF assms(1)], rule rg_bind,
    rule rg_set_cloexec [where J = J, OF assms(1) _ _ _ J(1)])
  let ?Q = "\<lambda>r own' ce'. case r of Ok a \<Rightarrow> obtained sock_raw own ce (Ok a) own' ce'
      | r \<Rightarrow> obtained sock_raw own ce r (own' - {raw_fd (FileDesc fd)}) (ce' - {raw_fd (FileDesc fd)})
          \<and> raw_fd (FileDesc fd) \<in> own' \<and> J own' ce'"
  have gone: "ce - {fd} = ce" "own - {fd} = own"
    using assms(2,3) by auto
  have option: "rg V S J (p_setsockopt_int lc (Socket (FileDesc fd)) x y v)
      (\<lambda>r own' ce'. case r of Ok a \<Rightarrow> ?Q (Ok (Socket (FileDesc fd))) own' ce' | Err e \<Rightarrow> ?Q (Err e) own' ce'
        | Panic \<Rightarrow> ?Q Panic own' ce') (insert fd own) (insert fd ce)"
    unfolding p_setsockopt_int_def
    by (rule rg_bind, rule rg_neutral [where J = J, OF J(2) kernel_neutral(7) [OF assms(1)]])
      (use assms(2) J gone in \<open>simp_all add: obtained_def\<close>)
  show "\<And>e. case Err e of Ok a \<Rightarrow> rg V S J (p_bind (if is_apple tgt
        then p_setsockopt_int lc (Socket (FileDesc fd)) x y v else Return (Ok ()))
        (\<lambda>_. Return (Ok (Socket (FileDesc fd))))) ?Q (insert fd own) ce
      | Err e \<Rightarrow> ?Q (Err e) (insert fd own) ce | Panic \<Rightarrow> ?Q Panic (insert fd own) ce"
    using assms(2) J gone by (simp add: obtained_def)
  show "case Ok () of Ok a \<Rightarrow> rg V S J (p_bind (if is_apple tgt
        then p_setsockopt_int lc (Socket (FileDesc fd)) x y v else Return (Ok ()))
        (\<lambda>_. Return (Ok (Socket (FileDesc fd))))) ?Q (insert fd own) (insert (raw_fd (FileDesc fd)) ce)
      | Err e \<Rightarrow> ?Q (Err e) (insert fd own) (insert (raw_fd (FileDesc fd)) ce)
      | Panic \<Rightarrow> ?Q Panic (insert fd own) (insert (raw_fd (FileDesc fd)) ce)"
    using option assms(2) by (auto intro!: rg_bind simp: obtained_def cong: outcome.case_cong)
qed simp

lemma rg_sock_new:
  assumes "kernel_ok lc V" and "ce \<subseteq> own"
    and J: "J own ce" "\<And>t. t \<notin> own \<Longrightarrow> J (insert t own) (insert t ce)"
    and fallback: "(\<forall>t. t \<notin> own \<longrightarrow> J (insert t own) ce) \<or> os tgt = Linux \<and> knows_sock_cloexec lc"
  shows "rg V S J (p_sock_new lc tgt protocol) (obtained sock_raw own ce) own ce"
proof -
  let ?k = "K lc"
  define proto where "proto = (case protocol of L2CAP \<Rightarrow> BTPROTO_L2CAP ?k | RFCOMM \<Rightarrow> BTPROTO_RFCOMM ?k)"
  let ?plain = "p_bind (p_cvt_call lc (c_socket lc (AF_BLUETOOTH ?k) (SOCK_STREAM ?k) proto)) (\<lambda>fd.
      p_with_drop (fd_drop lc (FileDesc fd))
        (p_bind (p_set_cloexec lc tgt (FileDesc fd)) (\<lambda>_.
          p_bind
            (if is_apple tgt
             then p_setsockopt_int lc (Socket (FileDesc fd)) (SOL_SOCKET ?k) (SO_NOSIGPIPE ?k) 1
             else Return (Ok ()))
            (\<lambda>_. Return (Ok (Socket (FileDesc fd)))))))"
  have plain: "rg V S J ?plain (obtained sock_raw own ce) own ce" if "\<forall>t. t \<notin> own \<longrightarrow> J (insert t own) ce"
    by (rule rg_bind, rule rg_opens [where J = J, OF J(1) kernel_opens_socket(1) [OF assms(1)]])
      (simp_all add: obtained_def [of _ _ _ "Err _"] rg_new_fallback [OF assms(1) _ assms(2)] J(2) that)
  have unknown: "\<forall>t. t \<notin> own \<longrightarrow> J (insert t own) ce"
    if "os tgt = Linux \<longrightarrow> (\<exists>w. let (r, w') = c_socket lc (AF_BLUETOOTH ?k) (SOCK_STREAM ?k OR SOCK_CLOEXEC ?k) proto w
      in r = - 1 \<and> errno lc w' = EINVAL (codes ?k))"
    using that fallback by (fastforce simp: knows_sock_cloexec_def Let_def case_prod_beta)
  have flagged: "rg V S J
      (p_match (p_cvt_call lc (c_socket lc (AF_BLUETOOTH ?k) (SOCK_STREAM ?k OR SOCK_CLOEXEC ?k) proto))
        (\<lambda>fd. Return (Ok (Socket (FileDesc fd))))
        (\<lambda>e. if raw_os_error e = Some (EINVAL (codes ?k)) then ?plain else Return (Err e)))
      (obtained sock_raw own ce) own ce"
  proof (rule rg_match, rule rg_opens [where J = J, OF J(1) kernel_opens_socket(2) [OF assms(1)]])
    fix w
    let ?c = "c_socket lc (AF_BLUETOOTH ?k) (SOCK_STREAM ?k OR SOCK_CLOEXEC ?k) proto w"
    assume "fst ?c = - 1"
    then have "errno lc (snd ?c) = EINVAL (codes ?k) \<Longrightarrow> \<forall>t. t \<notin> own \<longrightarrow> J (insert t own) ce"
      by (intro unknown) (auto simp: Let_def case_prod_beta)
    with plain show "case Err (last_os_error lc (snd ?c)) of
        Ok fd \<Rightarrow> rg V S J (Return (Ok (Socket (FileDesc fd)))) (obtained sock_raw own ce) own ce
      | Err e \<Rightarrow> rg V S J (if raw_os_error e = Some (EINVAL (codes ?k)) then ?plain else Return (Err e))
          (obtained sock_raw own ce) own ce
      | Panic \<Rightarrow> obtained sock_raw own ce Panic own ce"
      by (simp add: last_os_error_def obtained_def [of _ _ _ "Err _"] del: rg.simps(2))
  qed (simp add: obtained_def)
  show ?thesis
    using flagged plain [OF unknown]
    unfolding p_sock_new_def fd_new_def Let_def proto_def by simp
qed

lemma rg_sock_duplicate:
  assumes "rg V S J (p_duplicate lc tgt (sock_fd self)) (obtained raw_fd own ce) own ce"
  shows "rg V S J (p_sock_duplicate lc tgt self) (obtained sock_raw own ce) own ce"
  unfolding p_sock_duplicate_def
  by (rule rg_bind, rule rg_mono [OF assms]) (auto simp: obtained_def split: outcome.splits)

section \<open>Threads that create and duplicate sockets\<close>

datatype job = Create bt_protocol | Duplicate unix_socket

fun p_job :: "'w libc \<Rightarrow> target \<Rightarrow> job \<Rightarrow> ('w, unix_socket) prog" where
  "p_job lc tgt (Create protocol) = p_sock_new lc tgt protocol"
| "p_job lc tgt (Duplicate self) = p_sock_duplicate lc tgt self"

definition at_work :: "'w libc \<Rightarrow> target \<Rightarrow> job list \<Rightarrow> 'w \<Rightarrow> ('w, unix_socket) pool" where
  "at_work lc tgt js w =
     \<lparr>jobs = map (p_job lc tgt) js, shared = w, static_values = [try_cloexec_init tgt]\<rparr>"

interpretation socket_threads: thread_jobs
  "\<lambda>(lc, tgt, V). kernel_ok lc V \<and> os tgt \<noteq> Haiku" "\<lambda>(lc, tgt, V). V"
  "\<lambda>(lc, tgt, V). {b. b \<longrightarrow> try_cloexec_init tgt}" "\<lambda>_ _ _. True" "\<lambda>_. obtained sock_raw {} {}"
  "\<lambda>(lc, tgt, V). p_job lc tgt" "\<lambda>(lc, tgt, V). try_cloexec_init tgt"
proof (unfold_locales, unfold split_paired_all prod.case)
  fix lc :: "'a libc" and tgt :: target and V j
  assume "kernel_ok lc V \<and> os tgt \<noteq> Haiku"
  then show "rg V {b. b \<longrightarrow> try_cloexec_init tgt} (\<lambda>_ _. True) (p_job lc tgt j) (obtained sock_raw {} {}) {} {}"
    by (cases j) (auto intro!: rg_sock_new rg_sock_duplicate rg_duplicate)
qed simp

interpretation atomic_socket_threads: thread_jobs
  "\<lambda>(lc, tgt, V). kernel_ok lc V \<and> os tgt = Linux \<and> knows_dupfd_cloexec lc \<and> knows_sock_cloexec lc"
  "\<lambda>(lc, tgt, V). V" "\<lambda>_. {True}" "\<lambda>_. (\<subseteq>)" "\<lambda>_. obtained sock_raw {} {}"
  "\<lambda>(lc, tgt, V). p_job lc tgt" "\<lambda>(lc, tgt, V). try_cloexec_init tgt"
proof (unfold_locales, unfold split_paired_all prod.case)
  fix lc :: "'a libc" and tgt :: target and V j
  assume "kernel_ok lc V \<and> os tgt = Linux \<and> knows_dupfd_cloexec lc \<and> knows_sock_cloexec lc"
  then show "rg V {True} (\<subseteq>) (p_job lc tgt j) (obtained sock_raw {} {}) {} {}"
    by (cases j)
      (auto intro!: rg_sock_new rg_sock_duplicate rg_duplicate simp: try_cloexec_init_def)
qed (simp add: try_cloexec_init_def)



section \<open>Every schedule ends\<close>

lemma within_sock_new: "within (p_sock_new lc tgt protocol) 7"
proof -
  have option: "within (p_setsockopt_int lc sock x y v) 1" for sock x y v
    using within_bind [OF within_cvt_call, of "\<lambda>_. Return (Ok ())" 0] by (simp add: p_setsockopt_int_def)
  have "within (p_bind (if is_apple tgt then p_setsockopt_int lc sock x y v else Return (Ok ()))
      (\<lambda>_. Return (Ok s))) (1 + 0)" for sock x y v and s :: unix_socket
    by (rule within_bind) (simp_all add: option [unfolded One_nat_def])
  then have "within (p_with_drop d (p_bind (p_set_cloexec lc tgt f) (\<lambda>_.
      p_bind (if is_apple tgt then p_setsockopt_int lc sock x y v else Return (Ok ()))
        (\<lambda>_. Return (Ok s))))) (Suc (2 + 1))" for d f sock x y v and s :: unix_socket
    by (intro within_with_drop within_bind [OF within_set_cloexec]) simp
  then have fallback: "within (p_bind (p_cvt_call lc c) (\<lambda>fd. p_with_drop (d fd)
      (p_bind (p_set_cloexec lc tgt (f fd)) (\<lambda>_.
        p_bind (if is_apple tgt then p_setsockopt_int lc (sk fd) x y v else Return (Ok ()))
          (\<lambda>_. Return (Ok (sk fd))))))) (1 + 4)"
    for c :: "('a, c_int) call" and d f x y v and sk :: "c_int \<Rightarrow> unix_socket"
    by (intro within_bind [OF within_cvt_call]) simp
  show ?thesis
    unfolding p_sock_new_def Let_def
    by (auto intro: within_mono [OF fallback] intro!: within_mono [OF within_match [OF within_cvt_call, where n = 5]]
        within_mono [OF fallback])
qed

lemma within_sock_duplicate: "within (p_sock_duplicate lc tgt self) 7"
  using within_bind [OF within_duplicate, of "\<lambda>f. Return (Ok (Socket f))" 0]
  by (simp add: p_sock_duplicate_def)


section \<open>Two threads\<close>

text \<open>
  On an old kernel both requests are refused; the threads fall back one after the other.
\<close>

definition two_jobs :: "job list" where
  "two_jobs = [Create RFCOMM, Duplicate (Socket (FileDesc 1))]"

definition two_sockets :: "(sim, unix_socket) pool" where
  "two_sockets = fold schedule
     [(0, 0), (1, 0), (1, 0), (1, 0), (0, 0), (1, 0), (1, 0), (0, 0)] (at_work sim_libc linux_target two_jobs old_kernel)"

lemma two_sockets_results:
  "map prog_result (jobs two_sockets) = [Some (Ok (Socket (FileDesc 3))), Some (Ok (Socket (FileDesc 4)))]"
  by code_simp

lemma two_sockets_jobs:
  "jobs two_sockets = [Return (Ok (Socket (FileDesc 3))), Return (Ok (Socket (FileDesc 4)))]"
  using two_sockets_results by (auto simp: prog_result_Some)

lemma two_sockets_reached: "pool_step\<^sup>*\<^sup>* (at_work sim_libc linux_target two_jobs old_kernel) two_sockets"
  unfolding two_sockets_def by (rule schedules_steps)



text \<open>A kernel that knows both requests, after the first calls of both threads.\<close>

definition modern_sockets :: "sim libc" where
  "modern_sockets = modern_libc\<lparr>c_socket := (\<lambda>dm ty p. sim_alloc (ty AND 524288 \<noteq> 0))\<rparr>"

lemma modern_sockets_ok: "kernel_ok modern_sockets sim_view"
proof -
  have "socket_laws modern_sockets sim_view"
    using sim_socket_laws sim_alloc_opens
    by (simp add: socket_laws_def modern_sockets_def modern_libc_def sim_defs)
  then show ?thesis
    using modern_kernel_ok
    by (simp add: kernel_ok_def modern_sockets_def fcntl_laws_def close_laws_def neutral_laws_def
        hci_laws_def data_laws_def)
qed

lemma modern_sockets_know: "knows_dupfd_cloexec modern_sockets" "knows_sock_cloexec modern_sockets"
  using modern_knows
  by (auto simp: knows_dupfd_cloexec_def knows_sock_cloexec_def modern_sockets_def modern_libc_def sim_defs
      sim_alloc_def Let_def case_prod_beta find_Some_iff split: option.split
      dest!: sim_fds_minus_one [OF nth_mem])


end
