(* ===== verification/Conversions.thy ===== *)
theory Conversions
  imports Bt_Api Unix_Bt Win_Bt
begin

text \<open>
  The conversion traits of \<open>src/sys_common/mod.rs\<close>: a trait is the record of its functions, an
  implementation a value of it. Four types implement the three conversions to and from what they
  wrap, \<open>FileDesc\<close> only the view; the view that allows changes has no implementation.
\<close>

section \<open>The traits\<close>

record ('o, 'i) AsInner =
  as_inner :: "'o \<Rightarrow> 'i"

text \<open>A mutable reference to the inner value: reading it and writing it back.\<close>

record ('o, 'i) AsInnerMut =
  as_inner_mut :: "'o \<Rightarrow> 'i"
  put_inner_mut :: "'i \<Rightarrow> 'o \<Rightarrow> 'o"

record ('o, 'i) IntoInner =
  into_inner :: "'o \<Rightarrow> 'i"

record ('o, 'i) FromInner =
  from_inner :: "'i \<Rightarrow> 'o"

section \<open>Their contract\<close>

text \<open>
  The three conversions of one type agree: taking the inner value out and wrapping it again gives
  the same value, the other way round as well, and the view shows what would be taken out.
\<close>

locale wrapper =
  fixes A :: "('o, 'i) AsInner" and I :: "('o, 'i) IntoInner" and F :: "('o, 'i) FromInner"
  assumes from_into: "from_inner F (into_inner I x) = x"
    and into_from: "into_inner I (from_inner F i) = i"
    and as_into: "as_inner A x = into_inner I x"
begin

lemma as_from: "as_inner A (from_inner F i) = i"
  by (simp add: as_into into_from)

lemma from_as: "from_inner F (as_inner A x) = x"
  by (simp add: as_into from_into)

lemma as_inner_bij: "bij (as_inner A)"
  by (rule bijI') (metis from_as, metis as_from)

end

interpretation unix_socket_wrapper: wrapper
  "\<lparr>as_inner = sock_as_inner\<rparr>" "\<lparr>into_inner = sock_into_inner\<rparr>" "\<lparr>from_inner = sock_from_inner\<rparr>"
proof
  fix x :: unix_socket
  show "from_inner \<lparr>from_inner = sock_from_inner\<rparr> (into_inner \<lparr>into_inner = sock_into_inner\<rparr> x) = x"
    by (cases x, cases "sock_fd x")
      (simp add: sock_from_inner_def sock_into_inner_def fd_into_raw_def fd_new_def)
qed (simp_all add: sock_as_inner_def sock_from_inner_def sock_into_inner_def fd_into_raw_def fd_new_def)

interpretation win_socket_wrapper: wrapper
  "\<lparr>as_inner = win_as_inner\<rparr>" "\<lparr>into_inner = win_into_inner\<rparr>" "\<lparr>from_inner = win_from_inner\<rparr>"
  by unfold_locales (simp_all add: win_as_inner_def win_from_inner_def win_into_inner_def)

interpretation listener_wrapper: wrapper
  "\<lparr>as_inner = listener_as_inner\<rparr>" "\<lparr>into_inner = listener_into_inner\<rparr>" "\<lparr>from_inner = listener_from_inner\<rparr>"
  by unfold_locales (simp_all add: listener_as_inner_def listener_from_inner_def listener_into_inner_def)

interpretation stream_wrapper: wrapper
  "\<lparr>as_inner = stream_as_inner\<rparr>" "\<lparr>into_inner = stream_into_inner\<rparr>" "\<lparr>from_inner = stream_from_inner\<rparr>"
  by unfold_locales (simp_all add: stream_as_inner_def stream_from_inner_def stream_into_inner_def)

text \<open>
  Two sockets with the same raw handle are the same socket, on both backends: a raw handle may
  stand for the socket, as it does in the tables of open handles.
\<close>

lemma sockets_by_handle:
  "sock_as_inner x = sock_as_inner y \<longleftrightarrow> x = y" "win_as_inner u = win_as_inner v \<longleftrightarrow> u = v"
  using unix_socket_wrapper.as_inner_bij win_socket_wrapper.as_inner_bij
  by (auto simp: bij_def inj_eq)

end
