(* ===== verification/Spec2Isabelle.thy ===== *)
theory Spec2Isabelle
  imports Client_Backends Example Unix_Wait Peers Handles Channel Socket_Threads Conversions
begin

text \<open>
  A verification development for \<open>io_bluetooth\<close>, a Rust library of Bluetooth listeners and
  streams for Unix and Windows. Paths below are relative to the crate's directory.

  \<^bold>\<open>The program.\<close> \<open>src/bt/mod.rs\<close> is the public interface: addresses, protocols, \<open>BtListener\<close>,
  \<open>BtStream\<close>, and the helper that tries several addresses. Its types wrap those of
  \<open>src/sys_common/bt.rs\<close>, which create, bind, connect and query sockets through the backend
  chosen at compile time: \<open>src/sys/unix\<close> (owned descriptors in \<open>fd.rs\<close>, sockets and discovery in
  \<open>bt.rs\<close>, the result convention in \<open>mod.rs\<close>) or \<open>src/sys/windows\<close> (\<open>bt.rs\<close>, \<open>mod.rs\<close>). The
  program \<open>examples/01_socket.rs\<close> uses the public interface.

  \<^bold>\<open>How it is modelled.\<close> An operation is a function from the state to nothing or an outcome
  with the state it leaves (theory \<open>Bt_Prelude\<close>). No result means that the call does not return:
  loops of the source that need not end are partial functions, so there is no fuel and no bound.
  An outcome is \<open>Ok\<close>, \<open>Err\<close> with an \<open>io::Error\<close>, or \<open>Panic\<close>. The state is the world of the
  operating system, paired with the one static variable of the backend (\<open>TRY_CLOEXEC\<close> on Unix,
  \<open>START\<close> on Windows) and, around a call that fills a buffer, with that buffer. Integers have the
  width they have in the source. Combinators stand for the question mark operator, \<open>match\<close> on a
  result, and the drop of an owned handle on the way out; each has a rule of a weakest
  precondition calculus.

  What is not code of the repository is a parameter: the C library is a record of functions on an
  arbitrary world (\<open>Unix_Sys\<close>), and so is the Windows API (\<open>Win_Sys\<close>). What the code relies on is
  stated as named predicates of these parameters, all of them documented behaviour:
  \<^item> \<open>kernel_ok\<close> and \<open>winsock_ok\<close>: which calls open and close descriptors and set their flags;
  \<^item> \<open>rc_layout_ok\<close> and \<open>bth_layout_ok\<close>: the memory layout of the two address structures;
  \<^item> \<open>names_ok\<close>: the names of sockets are those they were bound and connected to;
  \<^item> \<open>stores_timeout\<close> and \<open>w_stores_timeout\<close>: a time limit accepted is reported back;
  \<^item> \<open>options_ok\<close> and \<open>w_options_ok\<close>: options have their documented sizes;
  \<^item> \<open>timing_ok\<close>: the clock advances and calls take bounded time;
  \<^item> \<open>inquiry_ok\<close>: an inquiry writes no more replies than it was asked for;
  \<^item> \<open>reads_content\<close>, \<open>takes_data\<close>, \<open>win_reads_content\<close>, \<open>win_takes_data\<close>: a read takes bytes from the
    front of what is still to come, a write from the front of the buffer;
  \<^item> \<open>attempt_laws\<close> and \<open>win_attempt_laws\<close>: what \<open>connect\<close>, \<open>poll\<close> and \<open>select\<close> tell of the progress of a
    connection (theory \<open>Connection\<close>); \<open>win_mode_laws\<close>: which calls change the blocking mode;
  \<^item> \<open>accept_laws\<close> and \<open>win_accept_laws\<close>: accepting writes the name of the caller.
  Theories \<open>Unix_Sim\<close> and \<open>Win_Sim\<close> give an executable instance of each parameter, in which every
  call can be made to fail, and prove that it keeps the laws; the witnesses run on them.

  \<^bold>\<open>The theories\<close>, in the order they build on each other:
  \<^item> \<open>Bt_Prelude\<close>, \<open>Rust_Std\<close>: the vocabulary above; checked and saturating arithmetic, little endian
    bytes, \<open>Duration\<close>.
  \<^item> \<open>Ownership\<close>: \<open>acquires\<close>, the contract of an operation that hands out handles, and how it
    composes along the control flow.
  \<^item> \<open>Std_Io\<close>: the derived methods \<open>read_to_end\<close> and \<open>write_all\<close> of the traits \<open>Read\<close> and \<open>Write\<close>, with
    the locales \<open>byte_source\<close> and \<open>byte_sink\<close> for what they rely on.
  \<^item> \<open>Bt_Addr\<close>: \<open>BtAddr\<close>, its derived traits, \<open>nap_sap\<close>, its two texts (\<open>src/bt/mod.rs\<close>).
  \<^item> \<open>Unix_Sys\<close>, \<open>Unix_Kernel\<close>: \<open>cvt\<close> and \<open>cvt_r\<close> of \<open>src/sys/unix/mod.rs\<close>; the laws of the kernel.
  \<^item> \<open>Unix_Fd\<close>, \<open>Unix_Read\<close>: \<open>FileDesc\<close> of \<open>src/sys/unix/fd.rs\<close>.
  \<^item> \<open>Interleave\<close>: programs of single steps over the world and the static \<open>TRY_CLOEXEC\<close>, and
    threads that interleave them; relaxed loads may give any value the static has had. The
    contract \<open>rg\<close> of one thread (what it relies on and what it guarantees), the invariant \<open>pool_ok\<close>
    of all of them, and the locale \<open>thread_jobs\<close> for operations that keep it. \<open>Threads\<close>:
    \<open>FileDesc::duplicate\<close> as such a program.
  \<^item> \<open>Common_Sockopt\<close>: \<open>setsockopt\<close>, \<open>getsockopt\<close>, \<open>sockname\<close> of \<open>src/sys_common/bt.rs\<close>.
  \<^item> \<open>Unix_Bt\<close>, \<open>Unix_Connect\<close>, \<open>Unix_Wait\<close>, \<open>Unix_Discover\<close>: \<open>Socket\<close>, \<open>connect_timeout\<close> with its loop
    around \<open>poll\<close>, and \<open>discover_devices\<close> of \<open>src/sys/unix/bt.rs\<close>. \<open>Socket_Threads\<close>: \<open>Socket::new\<close> and
    \<open>Socket::duplicate\<close> from several threads at once, as programs of single steps that are proved
    to be the sequential operations when they run alone.
  \<^item> \<open>Win_Sys\<close>, \<open>Win_Bt\<close>, \<open>Win_Kernel\<close>, \<open>Win_Correct\<close>, \<open>Win_Connect\<close>, \<open>Win_Discover\<close>:
    \<open>src/sys/windows\<close>.
  \<^item> \<open>Bt_Resolve\<close>: \<open>each_addr\<close> of \<open>src/bt/mod.rs\<close>, with the locale \<open>handle_source\<close> for the
    attempts it makes.
  \<^item> \<open>Common_Bt\<close>: listeners and streams of \<open>src/sys_common/bt.rs\<close> over a record that stands for the
    backend, with the locales \<open>socket_backend\<close> (who opens and closes sockets), \<open>addr_codec\<close>
    (conversions of addresses) and its extension \<open>accepting_backend\<close> (the address of a caller).
  \<^item> \<open>Backends\<close>: the two values of that record and the interpretations of the locales on them.
  \<^item> \<open>Bt_Api\<close>: the public methods of \<open>src/bt/mod.rs\<close>.
  \<^item> \<open>Peers\<close>: the address \<open>accept\<close> reports, and that streams are connected (locale
    \<open>connecting_backend\<close>); \<open>Handles\<close>: sockets hold valid handles (locale \<open>handle_backend\<close>);
    \<open>Stream_Io\<close>: \<open>BtStream\<close> under the derived methods of \<open>Read\<close> and \<open>Write\<close>.
  \<^item> \<open>Channel\<close>: the two ends of a connection that send and receive in any order (locale
    \<open>byte_channel\<close>). \<open>Conversions\<close>: the conversion traits of \<open>src/sys_common/mod.rs\<close> as records,
    with the locale \<open>wrapper\<close> for what their implementations have in common.
  \<^item> \<open>Panic_Free\<close>: no operation panics (locale \<open>calm_backend\<close>).
  \<^item> \<open>Client\<close>, \<open>Client_Backends\<close>: programs that call the public interface in any order, as an
    inductive predicate of the states they reach, with the locale \<open>client_backend\<close>.
  \<^item> \<open>Example\<close>: \<open>examples/01_socket.rs\<close> with the console.

  \<^bold>\<open>What is shown.\<close> Ownership: from the single system call up to arbitrary programs, exactly the
  sockets of live values are open (\<open>client_owns_sockets\<close>, \<open>client_refines_table\<close>,
  \<open>unix_api_no_leak\<close>, \<open>win_api_no_leak\<close>), none is inherited by child processes (\<open>sockets_cloexec\<close>,
  \<open>win_sockets_not_inherited\<close>), and discovery leaks on the error paths named
  (\<open>discover_devices_leak\<close>, \<open>win_discover_leak\<close>). Control flow: nothing panics
  (\<open>api_never_panics\<close>), the waiting loop of \<open>connect_timeout\<close> ends in time
  (\<open>await_connection_in_time\<close>) with the answer of its first deciding round (\<open>poll_loop_spec\<close>), the
  loops of \<open>cvt_r\<close>, \<open>each_addr\<close>, Windows discovery, reading to
  the end and the console are characterised in full. Data: addresses survive the way through
  memory and through text, time limits come back as set up to the resolution of the platform,
  lengths are never truncated by a cast, and whole transfers through a stream lose nothing
  (\<open>unix_stream_io\<close>, \<open>win_stream_io\<close>). Connections: a stream that is returned is connected
  (\<open>unix_streams_connected\<close>, \<open>win_streams_connected\<close>), holds a valid handle (\<open>sockets_valid\<close>), and
  the caller of an accepted one is reported truly (\<open>unix_accept_peer\<close>, \<open>win_accept_peer\<close>).
  What one end of a connection has received is a prefix of what the other has sent
  (\<open>channel_fifo\<close>). Threads: each thread that creates or duplicates sockets gets one of its own
  (\<open>sockets_from_threads\<close>) after at most seven steps (\<open>socket_threads_finish\<close>), and on Linux there
  is no moment at which a child process would inherit it (\<open>sockets_atomically\<close>).
  Theorems whose subject is a deviation say so in their text.

  \<^bold>\<open>Findings.\<close> Both implementations of \<open>discover_devices\<close> leak on an error in the middle; the
  Windows \<open>connect_timeout\<close> wraps limits of \<open>2\<^sup>3\<^sup>2\<close> seconds and omits the service class;
  duplicates on Haiku are inherited; a zero limit is refused later than documented; the example
  never stops asking at the end of its input. Two configurations do not compile: Android, whose
  branches of \<open>fd.rs\<close> use a module \<open>android\<close> that is missing, and Emscripten, whose branch imports a
  module \<open>convert\<close> that is.

  \<^bold>\<open>Not modelled.\<close> The derived copies and clones; the re-exports of \<open>src/lib.rs\<close>, \<open>src/sys/mod.rs\<close>,
  \<open>src/sys/unix/c.rs\<close> and \<open>src/sys/windows/c.rs\<close>; reading and writing at an offset on Android, whose
  functions are not in the crate (the branches for Emscripten are modelled as they read, as if the
  import resolved); the text of operating system errors. Of threads, only
  the creation and duplication of sockets is modelled: other operations run without interruption,
  and one socket is not used by several threads at the same time. An iterator of addresses is the
  finite list of what it yields. The allocation of memory does not fail, and printing does not.
\<close>

section \<open>Ownership of sockets, from the public interface down\<close>



text \<open>
  C14. No socket is leaked on Windows, whatever the public operation: each operation that
  returns a listener or a stream opens exactly the socket inside it when it succeeds, and
  leaves the open sockets as they were when it fails.
\<close>

theorem win_api_no_leak:
  assumes "winsock_ok wa V"
  shows "acquires (\<lambda>s. w_opened V (fst s)) (listener_bind (win_backend wa) addrs pr)
      (\<lambda>l. {listener_handle (win_backend wa) l})
    \<and> acquires (\<lambda>s. w_opened V (fst s)) (stream_connect (win_backend wa) addrs pr)
      (\<lambda>c. {stream_handle (win_backend wa) c})
    \<and> acquires (\<lambda>s. w_opened V (fst s)) (stream_connect_timeout (win_backend wa) addr pr d)
      (\<lambda>c. {stream_handle (win_backend wa) c})
    \<and> acquires (\<lambda>s. w_opened V (fst s)) (listener_accept (win_backend wa) l)
      (\<lambda>r. {stream_handle (win_backend wa) (fst r)})
    \<and> acquires (\<lambda>s. w_opened V (fst s)) (listener_try_clone (win_backend wa) l)
      (\<lambda>l. {listener_handle (win_backend wa) l})
    \<and> acquires (\<lambda>s. w_opened V (fst s)) (stream_try_clone (win_backend wa) c)
      (\<lambda>c. {stream_handle (win_backend wa) c})"
  using win_sockets.api_acquires [of "(wa, V)"] assms by simp

theorem win_api_no_leak_witness:
  "acquires (\<lambda>s. set (x_open (fst s))) (stream_connect (win_backend x_api) [BtAddr (Bytes6 1 2 3 4 5 6)] RFCOMM)
     (\<lambda>c. {stream_handle (win_backend x_api) c})"
  using win_api_no_leak [OF x_winsock_ok, of "[BtAddr (Bytes6 1 2 3 4 5 6)]" RFCOMM] by simp

section \<open>Names\<close>

text \<open>
  C7. On Unix a listener reports the address it was bound to, one of those \<open>bind\<close> was
  given, and a stream the address of the peer it was connected to, one of those \<open>connect\<close>
  was given: the conversions between addresses and memory on the way to the kernel and back
  cancel out.
\<close>

theorem unix_api_names:
  assumes "rc_layout_ok lc" and "names_ok (unix_backend lc tgt) loc peer"
  shows "triple (\<lambda>_. True)
      (io_bind (listener_bind (unix_backend lc tgt) addrs pr) (listener_local_addr (unix_backend lc tgt)))
      (\<lambda>a _. a \<in> set addrs)
    \<and> triple (\<lambda>_. True)
      (io_bind (stream_connect (unix_backend lc tgt) addrs pr) (stream_peer_addr (unix_backend lc tgt)))
      (\<lambda>a _. a \<in> set addrs)"
  using unix_codec.api_bind_names [of "(lc, tgt)"] unix_codec.api_connect_names [of "(lc, tgt)"] assms
  by simp

theorem unix_api_names_witness:
  "triple (\<lambda>_. True)
     (io_bind (listener_bind (unix_backend sim_libc linux_target) [BtAddr (Bytes6 1 2 3 4 5 6)] RFCOMM)
        (listener_local_addr (unix_backend sim_libc linux_target)))
     (\<lambda>a _. a = BtAddr (Bytes6 1 2 3 4 5 6))"
  using unix_api_names [OF sim_layout_ok sim_names_ok, of linux_target "[BtAddr (Bytes6 1 2 3 4 5 6)]" RFCOMM]
  by simp



section \<open>Protocols\<close>

text \<open>
  The protocol a listener or a stream reports is the one it was created with: the one
  given to \<open>bind\<close>, \<open>connect\<close> and \<open>connect_timeout\<close>, and through \<open>accept\<close> and \<open>try_clone\<close>
  that of the original, on either backend.
\<close>

theorem protocol_kept:
  "triple (\<lambda>_. True) (listener_bind B addrs pr) (\<lambda>l _. listener_protocol l = pr)
    \<and> triple (\<lambda>_. True) (stream_connect B addrs pr) (\<lambda>c _. stream_protocol c = pr)
    \<and> triple (\<lambda>_. True) (stream_connect_timeout B addr pr d) (\<lambda>c _. stream_protocol c = pr)
    \<and> triple (\<lambda>_. True) (listener_accept B l) (\<lambda>r _. stream_protocol (fst r) = listener_protocol l)
    \<and> triple (\<lambda>_. True) (listener_try_clone B l) (\<lambda>l' _. listener_protocol l' = listener_protocol l)
    \<and> triple (\<lambda>_. True) (stream_try_clone B c) (\<lambda>c' _. stream_protocol c' = stream_protocol c)"
proof -
  have bind: "triple (\<lambda>_. True) (sys_bind B addr pr) (\<lambda>l _. l_protocol l = pr)" for addr
    unfolding sys_bind_def
    by (cases "be_into B addr")
      (auto intro!: triple_bind [OF triple_top] triple_with_drop triple_ret)
  have connect: "triple (\<lambda>_. True) (sys_connect B addr pr) (\<lambda>c _. s_protocol c = pr)" for addr
    unfolding sys_connect_def
    by (cases "be_into B addr")
      (auto intro!: triple_bind [OF triple_top] triple_with_drop triple_ret)
  have "triple (\<lambda>_. True) (sys_connect_timeout B addr pr d) (\<lambda>c _. s_protocol c = pr)"
    unfolding sys_connect_timeout_def
    by (auto intro!: triple_bind [OF triple_top] triple_with_drop triple_ret)
  then have "triple (\<lambda>_. True) (stream_connect_timeout B addr pr d) (\<lambda>c _. stream_protocol c = pr)"
    unfolding stream_connect_timeout_def by (intro triple_map) (simp add: stream_protocol_def sys_protocol_def)
  moreover have "triple (\<lambda>_. True) (each_addr addrs (\<lambda>addr. sys_bind B addr pr)) (\<lambda>l _. l_protocol l = pr)"
    by (rule triple_weaken [OF triple_each_addr [OF bind]]) auto
  then have "triple (\<lambda>_. True) (listener_bind B addrs pr) (\<lambda>l _. listener_protocol l = pr)"
    unfolding listener_bind_def by (intro triple_map) (simp add: listener_protocol_def sys_listener_protocol_def)
  moreover have "triple (\<lambda>_. True) (each_addr addrs (\<lambda>addr. sys_connect B addr pr)) (\<lambda>c _. s_protocol c = pr)"
    by (rule triple_weaken [OF triple_each_addr [OF connect]]) auto
  then have "triple (\<lambda>_. True) (stream_connect B addrs pr) (\<lambda>c _. stream_protocol c = pr)"
    unfolding stream_connect_def by (intro triple_map) (simp add: stream_protocol_def sys_protocol_def)
  moreover have "triple (\<lambda>_. True) (listener_accept B l) (\<lambda>r _. stream_protocol (fst r) = listener_protocol l)"
    "triple (\<lambda>_. True) (listener_try_clone B l) (\<lambda>l' _. listener_protocol l' = listener_protocol l)"
    "triple (\<lambda>_. True) (stream_try_clone B c) (\<lambda>c' _. stream_protocol c' = stream_protocol c)"
    unfolding listener_accept_def sys_listener_accept_def listener_try_clone_def sys_listener_duplicate_def
      stream_try_clone_def sys_duplicate_def
    by (rule triple_map, rule triple_map, simp add: split_beta listener_protocol_def sys_listener_protocol_def
        stream_protocol_def sys_protocol_def, rule triple_top)+
  ultimately show ?thesis
    by blast
qed

section \<open>Sending\<close>

lemma unat_buf_len_le: "unat (buf_len buf) \<le> length buf"
  by (simp add: buf_len_def unsigned_of_nat take_bit_nat_less_eq_self)

lemma unat_scast_le: "0 \<le> sint n \<Longrightarrow> sint n \<le> int k \<Longrightarrow> unat (scast n :: usize) \<le> k" for n :: c_int
  by (simp add: unat_scast_pos nat_le_iff)

text \<open>
  A successful \<open>send\<close> or \<open>send_to\<close> never reports more bytes than the buffer holds, on
  either backend, and never panics; the length the call is given is capped at the largest
  value of the platform's length type, so the cast to that type loses nothing.
\<close>

theorem send_bounds:
  assumes "\<And>fd b n fl w. fst (c_send lc fd b n fl w) = - 1 \<or> fst (c_send lc fd b n fl w) \<le> n"
    and "\<And>h b n fl w. 0 \<le> sint n \<Longrightarrow> fst (w_send wa h b n fl w) = - 1 \<or> 0 \<le> sint (fst (w_send wa h b n fl w))
      \<and> sint (fst (w_send wa h b n fl w)) \<le> sint n"
  shows "wp True (stream_send (unix_backend lc tgt) c buf)
      (\<lambda>r _. case r of Ok k \<Rightarrow> unat k \<le> length buf | Err _ \<Rightarrow> True | Panic \<Rightarrow> False) s
    \<and> wp True (stream_send (win_backend wa) c' buf)
      (\<lambda>r _. case r of Ok k \<Rightarrow> unat k \<le> length buf | Err _ \<Rightarrow> True | Panic \<Rightarrow> False) s'
    \<and> unat (ucast (wr_len (win_backend wa) buf) :: c_int) = unat (wr_len (win_backend wa) buf)"
proof (intro conjI)
  let ?n = "wr_len (win_backend wa) buf"
  let ?r = "fst (w_send wa (win_raw (s_inner (stream_inner c'))) buf (ucast ?n) (nosignal (btc (win_backend wa))) (fst s'))"
  have "unat ?n \<le> 2 ^ 31 - 1" and le: "unat ?n \<le> length buf"
    using unat_buf_len_le [of buf]
    by (auto simp: wr_len_def win_backend_def win_btc_def min_def word_le_nat_alt)
  then show cast: "unat (ucast ?n :: c_int) = unat ?n"
    by (simp add: unsigned_ucast_eq take_bit_nat_eq_self_iff)
  then have "sint (ucast ?n :: c_int) = int (unat ?n)"
    using \<open>unat ?n \<le> 2 ^ 31 - 1\<close> by (simp add: sint_small del: of_nat_unat)
  then have "unat (scast ?r :: usize) \<le> length buf" if "?r \<noteq> - 1"
    using that assms(2) [of "ucast ?n" "win_raw (s_inner (stream_inner c'))" buf
        "nosignal (btc (win_backend wa))" "fst s'"]
    by (intro order_trans [OF unat_scast_le le]) (simp_all del: of_nat_unat)
  then show "wp True (stream_send (win_backend wa) c' buf)
      (\<lambda>r _. case r of Ok k \<Rightarrow> unat k \<le> length buf | Err _ \<Rightarrow> True | Panic \<Rightarrow> False) s'"
    by (simp add: stream_send_def sys_send_def win_backend_def io_wp win_as_inner_def)
  let ?m = "wr_len (unix_backend lc tgt) buf"
  let ?q = "fst (c_send lc (sock_raw (s_inner (stream_inner c))) buf ?m (nosignal (btc (unix_backend lc tgt))) (fst s))"
  have "?m = buf_len buf"
    by (simp add: wr_len_def unix_backend_def unix_btc_def min_def)
  then have "unat ?q \<le> length buf" if "?q \<noteq> - 1"
    using assms(1) [of "sock_raw (s_inner (stream_inner c))" buf ?m "nosignal (btc (unix_backend lc tgt))" "fst s"]
      that unat_buf_len_le [of buf] by (simp add: word_le_nat_alt)
  then show "wp True (stream_send (unix_backend lc tgt) c buf)
      (\<lambda>r _. case r of Ok k \<Rightarrow> unat k \<le> length buf | Err _ \<Rightarrow> True | Panic \<Rightarrow> False) s"
    by (simp add: stream_send_def sys_send_def unix_backend_def io_wp sock_as_inner_def)
qed

theorem send_bounds_witness:
  "wp True (stream_send (unix_backend sim_libc linux_target)
        (BtStream \<lparr>s_inner = Socket (FileDesc 3), s_protocol = RFCOMM\<rparr>) [7, 8])
      (\<lambda>r _. case r of Ok k \<Rightarrow> unat k \<le> length [7 :: u8, 8] | Err _ \<Rightarrow> True | Panic \<Rightarrow> False) (sim_init, True)
    \<and> wp True (stream_send (win_backend x_api) (BtStream \<lparr>s_inner = Win_Socket 4, s_protocol = RFCOMM\<rparr>) [7, 8])
      (\<lambda>r _. case r of Ok k \<Rightarrow> unat k \<le> length [7 :: u8, 8] | Err _ \<Rightarrow> True | Panic \<Rightarrow> False) (wsim_init, True)"
proof -
  have u: "fst (c_send sim_libc fd b n fl w) = - 1 \<or> fst (c_send sim_libc fd b n fl w) \<le> n" for fd b n fl w
    by (simp add: sim_libc_def sim_send_def sim_fails_def split: list.split)
  have x: "0 \<le> sint n \<Longrightarrow> fst (w_send x_api h b n fl w) = - 1 \<or> 0 \<le> sint (fst (w_send x_api h b n fl w))
      \<and> sint (fst (w_send x_api h b n fl w)) \<le> sint n" for h b n fl w
    by (simp add: x_api_def x_fails_def split: list.split)
  show ?thesis
    using send_bounds [OF u x, of linux_target "BtStream \<lparr>s_inner = Socket (FileDesc 3), s_protocol = RFCOMM\<rparr>"
        "[7, 8]" "(sim_init, True)" "BtStream \<lparr>s_inner = Win_Socket 4, s_protocol = RFCOMM\<rparr>" "(wsim_init, True)"]
    by simp
qed

section \<open>Debug output\<close>

lemma wp_unix_sockname:
  "wp t (be_sockname (unix_backend lc tgt) f) Q s =
     (let r = f (replicate (unat (size_storage lc)) 0) (size_storage lc) s in
      if fst (fst r) = - 1 then Q (Err (last_os_error lc (fst (snd r)))) (snd r)
      else Q (Ok (unix_from_storage lc (fst (snd (fst r))))) (snd r))"
  by (simp add: be_sockname_def sockname_def io_wp unix_backend_def unix_btc_def split_beta Let_def)

text \<open>
  Formatting a listener for debugging cannot fail: whatever the kernel answers, the text
  names the type and the descriptor, and between them the address exactly if the kernel could
  tell it.
\<close>

theorem listener_debug_total:
  "\<exists>s'. listener_debug (unix_backend lc tgt) (BtListener \<lparr>l_inner = Socket (FileDesc fd), l_protocol = pr\<rparr>) s
     = Some (Ok (let r = fst (c_getsockname lc fd (replicate (unat (size_storage lc)) 0) (size_storage lc) (fst s));
                     handle = (if is_windows tgt then ''socket: '' else ''fd: '') @ show_int (sint fd)
                 in if fst r = - 1 then ''BtListener { '' @ handle @ '' }''
                    else ''BtListener { addr: '' @ debug_fmt (unix_from_storage lc (fst (snd r))) @ '', ''
                      @ handle @ '' }''), s')"
proof -
  let ?r = "fst (c_getsockname lc fd (replicate (unat (size_storage lc)) 0) (size_storage lc) (fst s))"
  let ?handle = "(if is_windows tgt then ''socket: '' else ''fd: '') @ show_int (sint fd)"
  have "wp False (listener_debug (unix_backend lc tgt)
        (BtListener \<lparr>l_inner = Socket (FileDesc fd), l_protocol = pr\<rparr>))
      (\<lambda>r s'. r = Ok (if fst ?r = - 1 then ''BtListener { '' @ ?handle @ '' }''
         else ''BtListener { addr: '' @ debug_fmt (unix_from_storage lc (fst (snd ?r))) @ '', '' @ ?handle @ '' }'')) s"
    by (simp add: listener_debug_def sys_listener_debug_def sys_debug_def sys_listener_local_addr_def io_wp
        wp_unix_sockname debug_struct_def Let_def)
      (simp add: unix_backend_def unix_btc_def sock_as_inner_def)
  then show ?thesis
    unfolding Let_def by (auto dest: wp_SomeI)
qed

section \<open>Programs that use the library\<close>


definition one_address :: bt_addr where
  "one_address = BtAddr (Bytes6 1 2 3 4 5 6)"

definition nothing_yet :: "'k client" where
  "nothing_yet = \<lparr>listeners = [], streams = []\<rparr>"

lemma sim_binds:
  "\<exists>cl s. api_step (unix_backend sim_libc linux_target) nothing_yet (Bind [one_address] RFCOMM) (sim_init, True)
     = Some (Ok cl, s) \<and> length (listeners cl) = 1"
proof -
  have "case api_step (unix_backend sim_libc linux_target) nothing_yet (Bind [one_address] RFCOMM) (sim_init, True) of
      Some (Ok cl, s) \<Rightarrow> length (listeners cl) = 1 | _ \<Rightarrow> False"
    by code_simp
  then show ?thesis
    by (auto split: option.splits outcome.splits)
qed

lemma x_binds:
  "\<exists>cl s. api_step (win_backend x_api) nothing_yet (Bind [one_address] RFCOMM) (wsim_init, True)
     = Some (Ok cl, s) \<and> length (listeners cl) = 1"
proof -
  have "case api_step (win_backend x_api) nothing_yet (Bind [one_address] RFCOMM) (wsim_init, True) of
      Some (Ok cl, s) \<Rightarrow> length (listeners cl) = 1 | _ \<Rightarrow> False"
    by code_simp
  then show ?thesis
    by (auto split: option.splits outcome.splits)
qed

lemma reach_start: "api_reach B s0 nothing_yet s0"
  unfolding nothing_yet_def by (rule api_start)




text \<open>
  C8. No operation of the library panics on either backend, whatever a program calls on
  whatever values: not the assertion on the length of an option, not the conversions of time
  limits, not the subtraction of durations in the loop around \<open>poll\<close>. The hypothesis is that the
  platform answers for its options with their documented sizes.
\<close>

theorem api_never_panics:
  assumes "options_ok lc" and "w_options_ok wa"
  shows "calm (api_step (unix_backend lc tgt) cl call) \<and> calm (unix_discover_devices lc)
    \<and> calm (api_step (win_backend wa) cl' call') \<and> calm (win_discover_devices wa)"
  using unix_calm.calm_step [of "(lc, tgt)" cl call] win_calm.calm_step [of wa cl' call'] assms
  by (simp add: calms)

text \<open>A kernel that reports its time limits in normal form.\<close>

definition normal_libc :: "sim libc" where
  "normal_libc = sim_libc\<lparr>c_getsockopt_timeval := (\<lambda>fd l x v n. sim_fails (- 1, v, n) (\<lambda>w.
     ((0, Timeval (tv_sec (s_rcvtimeo w)) (tv_usec (s_rcvtimeo w) mod 1000000), 16), w)))\<rparr>"

lemma normal_options_ok: "options_ok normal_libc" "w_options_ok x_api"
proof -
  have "unat (x mod 1000000 :: 64 word) < 1000000" for x
    by (simp add: unat_mod)
  then show "options_ok normal_libc"
    by (auto simp: options_ok_def normal_libc_def sim_libc_def sim_fails_def split: list.split)
  show "w_options_ok x_api"
    by (auto simp: w_options_ok_def x_api_def x_fails_def split: list.split)
qed

theorem api_never_panics_witness:
  "calm (api_step (unix_backend normal_libc linux_target) nothing_yet (Connect_Timeout one_address RFCOMM (Duration 5 0)))
    \<and> calm (unix_discover_devices normal_libc)
    \<and> calm (api_step (win_backend x_api) nothing_yet (Bind [one_address] L2CAP)) \<and> calm (win_discover_devices x_api)"
  using api_never_panics [OF normal_options_ok, of linux_target nothing_yet
    "Connect_Timeout one_address RFCOMM (Duration 5 0)" nothing_yet "Bind [one_address] L2CAP"] by simp

end
